theory Spec2Isabelle
  imports Complex_Main "HOL-Library.Multiset"
begin

section \<open>The notebook and what is modelled\<close>

text \<open>
  The repository is one notebook, \<^verbatim>\<open>Part 3 - Training Neural Networks (Exercises).ipynb\<close>.
  The file carries the two sides of an unresolved merge; the side marked \<^verbatim>\<open>HEAD\<close> is the
  worked solution (the other side leaves \<^verbatim>\<open>model =\<close> and \<^verbatim>\<open>loss =\<close> blank and is not a
  program), so the cells are embedded as their \<^verbatim>\<open>HEAD\<close> side.

  The notebook calls a deep-learning framework. Its calls are embedded in two ways:
  \<^item> what the notebook's own lines decide (tensor shapes, the layer list of
    \<^verbatim>\<open>nn.Sequential\<close>, the order of the statements of the loop, the running sum, the
    batching of \<^verbatim>\<open>DataLoader(trainset, batch_size=64, shuffle=True)\<close>) is defined here,
    with tensor entries as real numbers;
  \<^item> what only the framework decides (the download, the initial weights, the shuffling,
    the value of the loss, the gradient and the optimiser's update rule) is a field of the
    record \<open>framework\<close>, a parameter of every definition that uses it.

  The \<^verbatim>\<open>import\<close> statements (lines 86 to 89, 524 and 747) and the magic
  \<^verbatim>\<open>%matplotlib inline\<close> (line 746) are statements of their cells: the interpreter looks
  the module up on the file system, and raises when it is not there. What it finds is a
  field of the same record.
\<close>

section \<open>Errors\<close>

text \<open>
  Exceptions are values. \<open>NameError\<close>, \<open>ZeroDivisionError\<close>, \<open>TupleIndexError\<close> (the
  IndexError of indexing an empty tuple) and \<open>ModuleNotFoundError\<close> (an \<^verbatim>\<open>import\<close> of a
  module that is not installed) are raised by the Python interpreter. The others
  are raised inside the framework: \<open>RuntimeError\<close> on a shape that does not fit or on a
  second backward pass through one graph, \<open>IndexError\<close> on a dimension or a position a
  tensor or a module list does not have, \<open>ValueError\<close> on a batch size of zero,
  \<open>AttributeError\<close> on a module without the attribute, \<open>StopIteration\<close> from a loader
  with no batch, and \<open>FrameworkError e\<close> for any other exception \<open>e\<close> of the framework
  (a failed download, a rejected target).
\<close>

datatype 'e error =
    NameError | ZeroDivisionError | TupleIndexError | ModuleNotFoundError
  | RuntimeError | IndexError | ValueError | AttributeError | StopIteration | FrameworkError 'e


section \<open>Tensors, \<^verbatim>\<open>view\<close> and \<^verbatim>\<open>resize_\<close>\<close>

text \<open>A tensor is its shape and its entries in row-major order.\<close>

record 'a tensor =
  shape :: "nat list"
  data :: "'a list"

definition wf_tensor :: "'a tensor \<Rightarrow> bool" where
  "wf_tensor t \<longleftrightarrow> length (data t) = prod_list (shape t)"

text \<open>
  \<^verbatim>\<open>t.view(d0, -1)\<close>: the second dimension is inferred. The framework raises when
  \<open>d0\<close> is zero (the inferred dimension is then ambiguous or the shape invalid) or does not
  divide the number of entries. The entries are shared, not copied.
\<close>

definition view_rows :: "'a tensor \<Rightarrow> nat \<Rightarrow> 'e error + 'a tensor" where
  "view_rows t d0 =
     (if d0 = 0 \<or> prod_list (shape t) mod d0 \<noteq> 0 then Inl RuntimeError
      else Inr \<lparr>shape = [d0, prod_list (shape t) div d0], data = data t\<rparr>)"

text \<open>
  \<^verbatim>\<open>images.view(images.shape[0], -1)\<close>, lines 141, 201, 457 and 694.
  \<^verbatim>\<open>images.shape[0]\<close> indexes a tuple, which is empty for a tensor of no dimension.
\<close>

definition flatten :: "'a tensor \<Rightarrow> 'e error + 'a tensor" where
  "flatten t = (case shape t of [] \<Rightarrow> Inl TupleIndexError | d0 # _ \<Rightarrow> view_rows t d0)"

text \<open>\<^verbatim>\<open>t.view(sh)\<close> with every dimension given: the number of entries must agree.\<close>

definition view_as :: "'a tensor \<Rightarrow> nat list \<Rightarrow> 'e error + 'a tensor" where
  "view_as t sh =
     (if prod_list sh = prod_list (shape t) then Inr \<lparr>shape = sh, data = data t\<rparr>
      else Inl RuntimeError)"

text \<open>
  \<^verbatim>\<open>t.resize_(...)\<close>, line 585: in place, never raises. The tensor gets the new shape
  over the same storage: entries beyond the new size are cut off, and entries the old
  tensor did not have are uninitialised memory, here whatever \<open>junk\<close> holds.
\<close>

definition resize_inplace :: "(nat \<Rightarrow> 'a) \<Rightarrow> 'a tensor \<Rightarrow> nat list \<Rightarrow> 'a tensor" where
  "resize_inplace junk t sh =
     \<lparr>shape = sh,
      data = map (\<lambda>i. if i < length (data t) then data t ! i else junk i) [0..<prod_list sh]\<rparr>"

text \<open>\<^verbatim>\<open>t[0]\<close>: the first slice along the first dimension.\<close>

definition first_slice :: "'a tensor \<Rightarrow> 'e error + 'a tensor" where
  "first_slice t =
     (case shape t of
        [] \<Rightarrow> Inl IndexError
      | d0 # rest \<Rightarrow>
          if d0 = 0 then Inl IndexError
          else Inr \<lparr>shape = rest, data = take (prod_list rest) (data t)\<rparr>)"

section \<open>The data loader\<close>

text \<open>A sample of the training set is an image tensor and its label.\<close>

type_synonym sample = "real tensor \<times> nat"

text \<open>
  \<^verbatim>\<open>DataLoader(trainset, batch_size=64, shuffle=True)\<close>, line 97. With the default
  \<^verbatim>\<open>drop_last=False\<close> the loader cuts the order of an epoch into consecutive batches of
  \<open>batch_size\<close> samples, the last one shorter when the size does not divide.
\<close>

record loader =
  dataset :: "sample list"
  batch_size :: nat
  shuffled :: bool

fun chunks :: "nat \<Rightarrow> 'a list \<Rightarrow> 'a list list" where
  "chunks n [] = []"
| "chunks n (x # xs) = (if n = 0 then [] else take n (x # xs) # chunks n (drop n (x # xs)))"

text \<open>
  The default collate function stacks the images of a batch along a new first dimension
  and lists the labels. Stacking raises when two images differ in shape.
\<close>

definition collate :: "sample list \<Rightarrow> 'e error + (real tensor \<times> nat list)" where
  "collate xs =
     (case xs of
        [] \<Rightarrow> Inl IndexError
      | s0 # rest \<Rightarrow>
          if list_all (\<lambda>s. shape (fst s) = shape (fst s0)) rest
          then Inr (\<lparr>shape = length xs # shape (fst s0), data = concat (map (\<lambda>s. data (fst s)) xs)\<rparr>,
                    map snd xs)
          else Inl RuntimeError)"

text \<open>\<^verbatim>\<open>len(trainloader)\<close>: the number of batches of an epoch.\<close>

definition len_loader :: "loader \<Rightarrow> nat" where
  "len_loader ld = (length (dataset ld) + batch_size ld - 1) div batch_size ld"

section \<open>The layer stack\<close>

text \<open>
  \<^verbatim>\<open>nn.Linear(n_in, n_out)\<close> owns a weight matrix of \<open>n_out\<close> rows of \<open>n_in\<close> entries and a
  bias of \<open>n_out\<close> entries; \<^verbatim>\<open>nn.ReLU()\<close> and \<^verbatim>\<open>nn.LogSoftmax(dim)\<close> own nothing.
\<close>

datatype layer = Linear nat nat "real list list" "real list" | ReLU | LogSoftmax nat

text \<open>
  A linear layer maps every row \<open>x\<close> of the last dimension to \<open>W x + b\<close>; the framework
  raises when the last dimension is not \<open>n_in\<close>.
\<close>

definition linear_layer :: "nat \<Rightarrow> nat \<Rightarrow> real list list \<Rightarrow> real list \<Rightarrow> real tensor
    \<Rightarrow> 'e error + real tensor" where
  "linear_layer n_in n_out W b x =
     (if shape x = [] \<or> last (shape x) \<noteq> n_in \<or> \<not> wf_tensor x
         \<or> length W \<noteq> n_out \<or> \<not> list_all (\<lambda>row. length row = n_in) W \<or> length b \<noteq> n_out
      then Inl RuntimeError
      else Inr \<lparr>shape = butlast (shape x) @ [n_out],
                data = concat (map (\<lambda>r. map (\<lambda>j. (\<Sum>i\<leftarrow>[0..<n_in]. W ! j ! i * data x ! (r * n_in + i)) + b ! j)
                                            [0..<n_out])
                                   [0..<prod_list (butlast (shape x))])\<rparr>)"

definition relu :: "real tensor \<Rightarrow> real tensor" where
  "relu x = x\<lparr>data := map (max 0) (data x)\<rparr>"

text \<open>
  The entries that differ from entry \<open>k\<close> in dimension \<open>d\<close> only, entry \<open>k\<close> among them.
\<close>

definition along :: "nat \<Rightarrow> real tensor \<Rightarrow> nat \<Rightarrow> real list" where
  "along d x k =
     (let n = shape x ! d; inner = prod_list (drop (Suc d) (shape x))
      in map (\<lambda>j. data x ! (k div (n * inner) * (n * inner) + j * inner + k mod inner)) [0..<n])"

text \<open>
  \<^verbatim>\<open>nn.LogSoftmax(dim=d)\<close>: every entry minus the logarithm of the sum of the exponentials
  along dimension \<open>d\<close>. The framework raises IndexError when the tensor has no
  dimension \<open>d\<close>.
\<close>

definition log_softmax :: "nat \<Rightarrow> real tensor \<Rightarrow> 'e error + real tensor" where
  "log_softmax d x =
     (if length (shape x) \<le> d then Inl IndexError
      else if \<not> wf_tensor x then Inl RuntimeError
      else Inr (x\<lparr>data := map (\<lambda>k. data x ! k - ln (\<Sum>v\<leftarrow>along d x k. exp v)) [0..<length (data x)]\<rparr>))"

text \<open>\<^verbatim>\<open>F.softmax(t, dim=d)\<close>, line 757.\<close>

definition softmax :: "nat \<Rightarrow> real tensor \<Rightarrow> 'e error + real tensor" where
  "softmax d x =
     (if length (shape x) \<le> d then Inl IndexError
      else if \<not> wf_tensor x then Inl RuntimeError
      else Inr (x\<lparr>data := map (\<lambda>k. exp (data x ! k) / (\<Sum>v\<leftarrow>along d x k. exp v)) [0..<length (data x)]\<rparr>))"

text \<open>\<^verbatim>\<open>nn.Sequential(...)\<close> applies its layers in order.\<close>

fun forward :: "layer list \<Rightarrow> real tensor \<Rightarrow> 'e error + real tensor" where
  "forward [] x = Inr x"
| "forward (Linear n_in n_out W b # ls) x =
     (case linear_layer n_in n_out W b x of Inl err \<Rightarrow> Inl err | Inr y \<Rightarrow> forward ls y)"
| "forward (ReLU # ls) x = forward ls (relu x)"
| "forward (LogSoftmax d # ls) x =
     (case log_softmax d x of Inl err \<Rightarrow> Inl err | Inr y \<Rightarrow> forward ls y)"

section \<open>The framework's part\<close>

datatype criterion = CrossEntropyLoss | NLLLoss

text \<open>
  Every \<^verbatim>\<open>nn.Sequential(...)\<close> is a new object with new parameters. The notebook binds
  \<^verbatim>\<open>model\<close> four times, so an optimiser or a graph can outlive the model it was built
  from; objects are told apart by a number, the count of models built so far.
  \<open>SGD lr k\<close> is \<^verbatim>\<open>optim.SGD(model.parameters(), lr=lr)\<close> built when \<^verbatim>\<open>model\<close> was model
  number \<open>k\<close>.
\<close>

datatype optimizer = SGD real nat

text \<open>
  The output of a forward pass remembers the graph it was computed by (the number of the
  model, its layers and the input), unless it was computed under \<^verbatim>\<open>torch.no_grad()\<close>.
  A loss remembers the output and the target, and whether a backward pass has freed its
  graph. (That a freed graph is shared with other values computed from the same output is
  not tracked; no cell computes two losses from one output.)
\<close>

record output_t =
  out_value :: "real tensor"
  out_graph :: "(nat \<times> layer list \<times> real tensor) option"

record loss_t =
  item :: real
  loss_criterion :: criterion
  loss_output :: output_t
  loss_target :: "nat list"
  graph_freed :: bool

text \<open>
  The operations whose results only the framework decides. \<open>'e\<close> is the type of its
  exceptions, \<open>'g\<close> the type of a gradient of all parameters of a model (a \<^verbatim>\<open>.grad\<close> per
  parameter), \<open>'r\<close> the state of its random number generator, \<open>'f\<close> the file system.
  \<^item> \<open>mnist root f\<close>: \<^verbatim>\<open>datasets.MNIST(root, download=True, train=True, transform=transform)\<close>
    on the file system \<open>f\<close>: the transformed samples and the file system after the download.
  \<^item> \<open>init_linear r n_in n_out\<close>: the initial weight and bias of \<^verbatim>\<open>nn.Linear(n_in, n_out)\<close>.
  \<^item> \<open>shuffle r xs\<close>: the order in which a shuffling loader visits \<open>xs\<close> in one epoch.
  \<^item> \<open>uninitialised\<close>: what memory holds where \<^verbatim>\<open>resize_\<close> grows a tensor.
  \<^item> \<open>loss_fn c out target\<close>: the value of criterion \<open>c\<close>.
  \<^item> \<open>autograd l\<close>: the gradient of the loss \<open>l\<close> with respect to the parameters of the model
    in its graph.
  \<^item> \<open>sgd_update lr m g\<close>: the model after one step of \<^verbatim>\<open>optim.SGD\<close> with gradient \<open>g\<close>.
  \<^item> \<open>randn r sh\<close>, \<open>square\<close>, \<open>mean\<close>, \<open>grad_mean_square\<close>: \<^verbatim>\<open>torch.randn\<close>, \<^verbatim>\<open>x**2\<close>,
    \<^verbatim>\<open>y.mean()\<close> and the gradient of \<^verbatim>\<open>(x**2).mean()\<close> with respect to \<^verbatim>\<open>x\<close>, of the
    autograd demonstration (lines 261 to 418).
  \<^item> \<open>import_module name f\<close>: what the interpreter's \<^verbatim>\<open>import name\<close> does on the file
    system \<open>f\<close>: \<open>None\<close> when it finds no such module, else the file system after the
    import (the interpreter reads the module's files and may write compiled files beside
    them).
  \<^item> \<open>view_classify\<close>. Modelled from the spec: \<^verbatim>\<open>helper.view_classify\<close> is the repository's
    plotting helper, and \<^verbatim>\<open>helper.py\<close> is not among the source files. The spec counts
    "the plotting/visualization helper" among the parts "treated as opaque external library
    calls", so it is an operation that shows a figure or raises, and nothing else.
\<close>

record ('e, 'g, 'r, 'f) framework =
  mnist :: "string \<Rightarrow> 'f \<Rightarrow> 'e + (sample list \<times> 'f)"
  init_linear :: "'r \<Rightarrow> nat \<Rightarrow> nat \<Rightarrow> (real list list \<times> real list) \<times> 'r"
  shuffle :: "'r \<Rightarrow> sample list \<Rightarrow> sample list \<times> 'r"
  uninitialised :: "nat \<Rightarrow> real"
  loss_fn :: "criterion \<Rightarrow> real tensor \<Rightarrow> nat list \<Rightarrow> 'e + real"
  autograd :: "loss_t \<Rightarrow> 'g"
  sgd_update :: "real \<Rightarrow> layer list \<Rightarrow> 'g \<Rightarrow> layer list"
  randn :: "'r \<Rightarrow> nat list \<Rightarrow> real tensor \<times> 'r"
  square :: "real tensor \<Rightarrow> real tensor"
  mean :: "real tensor \<Rightarrow> real"
  grad_mean_square :: "real tensor \<Rightarrow> real tensor"
  view_classify :: "real tensor \<Rightarrow> real tensor \<Rightarrow> 'e option"
  import_module :: "string \<Rightarrow> 'f \<Rightarrow> 'f option"

section \<open>The state of the notebook\<close>

text \<open>
  The framework calls a run makes, in order. \<open>CallNext\<close> carries the samples of the batch
  the loader yields and \<open>CallItem\<close> the number \<^verbatim>\<open>loss.item()\<close> returns.
\<close>

datatype call =
    CallMNIST | CallDataLoader | CallSequential | CallNewCriterion | CallSGD
  | CallIter | CallNext "sample list" | CallView | CallResize | CallZeroGrad | CallForward
  | CallCriterion | CallBackward | CallStep | CallItem real | CallLen
  | CallRandn | CallPow | CallMean | CallIndex | CallSoftmax | CallViewClassify

text \<open>What a cell prints: the expression, not its rendering, except for the training loss.\<close>

datatype shown =
    ShowLoss | ShowX | ShowY | ShowGradFn | ShowZ | ShowXGrad | ShowXHalf
  | ShowWeight | ShowWeightGrad

datatype printed = TrainingLoss real | Shown shown | Figure

text \<open>The names a forward pass's result is bound to.\<close>

datatype var = Logits | Logps | Output

text \<open>
  The Python variables (\<open>None\<close>: not yet assigned), the number of the model \<^verbatim>\<open>model\<close> is
  bound to and the \<^verbatim>\<open>.grad\<close> of its parameters (\<open>None\<close> until the first backward pass), the
  framework's random state, the file system, what was printed and the calls made.
  The names an \<^verbatim>\<open>import\<close> binds are not variables of the state: every use of a module
  comes after its import in the order of the cells. The variables
  \<^verbatim>\<open>x\<close>, \<^verbatim>\<open>y\<close>, \<^verbatim>\<open>z\<close> and \<^verbatim>\<open>output\<close> are the fields \<open>var_x\<close>, \<open>var_y\<close>, \<open>var_z\<close> and
  \<open>output'\<close>.
\<close>

record ('g, 'r, 'f) state =
  fs :: 'f
  rng :: 'r
  trainset :: "sample list option"
  trainloader :: "loader option"
  model :: "layer list option"
  model_id :: nat
  grad :: "'g option"
  criterion :: "criterion option"
  optimizer :: "optimizer option"
  images :: "real tensor option"
  labels :: "nat list option"
  logits :: "output_t option"
  logps :: "output_t option"
  output' :: "output_t option"
  loss :: "loss_t option"
  running_loss :: "real option"
  var_x :: "real tensor option"
  x_grad :: "real tensor option"
  var_y :: "real tensor option"
  var_z :: "(real \<times> bool) option"
  img :: "real tensor option"
  ps :: "real tensor option"
  stdout :: "printed list"
  trace :: "call list"

definition get_var :: "var \<Rightarrow> ('g, 'r, 'f) state \<Rightarrow> output_t option" where
  "get_var v s = (case v of Logits \<Rightarrow> logits s | Logps \<Rightarrow> logps s | Output \<Rightarrow> output' s)"

definition set_var :: "var \<Rightarrow> output_t \<Rightarrow> ('g, 'r, 'f) state \<Rightarrow> ('g, 'r, 'f) state" where
  "set_var v out s =
     (case v of Logits \<Rightarrow> s\<lparr>logits := Some out\<rparr> | Logps \<Rightarrow> s\<lparr>logps := Some out\<rparr>
              | Output \<Rightarrow> s\<lparr>output' := Some out\<rparr>)"

section \<open>The statements of the cells\<close>

text \<open>The arguments of \<^verbatim>\<open>nn.Sequential(...)\<close>.\<close>

datatype ctor = NewLinear nat nat | NewReLU | NewLogSoftmax nat

fun build :: "('e, 'g, 'r, 'f) framework \<Rightarrow> ctor list \<Rightarrow> 'r \<Rightarrow> layer list \<times> 'r" where
  "build fw [] r = ([], r)"
| "build fw (NewLinear n_in n_out # cs) r =
     (let (wb, r1) = init_linear fw r n_in n_out; (ls, r2) = build fw cs r1
      in (Linear n_in n_out (fst wb) (snd wb) # ls, r2))"
| "build fw (NewReLU # cs) r = (let (ls, r1) = build fw cs r in (ReLU # ls, r1))"
| "build fw (NewLogSoftmax d # cs) r = (let (ls, r1) = build fw cs r in (LogSoftmax d # ls, r1))"

text \<open>
  \<^verbatim>\<open>iter(trainloader)\<close>: the order of the epoch (drawn by the framework when the loader
  shuffles) cut into batches.
\<close>

definition iter_loader :: "('e, 'g, 'r, 'f) framework \<Rightarrow> loader \<Rightarrow> 'r \<Rightarrow> sample list list \<times> 'r" where
  "iter_loader fw ld r =
     (let (order, r') = (if shuffled ld then shuffle fw r (dataset ld) else (dataset ld, r))
      in (chunks (batch_size ld) order, r'))"

text \<open>\<^verbatim>\<open>model[0].weight\<close>: the first module must exist and be a linear layer.\<close>

definition first_weight :: "layer list \<Rightarrow> 'e error + real list list" where
  "first_weight m =
     (case m of
        [] \<Rightarrow> Inl IndexError
      | Linear _ _ W _ # _ \<Rightarrow> Inr W
      | _ # _ \<Rightarrow> Inl AttributeError)"

text \<open>What \<^verbatim>\<open>print\<close> must read; an unbound name raises NameError.\<close>

definition readable :: "shown \<Rightarrow> ('g, 'r, 'f) state \<Rightarrow> 'e error option" where
  "readable e s =
     (case e of
        ShowLoss \<Rightarrow> (case loss s of None \<Rightarrow> Some NameError | Some _ \<Rightarrow> None)
      | ShowX \<Rightarrow> (case var_x s of None \<Rightarrow> Some NameError | Some _ \<Rightarrow> None)
      | ShowXGrad \<Rightarrow> (case var_x s of None \<Rightarrow> Some NameError | Some _ \<Rightarrow> None)
      | ShowXHalf \<Rightarrow> (case var_x s of None \<Rightarrow> Some NameError | Some _ \<Rightarrow> None)
      | ShowY \<Rightarrow> (case var_y s of None \<Rightarrow> Some NameError | Some _ \<Rightarrow> None)
      | ShowGradFn \<Rightarrow> (case var_y s of None \<Rightarrow> Some NameError | Some _ \<Rightarrow> None)
      | ShowZ \<Rightarrow> (case var_z s of None \<Rightarrow> Some NameError | Some _ \<Rightarrow> None)
      | ShowWeight \<Rightarrow>
          (case model s of
             None \<Rightarrow> Some NameError
           | Some m \<Rightarrow> (case first_weight m of Inl err \<Rightarrow> Some err | Inr _ \<Rightarrow> None))
      | ShowWeightGrad \<Rightarrow>
          (case model s of
             None \<Rightarrow> Some NameError
           | Some m \<Rightarrow> (case first_weight m of Inl err \<Rightarrow> Some err | Inr _ \<Rightarrow> None)))"

text \<open>
  One constructor for each kind of statement of the notebook. \<open>NextBatch ch\<close> is one turn
  of \<^verbatim>\<open>for images, labels in trainloader\<close> that yields the batch of the samples \<open>ch\<close>.
  \<open>Import name\<close> is an \<^verbatim>\<open>import\<close> of the module \<open>name\<close>; \<^verbatim>\<open>%matplotlib inline\<close> is the
  import of \<^verbatim>\<open>matplotlib\<close> it starts with.
\<close>

datatype stmt =
    LoadMNIST string | MakeLoader nat bool | NewModel "ctor list" | SetCriterion criterion
  | SetOptimizer real | FirstBatch | Flatten | Resize "nat list" | ZeroGrad | Forward var
  | Criterion var | Backward | Step | Show shown
  | ResetLoss | NextBatch "sample list" | Accumulate | PrintLoss
  | Randn "nat list" | Square | Mean | BackwardZ
  | FirstImage | Predict | Softmax | ViewClassify
  | Import string

fun exec :: "('e, 'g::monoid_add, 'r, 'f) framework \<Rightarrow> stmt \<Rightarrow> ('g, 'r, 'f) state
    \<Rightarrow> 'e error + ('g, 'r, 'f) state" where
  \<comment> \<open>\<^verbatim>\<open>trainset = datasets.MNIST(root, download=True, train=True, transform=transform)\<close>\<close>
  "exec fw (LoadMNIST dir) s =
     (case mnist fw dir (fs s) of
        Inl e \<Rightarrow> Inl (FrameworkError e)
      | Inr (ds, f') \<Rightarrow> Inr (s\<lparr>fs := f', trainset := Some ds, trace := trace s @ [CallMNIST]\<rparr>))"
  \<comment> \<open>\<^verbatim>\<open>trainloader = torch.utils.data.DataLoader(trainset, batch_size=n, shuffle=sh)\<close>\<close>
| "exec fw (MakeLoader n sh) s =
     (case trainset s of
        None \<Rightarrow> Inl NameError
      | Some ds \<Rightarrow>
          if n = 0 then Inl ValueError
          else Inr (s\<lparr>trainloader := Some \<lparr>dataset = ds, batch_size = n, shuffled = sh\<rparr>,
                      trace := trace s @ [CallDataLoader]\<rparr>))"
  \<comment> \<open>\<^verbatim>\<open>model = nn.Sequential(...)\<close>: a new model, its parameters without gradients\<close>
| "exec fw (NewModel cs) s =
     (let (m, r') = build fw cs (rng s)
      in Inr (s\<lparr>model := Some m, model_id := Suc (model_id s), grad := None, rng := r',
                trace := trace s @ [CallSequential]\<rparr>))"
  \<comment> \<open>\<^verbatim>\<open>criterion = nn.CrossEntropyLoss()\<close>, \<^verbatim>\<open>criterion = nn.NLLLoss()\<close>\<close>
| "exec fw (SetCriterion c) s =
     Inr (s\<lparr>criterion := Some c, trace := trace s @ [CallNewCriterion]\<rparr>)"
  \<comment> \<open>\<^verbatim>\<open>optimizer = optim.SGD(model.parameters(), lr=lr)\<close>\<close>
| "exec fw (SetOptimizer lr) s =
     (case model s of
        None \<Rightarrow> Inl NameError
      | Some _ \<Rightarrow> Inr (s\<lparr>optimizer := Some (SGD lr (model_id s)), trace := trace s @ [CallSGD]\<rparr>))"
  \<comment> \<open>\<^verbatim>\<open>images, labels = next(iter(trainloader))\<close>\<close>
| "exec fw FirstBatch s =
     (case trainloader s of
        None \<Rightarrow> Inl NameError
      | Some ld \<Rightarrow>
          (let (chs, r') = iter_loader fw ld (rng s) in
           case chs of
             [] \<Rightarrow> Inl StopIteration
           | ch # _ \<Rightarrow>
               (case collate ch of
                  Inl err \<Rightarrow> Inl err
                | Inr (im, lb) \<Rightarrow>
                    Inr (s\<lparr>images := Some im, labels := Some lb, rng := r',
                           trace := trace s @ [CallIter, CallNext ch]\<rparr>))))"
  \<comment> \<open>\<^verbatim>\<open>images = images.view(images.shape[0], -1)\<close>\<close>
| "exec fw Flatten s =
     (case images s of
        None \<Rightarrow> Inl NameError
      | Some im \<Rightarrow>
          (case flatten im of
             Inl err \<Rightarrow> Inl err
           | Inr im' \<Rightarrow> Inr (s\<lparr>images := Some im', trace := trace s @ [CallView]\<rparr>)))"
  \<comment> \<open>\<^verbatim>\<open>images.resize_(64, 784)\<close>\<close>
| "exec fw (Resize sh) s =
     (case images s of
        None \<Rightarrow> Inl NameError
      | Some im \<Rightarrow>
          Inr (s\<lparr>images := Some (resize_inplace (uninitialised fw) im sh),
                 trace := trace s @ [CallResize]\<rparr>))"
  \<comment> \<open>\<^verbatim>\<open>optimizer.zero_grad()\<close>: every gradient that exists, of the parameters the
      optimiser was built from, is set to zero\<close>
| "exec fw ZeroGrad s =
     (case optimizer s of
        None \<Rightarrow> Inl NameError
      | Some (SGD lr k) \<Rightarrow>
          Inr (s\<lparr>grad := (if k = model_id s then map_option (\<lambda>_. 0) (grad s) else grad s),
                 trace := trace s @ [CallZeroGrad]\<rparr>))"
  \<comment> \<open>\<^verbatim>\<open>logits = model(images)\<close>, \<^verbatim>\<open>logps = model(images)\<close>, \<^verbatim>\<open>output = model.forward(images)\<close>\<close>
| "exec fw (Forward v) s =
     (case model s of
        None \<Rightarrow> Inl NameError
      | Some m \<Rightarrow>
          (case images s of
             None \<Rightarrow> Inl NameError
           | Some im \<Rightarrow>
               (case forward m im of
                  Inl err \<Rightarrow> Inl err
                | Inr out \<Rightarrow>
                    Inr (set_var v \<lparr>out_value = out, out_graph = Some (model_id s, m, im)\<rparr>
                           (s\<lparr>trace := trace s @ [CallForward]\<rparr>)))))"
  \<comment> \<open>\<^verbatim>\<open>loss = criterion(logits, labels)\<close>, and the same of \<^verbatim>\<open>logps\<close> and \<^verbatim>\<open>output\<close>\<close>
| "exec fw (Criterion v) s =
     (case criterion s of
        None \<Rightarrow> Inl NameError
      | Some c \<Rightarrow>
          (case get_var v s of
             None \<Rightarrow> Inl NameError
           | Some out \<Rightarrow>
               (case labels s of
                  None \<Rightarrow> Inl NameError
                | Some lb \<Rightarrow>
                    (case loss_fn fw c (out_value out) lb of
                       Inl e \<Rightarrow> Inl (FrameworkError e)
                     | Inr l \<Rightarrow>
                         Inr (s\<lparr>loss := Some \<lparr>item = l, loss_criterion = c, loss_output = out,
                                                 loss_target = lb, graph_freed = False\<rparr>,
                                trace := trace s @ [CallCriterion]\<rparr>)))))"
  \<comment> \<open>\<^verbatim>\<open>loss.backward()\<close>: the gradient is added to the one the parameters of the graph's
      model already have\<close>
| "exec fw Backward s =
     (case loss s of
        None \<Rightarrow> Inl NameError
      | Some l \<Rightarrow>
          (case out_graph (loss_output l) of
             None \<Rightarrow> Inl RuntimeError
           | Some (k, _, _) \<Rightarrow>
               if graph_freed l then Inl RuntimeError
               else Inr (s\<lparr>grad := (if k = model_id s
                                      then Some (case grad s of None \<Rightarrow> autograd fw l
                                                 | Some g \<Rightarrow> g + autograd fw l)
                                      else grad s),
                           loss := Some (l\<lparr>graph_freed := True\<rparr>),
                           trace := trace s @ [CallBackward]\<rparr>)))"
  \<comment> \<open>\<^verbatim>\<open>optimizer.step()\<close>: parameters without a gradient are skipped\<close>
| "exec fw Step s =
     (case optimizer s of
        None \<Rightarrow> Inl NameError
      | Some (SGD lr k) \<Rightarrow>
          Inr (s\<lparr>model := (if k = model_id s
                             then (case grad s of None \<Rightarrow> model s
                                   | Some g \<Rightarrow> map_option (\<lambda>m. sgd_update fw lr m g) (model s))
                             else model s),
                 trace := trace s @ [CallStep]\<rparr>))"
  \<comment> \<open>\<^verbatim>\<open>print(loss)\<close>, \<^verbatim>\<open>print(x)\<close>, \<^verbatim>\<open>print('Gradient -', model[0].weight.grad)\<close> and the like\<close>
| "exec fw (Show e) s =
     (case readable e s of
        Some err \<Rightarrow> Inl err
      | None \<Rightarrow> Inr (s\<lparr>stdout := stdout s @ [Shown e]\<rparr>))"
  \<comment> \<open>\<^verbatim>\<open>running_loss = 0\<close>\<close>
| "exec fw ResetLoss s = Inr (s\<lparr>running_loss := Some 0\<rparr>)"
  \<comment> \<open>\<^verbatim>\<open>for images, labels in trainloader:\<close>\<close>
| "exec fw (NextBatch ch) s =
     (case collate ch of
        Inl err \<Rightarrow> Inl err
      | Inr (im, lb) \<Rightarrow>
          Inr (s\<lparr>images := Some im, labels := Some lb, trace := trace s @ [CallNext ch]\<rparr>))"
  \<comment> \<open>\<^verbatim>\<open>running_loss += loss.item()\<close>\<close>
| "exec fw Accumulate s =
     (case running_loss s of
        None \<Rightarrow> Inl NameError
      | Some r \<Rightarrow>
          (case loss s of
             None \<Rightarrow> Inl NameError
           | Some l \<Rightarrow>
               Inr (s\<lparr>running_loss := Some (r + item l), trace := trace s @ [CallItem (item l)]\<rparr>)))"
  \<comment> \<open>\<^verbatim>\<open>print(f"Training loss: {running_loss/len(trainloader)}")\<close>\<close>
| "exec fw PrintLoss s =
     (case running_loss s of
        None \<Rightarrow> Inl NameError
      | Some r \<Rightarrow>
          (case trainloader s of
             None \<Rightarrow> Inl NameError
           | Some ld \<Rightarrow>
               if len_loader ld = 0 then Inl ZeroDivisionError
               else Inr (s\<lparr>stdout := stdout s @ [TrainingLoss (r / real (len_loader ld))],
                           trace := trace s @ [CallLen]\<rparr>)))"
  \<comment> \<open>\<^verbatim>\<open>x = torch.randn(2,2, requires_grad=True)\<close>\<close>
| "exec fw (Randn sh) s =
     (let (t, r') = randn fw (rng s) sh
      in Inr (s\<lparr>var_x := Some t, x_grad := None, rng := r', trace := trace s @ [CallRandn]\<rparr>))"
  \<comment> \<open>\<^verbatim>\<open>y = x**2\<close>\<close>
| "exec fw Square s =
     (case var_x s of
        None \<Rightarrow> Inl NameError
      | Some t \<Rightarrow> Inr (s\<lparr>var_y := Some (square fw t), trace := trace s @ [CallPow]\<rparr>))"
  \<comment> \<open>\<^verbatim>\<open>z = y.mean()\<close>\<close>
| "exec fw Mean s =
     (case var_y s of
        None \<Rightarrow> Inl NameError
      | Some t \<Rightarrow> Inr (s\<lparr>var_z := Some (mean fw t, False), trace := trace s @ [CallMean]\<rparr>))"
  \<comment> \<open>\<^verbatim>\<open>z.backward()\<close>\<close>
| "exec fw BackwardZ s =
     (case var_z s of
        None \<Rightarrow> Inl NameError
      | Some (v, freed) \<Rightarrow>
          if freed then Inl RuntimeError
          else
            (case var_x s of
               None \<Rightarrow> Inl NameError
             | Some t \<Rightarrow>
                 Inr (s\<lparr>x_grad := Some (case x_grad s of
                                          None \<Rightarrow> grad_mean_square fw t
                                        | Some g \<Rightarrow> g\<lparr>data := map2 (+) (data g) (data (grad_mean_square fw t))\<rparr>),
                        var_z := Some (v, True),
                        trace := trace s @ [CallBackward]\<rparr>)))"
  \<comment> \<open>\<^verbatim>\<open>img = images[0].view(1, 784)\<close>\<close>
| "exec fw FirstImage s =
     (case images s of
        None \<Rightarrow> Inl NameError
      | Some im \<Rightarrow>
          (case first_slice im of
             Inl err \<Rightarrow> Inl err
           | Inr t \<Rightarrow>
               (case view_as t [1, 784] of
                  Inl err \<Rightarrow> Inl err
                | Inr t' \<Rightarrow> Inr (s\<lparr>img := Some t', trace := trace s @ [CallIndex, CallView]\<rparr>))))"
  \<comment> \<open>\<^verbatim>\<open>with torch.no_grad(): logits = model.forward(img)\<close>\<close>
| "exec fw Predict s =
     (case model s of
        None \<Rightarrow> Inl NameError
      | Some m \<Rightarrow>
          (case img s of
             None \<Rightarrow> Inl NameError
           | Some t \<Rightarrow>
               (case forward m t of
                  Inl err \<Rightarrow> Inl err
                | Inr out \<Rightarrow>
                    Inr (s\<lparr>logits := Some \<lparr>out_value = out, out_graph = None\<rparr>,
                           trace := trace s @ [CallForward]\<rparr>))))"
  \<comment> \<open>\<^verbatim>\<open>ps = F.softmax(logits, dim=1)\<close>\<close>
| "exec fw Softmax s =
     (case logits s of
        None \<Rightarrow> Inl NameError
      | Some out \<Rightarrow>
          (case softmax 1 (out_value out) of
             Inl err \<Rightarrow> Inl err
           | Inr p \<Rightarrow> Inr (s\<lparr>ps := Some p, trace := trace s @ [CallSoftmax]\<rparr>)))"
  \<comment> \<open>\<^verbatim>\<open>helper.view_classify(img.view(1, 28, 28), ps)\<close>\<close>
| "exec fw ViewClassify s =
     (case img s of
        None \<Rightarrow> Inl NameError
      | Some t \<Rightarrow>
          (case view_as t [1, 28, 28] of
             Inl err \<Rightarrow> Inl err
           | Inr t' \<Rightarrow>
               (case ps s of
                  None \<Rightarrow> Inl NameError
                | Some p \<Rightarrow>
                    (case view_classify fw t' p of
                       Some e \<Rightarrow> Inl (FrameworkError e)
                     | None \<Rightarrow>
                         Inr (s\<lparr>stdout := stdout s @ [Figure],
                                trace := trace s @ [CallView, CallViewClassify]\<rparr>)))))"
  \<comment> \<open>\<^verbatim>\<open>import torch\<close>, \<^verbatim>\<open>from torch import nn\<close>, \<^verbatim>\<open>import helper\<close> and the like\<close>
| "exec fw (Import name) s =
     (case import_module fw name (fs s) of
        None \<Rightarrow> Inl ModuleNotFoundError
      | Some f' \<Rightarrow> Inr (s\<lparr>fs := f'\<rparr>))"

text \<open>Statements run in order; the first exception ends the run.\<close>

fun run_stmts :: "('e, 'g::monoid_add, 'r, 'f) framework \<Rightarrow> stmt list \<Rightarrow> ('g, 'r, 'f) state
    \<Rightarrow> 'e error + ('g, 'r, 'f) state" where
  "run_stmts fw [] s = Inr s"
| "run_stmts fw (c # cs) s =
     (case exec fw c s of Inl err \<Rightarrow> Inl err | Inr s' \<Rightarrow> run_stmts fw cs s')"

section \<open>The training loop, lines 689 to 711\<close>

text \<open>The body of the inner loop, lines 694 to 709.\<close>

definition training_pass :: "stmt list" where
  "training_pass = [Flatten, ZeroGrad, Forward Output, Criterion Output, Backward, Step, Accumulate]"

text \<open>The statements one epoch runs after \<^verbatim>\<open>running_loss = 0\<close> when the loader yields the
  batches \<open>chs\<close>: the body for every batch, then the \<^verbatim>\<open>else\<close> of the \<^verbatim>\<open>for\<close>, which runs
  because the loop has no \<^verbatim>\<open>break\<close>.\<close>

definition epoch_stmts :: "sample list list \<Rightarrow> stmt list" where
  "epoch_stmts chs = concat (map (\<lambda>ch. NextBatch ch # training_pass) chs) @ [PrintLoss]"

text \<open>One turn of \<^verbatim>\<open>for e in range(epochs)\<close>, lines 691 to 711.\<close>

definition epoch :: "('e, 'g::monoid_add, 'r, 'f) framework \<Rightarrow> nat \<Rightarrow> ('g, 'r, 'f) state
    \<Rightarrow> 'e error + ('g, 'r, 'f) state" where
  "epoch fw e s =
     (case exec fw ResetLoss s of
        Inl err \<Rightarrow> Inl err
      | Inr s1 \<Rightarrow>
          (case trainloader s1 of
             None \<Rightarrow> Inl NameError
           | Some ld \<Rightarrow>
               (let (chs, r') = iter_loader fw ld (rng s1)
                in run_stmts fw (epoch_stmts chs) (s1\<lparr>rng := r', trace := trace s1 @ [CallIter]\<rparr>))))"

fun for_epochs :: "('e, 'g::monoid_add, 'r, 'f) framework \<Rightarrow> nat list \<Rightarrow> ('g, 'r, 'f) state
    \<Rightarrow> 'e error + ('g, 'r, 'f) state" where
  "for_epochs fw [] s = Inr s"
| "for_epochs fw (e # es) s =
     (case epoch fw e s of Inl err \<Rightarrow> Inl err | Inr s' \<Rightarrow> for_epochs fw es s')"

definition epochs :: nat where
  "epochs = 5"

definition train :: "('e, 'g::monoid_add, 'r, 'f) framework \<Rightarrow> ('g, 'r, 'f) state
    \<Rightarrow> 'e error + ('g, 'r, 'f) state" where
  "train fw s = for_epochs fw [0..<epochs] s"

section \<open>The cells\<close>

text \<open>
  Lines 86 to 97. The transform of lines 91 to 93 is an argument of the call to
  \<^verbatim>\<open>datasets.MNIST\<close>; the samples \<open>mnist\<close> returns are the transformed ones.
\<close>

definition cell_load :: "stmt list" where
  "cell_load =
     [Import ''torch'', Import ''torch.nn'', Import ''torch.nn.functional'', Import ''torchvision'',
      LoadMNIST ''~/.pytorch/MNIST_data/'', MakeLoader 64 True]"

text \<open>Lines 128 to 148.\<close>

definition cell_cross_entropy :: "stmt list" where
  "cell_cross_entropy =
     [NewModel [NewLinear 784 128, NewReLU, NewLinear 128 64, NewReLU, NewLinear 64 10],
      SetCriterion CrossEntropyLoss, FirstBatch, Flatten, Forward Logits, Criterion Logits,
      Show ShowLoss]"

text \<open>Lines 175 to 215.\<close>

definition cell_nll :: "stmt list" where
  "cell_nll =
     [NewModel [NewLinear 784 128, NewReLU, NewLinear 128 64, NewReLU, NewLinear 64 10,
                NewLogSoftmax 1],
      SetCriterion NLLLoss, FirstBatch, Flatten, Forward Logps, Criterion Logps, Show ShowLoss]"

text \<open>The autograd demonstration, lines 261 to 418.\<close>

definition cells_autograd :: "stmt list" where
  "cells_autograd =
     [Randn [2, 2], Show ShowX, Square, Show ShowY, Show ShowGradFn, Mean, Show ShowZ,
      Show ShowXGrad, BackwardZ, Show ShowXGrad, Show ShowXHalf]"

text \<open>Lines 447 to 460.\<close>

definition cell_loss :: "stmt list" where
  "cell_loss =
     [NewModel [NewLinear 784 128, NewReLU, NewLinear 128 64, NewReLU, NewLinear 64 10,
                NewLogSoftmax 1],
      SetCriterion NLLLoss, FirstBatch, Flatten, Forward Logits, Criterion Logits]"

text \<open>Lines 498 to 502.\<close>

definition cell_backward :: "stmt list" where
  "cell_backward = [Show ShowWeightGrad, Backward, Show ShowWeightGrad]"

text \<open>Lines 524 to 527.\<close>

definition cell_optimizer :: "stmt list" where
  "cell_optimizer = [Import ''torch.optim'', SetOptimizer 0.01]"

text \<open>The single training step, lines 580 to 606 and 637 to 639.\<close>

definition cell_single_step :: "stmt list" where
  "cell_single_step =
     [Show ShowWeight, FirstBatch, Resize [64, 784], ZeroGrad, Forward Output, Criterion Output,
      Backward, Show ShowWeightGrad]"

definition cell_update :: "stmt list" where
  "cell_update = [Step, Show ShowWeight]"

text \<open>The final cell, lines 677 to 711: its configuration, lines 679 to 687, then the loop.\<close>

definition final_setup :: "stmt list" where
  "final_setup =
     [NewModel [NewLinear 784 128, NewReLU, NewLinear 128 64, NewReLU, NewLinear 64 10,
                NewLogSoftmax 1],
      SetCriterion NLLLoss, SetOptimizer 0.003]"

definition final_cell :: "('e, 'g::monoid_add, 'r, 'f) framework \<Rightarrow> ('g, 'r, 'f) state
    \<Rightarrow> 'e error + ('g, 'r, 'f) state" where
  "final_cell fw s =
     (case run_stmts fw final_setup s of Inl err \<Rightarrow> Inl err | Inr s' \<Rightarrow> train fw s')"

text \<open>Lines 746 to 758.\<close>

definition cell_predict :: "stmt list" where
  "cell_predict =
     [Import ''matplotlib'', Import ''helper'', FirstBatch, FirstImage, Predict, Softmax,
      ViewClassify]"

text \<open>The notebook: its cells from top to bottom.\<close>

definition cells_before :: "stmt list" where
  "cells_before =
     cell_load @ cell_cross_entropy @ cell_nll @ cells_autograd @ cell_loss @ cell_backward
     @ cell_optimizer @ cell_single_step @ cell_update"

definition notebook :: "('e, 'g::monoid_add, 'r, 'f) framework \<Rightarrow> ('g, 'r, 'f) state
    \<Rightarrow> 'e error + ('g, 'r, 'f) state" where
  "notebook fw s =
     (case run_stmts fw cells_before s of
        Inl err \<Rightarrow> Inl err
      | Inr s1 \<Rightarrow>
          (case final_cell fw s1 of
             Inl err \<Rightarrow> Inl err
           | Inr s2 \<Rightarrow> run_stmts fw cell_predict s2))"

section \<open>What the theorems are stated with\<close>

text \<open>
  The variables of the state, and for every statement the variables it may assign. The
  table is checked against \<open>exec\<close> by the lemma \<open>exec_frame\<close>.
\<close>

datatype field =
    Ffs | Frng | Ftrainset | Ftrainloader | Fmodel | Fmodel_id | Fgrad | Fcriterion | Foptimizer
  | Fimages | Flabels | Flogits | Flogps | Foutput | Floss | Frunning_loss
  | Fx | Fx_grad | Fy | Fz | Fimg | Fps | Fstdout | Ftrace

fun field_of :: "var \<Rightarrow> field" where
  "field_of Logits = Flogits"
| "field_of Logps = Flogps"
| "field_of Output = Foutput"

fun writes :: "stmt \<Rightarrow> field set" where
  "writes (LoadMNIST d) = {Ffs, Ftrainset, Ftrace}"
| "writes (MakeLoader n sh) = {Ftrainloader, Ftrace}"
| "writes (NewModel cs) = {Fmodel, Fmodel_id, Fgrad, Frng, Ftrace}"
| "writes (SetCriterion c) = {Fcriterion, Ftrace}"
| "writes (SetOptimizer lr) = {Foptimizer, Ftrace}"
| "writes FirstBatch = {Fimages, Flabels, Frng, Ftrace}"
| "writes Flatten = {Fimages, Ftrace}"
| "writes (Resize sh) = {Fimages, Ftrace}"
| "writes ZeroGrad = {Fgrad, Ftrace}"
| "writes (Forward v) = {field_of v, Ftrace}"
| "writes (Criterion v) = {Floss, Ftrace}"
| "writes Backward = {Fgrad, Floss, Ftrace}"
| "writes Step = {Fmodel, Ftrace}"
| "writes (Show e) = {Fstdout}"
| "writes ResetLoss = {Frunning_loss}"
| "writes (NextBatch ch) = {Fimages, Flabels, Ftrace}"
| "writes Accumulate = {Frunning_loss, Ftrace}"
| "writes PrintLoss = {Fstdout, Ftrace}"
| "writes (Randn sh) = {Fx, Fx_grad, Frng, Ftrace}"
| "writes Square = {Fy, Ftrace}"
| "writes Mean = {Fz, Ftrace}"
| "writes BackwardZ = {Fx_grad, Fz, Ftrace}"
| "writes FirstImage = {Fimg, Ftrace}"
| "writes Predict = {Flogits, Ftrace}"
| "writes Softmax = {Fps, Ftrace}"
| "writes ViewClassify = {Fstdout, Ftrace}"
| "writes (Import name) = {Ffs}"

text \<open>
  The calls of one training pass whose \<^verbatim>\<open>loss.item()\<close> is \<open>v\<close>, and the calls of one epoch
  whose batches are, in order, the samples and the \<^verbatim>\<open>loss.item()\<close> of each.
\<close>

definition pass_calls :: "real \<Rightarrow> call list" where
  "pass_calls v =
     [CallView, CallZeroGrad, CallForward, CallCriterion, CallBackward, CallStep, CallItem v]"

definition epoch_calls :: "(sample list \<times> real) list \<Rightarrow> call list" where
  "epoch_calls bs =
     CallIter # concat (map (\<lambda>b. CallNext (fst b) # pass_calls (snd b)) bs) @ [CallLen]"

text \<open>The four calls the spec's flow names.\<close>

fun core_call :: "call \<Rightarrow> bool" where
  "core_call CallForward = True"
| "core_call CallCriterion = True"
| "core_call CallBackward = True"
| "core_call CallStep = True"
| "core_call _ = False"

text \<open>
  The contract of the loader's sampler: the order of an epoch holds every sample of the
  set once.
\<close>

definition sampler_ok :: "('e, 'g, 'r, 'f) framework \<Rightarrow> bool" where
  "sampler_ok fw \<longleftrightarrow> (\<forall>r xs. mset (fst (shuffle fw r xs)) = mset xs)"

text \<open>
  A tensor of at least two dimensions is normalised along dimension 1 when the
  exponentials along it sum to one everywhere: its entries are log-probabilities.
\<close>

definition normalised :: "real tensor \<Rightarrow> bool" where
  "normalised t \<longleftrightarrow> list_all (\<lambda>k. (\<Sum>v\<leftarrow>along 1 t k. exp v) = 1) [0..<length (data t)]"

text \<open>
  What the training loop is compared with, written from the words of the claims and not from
  the cells. \<open>batch_loss fw c k m ch\<close> is the loss of the batch \<open>ch\<close> under the model
  \<open>m\<close> (number \<open>k\<close>): the criterion \<open>c\<close> of the model's output for the flattened images
  and of the labels. \<open>sgd_epoch\<close> is one epoch of stochastic gradient descent: for every batch
  in turn the loss under the current model, then the optimiser's update of that model with
  the gradient of that loss; it returns the losses of the batches and the last model.
  \<open>sgd_epochs\<close> is \<open>n\<close> such epochs over the batches a loader yields, each epoch's mean of
  its losses over \<^verbatim>\<open>len(trainloader)\<close> in a list.
\<close>

definition batch_loss :: "('e, 'g, 'r, 'f) framework \<Rightarrow> criterion \<Rightarrow> nat \<Rightarrow> layer list
    \<Rightarrow> sample list \<Rightarrow> 'e error + loss_t" where
  "batch_loss fw c k m ch =
     (case collate ch of
        Inl err \<Rightarrow> Inl err
      | Inr (im, lb) \<Rightarrow>
          (case flatten im of
             Inl err \<Rightarrow> Inl err
           | Inr im' \<Rightarrow>
               (case forward m im' of
                  Inl err \<Rightarrow> Inl err
                | Inr out \<Rightarrow>
                    (case loss_fn fw c out lb of
                       Inl e \<Rightarrow> Inl (FrameworkError e)
                     | Inr v \<Rightarrow>
                         Inr \<lparr>item = v, loss_criterion = c,
                              loss_output = \<lparr>out_value = out, out_graph = Some (k, m, im')\<rparr>,
                              loss_target = lb, graph_freed = False\<rparr>))))"

fun sgd_epoch :: "('e, 'g, 'r, 'f) framework \<Rightarrow> real \<Rightarrow> criterion \<Rightarrow> nat \<Rightarrow> layer list
    \<Rightarrow> sample list list \<Rightarrow> 'e error + (real list \<times> layer list)" where
  "sgd_epoch fw lr c k m [] = Inr ([], m)"
| "sgd_epoch fw lr c k m (ch # chs) =
     (case batch_loss fw c k m ch of
        Inl err \<Rightarrow> Inl err
      | Inr l \<Rightarrow>
          (case sgd_epoch fw lr c k (sgd_update fw lr m (autograd fw l)) chs of
             Inl err \<Rightarrow> Inl err
           | Inr (vs, m') \<Rightarrow> Inr (item l # vs, m')))"

fun sgd_epochs :: "('e, 'g, 'r, 'f) framework \<Rightarrow> real \<Rightarrow> criterion \<Rightarrow> nat \<Rightarrow> loader \<Rightarrow> nat
    \<Rightarrow> 'r \<Rightarrow> layer list \<Rightarrow> 'e error + (real list \<times> layer list \<times> 'r)" where
  "sgd_epochs fw lr c k ld 0 r m = Inr ([], m, r)"
| "sgd_epochs fw lr c k ld (Suc n) r m =
     (case sgd_epoch fw lr c k m (fst (iter_loader fw ld r)) of
        Inl err \<Rightarrow> Inl err
      | Inr (vs, m') \<Rightarrow>
          (case sgd_epochs fw lr c k ld n (snd (iter_loader fw ld r)) m' of
             Inl err \<Rightarrow> Inl err
           | Inr (qs, m'', r'') \<Rightarrow> Inr (sum_list vs / real (len_loader ld) # qs, m'', r'')))"

text \<open>
  A definite-assignment analysis of the statements, for the exceptions the interpreter itself
  raises. A fact about a state is that a name is bound, that \<^verbatim>\<open>images\<close>, if bound, has at
  least one dimension, or that \<^verbatim>\<open>len(trainloader)\<close>, if the loader is bound, is not zero.
  \<open>needs c\<close> are the facts under which \<open>c\<close> raises no exception of the interpreter,
  \<open>gives c\<close> the facts that hold after \<open>c\<close>, \<open>loses c\<close> those that \<open>c\<close> may end, and
  \<open>safe D cs\<close> checks the statements \<open>cs\<close> in order from the facts \<open>D\<close>. The lemmas
  \<open>exec_safe\<close> and \<open>exec_flow\<close> check the three tables against \<open>exec\<close>.
\<close>

datatype fact = Bound field | Shaped | Fed

fun bound :: "field \<Rightarrow> ('g, 'r, 'f) state \<Rightarrow> bool" where
  "bound Ftrainset s = (trainset s \<noteq> None)"
| "bound Ftrainloader s = (trainloader s \<noteq> None)"
| "bound Fmodel s = (model s \<noteq> None)"
| "bound Fcriterion s = (criterion s \<noteq> None)"
| "bound Foptimizer s = (optimizer s \<noteq> None)"
| "bound Fimages s = (images s \<noteq> None)"
| "bound Flabels s = (labels s \<noteq> None)"
| "bound Flogits s = (logits s \<noteq> None)"
| "bound Flogps s = (logps s \<noteq> None)"
| "bound Foutput s = (output' s \<noteq> None)"
| "bound Floss s = (loss s \<noteq> None)"
| "bound Frunning_loss s = (running_loss s \<noteq> None)"
| "bound Fx s = (var_x s \<noteq> None)"
| "bound Fy s = (var_y s \<noteq> None)"
| "bound Fz s = (var_z s \<noteq> None)"
| "bound Fimg s = (img s \<noteq> None)"
| "bound Fps s = (ps s \<noteq> None)"
| "bound _ s = True"

fun holds :: "fact \<Rightarrow> ('g, 'r, 'f) state \<Rightarrow> bool" where
  "holds (Bound f) s = bound f s"
| "holds Shaped s = (case images s of None \<Rightarrow> True | Some im \<Rightarrow> shape im \<noteq> [])"
| "holds Fed s = (case trainloader s of None \<Rightarrow> True | Some ld \<Rightarrow> len_loader ld \<noteq> 0)"







section \<open>A framework to run the notebook on\<close>

text \<open>
  The theorems hold for every framework. To show that their hypotheses can be met, and to
  run the cells on concrete inputs, this framework returns a training set of 65 black
  images with label 3, initialises every layer with zeros, reverses the order of the
  samples to shuffle them, takes the number of labels as the value of a loss and that
  value as its gradient, leaves the model as it is in an optimiser step, and finds every
  module an \<^verbatim>\<open>import\<close> names.
\<close>

definition zero_image :: "real tensor" where
  "zero_image = \<lparr>shape = [1, 28, 28], data = replicate 784 0\<rparr>"

definition zero_batch :: "nat \<Rightarrow> real tensor" where
  "zero_batch n = \<lparr>shape = [n, 1, 28, 28], data = replicate (n * 784) 0\<rparr>"

definition zero_rows :: "nat \<Rightarrow> nat \<Rightarrow> real tensor" where
  "zero_rows n m = \<lparr>shape = [n, m], data = replicate (n * m) 0\<rparr>"

definition zero_stack :: "layer list" where
  "zero_stack =
     [Linear 784 128 (replicate 128 (replicate 784 0)) (replicate 128 0), ReLU,
      Linear 128 64 (replicate 64 (replicate 128 0)) (replicate 64 0), ReLU,
      Linear 64 10 (replicate 10 (replicate 64 0)) (replicate 10 0)]"

definition demo_set :: "sample list" where
  "demo_set = replicate 65 (zero_image, 3)"

definition demo_fw :: "(unit, real, nat, nat) framework" where
  "demo_fw =
     \<lparr>mnist = (\<lambda>d f. Inr (demo_set, Suc f)),
      init_linear = (\<lambda>r n_in n_out. ((replicate n_out (replicate n_in 0), replicate n_out 0), Suc r)),
      shuffle = (\<lambda>r xs. (rev xs, Suc r)),
      uninitialised = (\<lambda>i. 0),
      loss_fn = (\<lambda>c out lb. Inr (real (length lb))),
      autograd = (\<lambda>l. item l),
      sgd_update = (\<lambda>lr m g. m),
      randn = (\<lambda>r sh. (\<lparr>shape = sh, data = replicate (prod_list sh) 0\<rparr>, Suc r)),
      square = (\<lambda>t. t),
      mean = (\<lambda>t. 0),
      grad_mean_square = (\<lambda>t. t),
      view_classify = (\<lambda>t p. None),
      import_module = (\<lambda>name f. Some f)\<rparr>"

text \<open>
  The same framework with an optimiser step that changes the model: it lowers every bias by
  the learning rate times the gradient.
\<close>

definition shift_bias :: "real \<Rightarrow> layer \<Rightarrow> layer" where
  "shift_bias d l =
     (case l of
        Linear n_in n_out W b \<Rightarrow> Linear n_in n_out W (map (\<lambda>x. x - d) b)
      | ReLU \<Rightarrow> ReLU
      | LogSoftmax k \<Rightarrow> LogSoftmax k)"

definition sgd_fw :: "(unit, real, nat, nat) framework" where
  "sgd_fw = demo_fw\<lparr>sgd_update := (\<lambda>lr m g. map (shift_bias (lr * g)) m)\<rparr>"

text \<open>The state before the first cell, and the state after the first cell on \<open>demo_fw\<close>.\<close>

definition demo_state :: "(real, nat, nat) state" where
  "demo_state =
     \<lparr>fs = 0, rng = 0, trainset = None, trainloader = None, model = None, model_id = 0,
      grad = None, criterion = None, optimizer = None, images = None, labels = None,
      logits = None, logps = None, output' = None, loss = None, running_loss = None,
      var_x = None, x_grad = None, var_y = None, var_z = None, img = None, ps = None,
      stdout = [], trace = []\<rparr>"

definition demo_loaded :: "(real, nat, nat) state" where
  "demo_loaded =
     demo_state\<lparr>fs := 1, trainset := Some demo_set,
       trainloader := Some \<lparr>dataset = demo_set, batch_size = 64, shuffled = True\<rparr>,
       trace := [CallMNIST, CallDataLoader]\<rparr>"
section \<open>Lemmas: batches\<close>

lemma ceil_div_step:
  fixes n L :: nat
  assumes "0 < n" and "0 < L"
  shows "(L + n - 1) div n = Suc ((L - n + n - 1) div n)"
proof -
  have l: "L + n - 1 = (L - 1) + n" using assms by arith
  have "(L - n + n - 1) div n = (L - 1) div n"
  proof (cases "n \<le> L")
    case True
    then have "L - n + n - 1 = L - 1" by arith
    then show ?thesis by simp
  next
    case False
    then have "L - n + n - 1 = n - 1" "L - 1 < n" "n - 1 < n" using assms by arith+
    then show ?thesis by simp
  qed
  moreover have "(L + n - 1) div n = Suc ((L - 1) div n)"
    unfolding l using assms(1) by simp
  ultimately show ?thesis by simp
qed

lemma concat_chunks: "0 < n \<Longrightarrow> concat (chunks n xs) = xs"
  by (induction n xs rule: chunks.induct) auto

lemma length_chunks: "0 < n \<Longrightarrow> length (chunks n xs) = (length xs + n - 1) div n"
proof (induction n xs rule: chunks.induct)
  case (1 n)
  then show ?case by simp
next
  case (2 n x xs)
  from 2 have IH: "length (chunks n (drop n (x # xs))) = (Suc (length xs) - n + n - 1) div n"
    by simp
  have "(Suc (length xs) + n - 1) div n = Suc ((Suc (length xs) - n + n - 1) div n)"
    by (rule ceil_div_step) (use 2 in simp_all)
  with IH 2(2) show ?case by simp
qed

lemma chunks_nonempty: "ch \<in> set (chunks n xs) \<Longrightarrow> ch \<noteq> [] \<and> length ch \<le> n"
  by (induction n xs rule: chunks.induct) (auto split: if_splits)

lemma chunks_first: "0 < n \<Longrightarrow> xs \<noteq> [] \<Longrightarrow> \<exists>rest. chunks n xs = take n xs # rest"
  by (cases xs) auto

section \<open>Lemmas about statements\<close>

lemma set_var_fields [simp]:
  "trace (set_var v out s) = trace s" "running_loss (set_var v out s) = running_loss s"
  "stdout (set_var v out s) = stdout s" "trainloader (set_var v out s) = trainloader s"
  "rng (set_var v out s) = rng s" "fs (set_var v out s) = fs s"
  "criterion (set_var v out s) = criterion s" "optimizer (set_var v out s) = optimizer s"
  "model_id (set_var v out s) = model_id s" "model (set_var v out s) = model s"
  "grad (set_var v out s) = grad s" "labels (set_var v out s) = labels s"
  "images (set_var v out s) = images s" "loss (set_var v out s) = loss s"
  "trainset (set_var v out s) = trainset s"
  "get_var v (set_var v out s) = Some out"
  by (cases v; simp add: set_var_def get_var_def)+

lemma exec_frame:
  assumes "exec fw c s = Inr s'"
  shows "(Ffs \<in> writes c \<or> fs s' = fs s)
       \<and> (Frng \<in> writes c \<or> rng s' = rng s)
       \<and> (Ftrainset \<in> writes c \<or> trainset s' = trainset s)
       \<and> (Ftrainloader \<in> writes c \<or> trainloader s' = trainloader s)
       \<and> (Fmodel \<in> writes c \<or> model s' = model s)
       \<and> (Fmodel_id \<in> writes c \<or> model_id s' = model_id s)
       \<and> (Fgrad \<in> writes c \<or> grad s' = grad s)
       \<and> (Fcriterion \<in> writes c \<or> criterion s' = criterion s)
       \<and> (Foptimizer \<in> writes c \<or> optimizer s' = optimizer s)
       \<and> (Frunning_loss \<in> writes c \<or> running_loss s' = running_loss s)
       \<and> (Fstdout \<in> writes c \<or> stdout s' = stdout s)
       \<and> (Ftrace \<in> writes c \<or> trace s' = trace s)"
  using assms
  by (cases c) (auto split: option.splits sum.splits prod.splits optimizer.splits if_splits list.splits)

lemma run_stmts_fs:
  "run_stmts fw cs s = Inr s' \<Longrightarrow> \<forall>c\<in>set cs. Ffs \<notin> writes c \<Longrightarrow> fs s' = fs s"
proof (induction cs arbitrary: s)
  case Nil
  then show ?case by simp
next
  case (Cons c cs)
  from Cons.prems(1) obtain s1 where 1: "exec fw c s = Inr s1" and 2: "run_stmts fw cs s1 = Inr s'"
    by (auto split: sum.splits)
  from exec_frame[OF 1] Cons.prems(2) have "fs s1 = fs s" by simp
  moreover from Cons.IH[OF 2] Cons.prems(2) have "fs s' = fs s1" by simp
  ultimately show ?case by simp
qed

lemma run_stmts_rng:
  "run_stmts fw cs s = Inr s' \<Longrightarrow> \<forall>c\<in>set cs. Frng \<notin> writes c \<Longrightarrow> rng s' = rng s"
proof (induction cs arbitrary: s)
  case Nil
  then show ?case by simp
next
  case (Cons c cs)
  from Cons.prems(1) obtain s1 where 1: "exec fw c s = Inr s1" and 2: "run_stmts fw cs s1 = Inr s'"
    by (auto split: sum.splits)
  from exec_frame[OF 1] Cons.prems(2) have "rng s1 = rng s" by simp
  moreover from Cons.IH[OF 2] Cons.prems(2) have "rng s' = rng s1" by simp
  ultimately show ?case by simp
qed

lemma run_stmts_trainset:
  "run_stmts fw cs s = Inr s' \<Longrightarrow> \<forall>c\<in>set cs. Ftrainset \<notin> writes c \<Longrightarrow> trainset s' = trainset s"
proof (induction cs arbitrary: s)
  case Nil
  then show ?case by simp
next
  case (Cons c cs)
  from Cons.prems(1) obtain s1 where 1: "exec fw c s = Inr s1" and 2: "run_stmts fw cs s1 = Inr s'"
    by (auto split: sum.splits)
  from exec_frame[OF 1] Cons.prems(2) have "trainset s1 = trainset s" by simp
  moreover from Cons.IH[OF 2] Cons.prems(2) have "trainset s' = trainset s1" by simp
  ultimately show ?case by simp
qed

lemma run_stmts_trainloader:
  "run_stmts fw cs s = Inr s' \<Longrightarrow> \<forall>c\<in>set cs. Ftrainloader \<notin> writes c \<Longrightarrow> trainloader s' = trainloader s"
proof (induction cs arbitrary: s)
  case Nil
  then show ?case by simp
next
  case (Cons c cs)
  from Cons.prems(1) obtain s1 where 1: "exec fw c s = Inr s1" and 2: "run_stmts fw cs s1 = Inr s'"
    by (auto split: sum.splits)
  from exec_frame[OF 1] Cons.prems(2) have "trainloader s1 = trainloader s" by simp
  moreover from Cons.IH[OF 2] Cons.prems(2) have "trainloader s' = trainloader s1" by simp
  ultimately show ?case by simp
qed

lemma run_stmts_model:
  "run_stmts fw cs s = Inr s' \<Longrightarrow> \<forall>c\<in>set cs. Fmodel \<notin> writes c \<Longrightarrow> model s' = model s"
proof (induction cs arbitrary: s)
  case Nil
  then show ?case by simp
next
  case (Cons c cs)
  from Cons.prems(1) obtain s1 where 1: "exec fw c s = Inr s1" and 2: "run_stmts fw cs s1 = Inr s'"
    by (auto split: sum.splits)
  from exec_frame[OF 1] Cons.prems(2) have "model s1 = model s" by simp
  moreover from Cons.IH[OF 2] Cons.prems(2) have "model s' = model s1" by simp
  ultimately show ?case by simp
qed

lemma run_stmts_model_id:
  "run_stmts fw cs s = Inr s' \<Longrightarrow> \<forall>c\<in>set cs. Fmodel_id \<notin> writes c \<Longrightarrow> model_id s' = model_id s"
proof (induction cs arbitrary: s)
  case Nil
  then show ?case by simp
next
  case (Cons c cs)
  from Cons.prems(1) obtain s1 where 1: "exec fw c s = Inr s1" and 2: "run_stmts fw cs s1 = Inr s'"
    by (auto split: sum.splits)
  from exec_frame[OF 1] Cons.prems(2) have "model_id s1 = model_id s" by simp
  moreover from Cons.IH[OF 2] Cons.prems(2) have "model_id s' = model_id s1" by simp
  ultimately show ?case by simp
qed

lemma run_stmts_grad:
  "run_stmts fw cs s = Inr s' \<Longrightarrow> \<forall>c\<in>set cs. Fgrad \<notin> writes c \<Longrightarrow> grad s' = grad s"
proof (induction cs arbitrary: s)
  case Nil
  then show ?case by simp
next
  case (Cons c cs)
  from Cons.prems(1) obtain s1 where 1: "exec fw c s = Inr s1" and 2: "run_stmts fw cs s1 = Inr s'"
    by (auto split: sum.splits)
  from exec_frame[OF 1] Cons.prems(2) have "grad s1 = grad s" by simp
  moreover from Cons.IH[OF 2] Cons.prems(2) have "grad s' = grad s1" by simp
  ultimately show ?case by simp
qed

lemma run_stmts_criterion:
  "run_stmts fw cs s = Inr s' \<Longrightarrow> \<forall>c\<in>set cs. Fcriterion \<notin> writes c \<Longrightarrow> criterion s' = criterion s"
proof (induction cs arbitrary: s)
  case Nil
  then show ?case by simp
next
  case (Cons c cs)
  from Cons.prems(1) obtain s1 where 1: "exec fw c s = Inr s1" and 2: "run_stmts fw cs s1 = Inr s'"
    by (auto split: sum.splits)
  from exec_frame[OF 1] Cons.prems(2) have "criterion s1 = criterion s" by simp
  moreover from Cons.IH[OF 2] Cons.prems(2) have "criterion s' = criterion s1" by simp
  ultimately show ?case by simp
qed

lemma run_stmts_optimizer:
  "run_stmts fw cs s = Inr s' \<Longrightarrow> \<forall>c\<in>set cs. Foptimizer \<notin> writes c \<Longrightarrow> optimizer s' = optimizer s"
proof (induction cs arbitrary: s)
  case Nil
  then show ?case by simp
next
  case (Cons c cs)
  from Cons.prems(1) obtain s1 where 1: "exec fw c s = Inr s1" and 2: "run_stmts fw cs s1 = Inr s'"
    by (auto split: sum.splits)
  from exec_frame[OF 1] Cons.prems(2) have "optimizer s1 = optimizer s" by simp
  moreover from Cons.IH[OF 2] Cons.prems(2) have "optimizer s' = optimizer s1" by simp
  ultimately show ?case by simp
qed

lemma run_stmts_running_loss:
  "run_stmts fw cs s = Inr s' \<Longrightarrow> \<forall>c\<in>set cs. Frunning_loss \<notin> writes c \<Longrightarrow> running_loss s' = running_loss s"
proof (induction cs arbitrary: s)
  case Nil
  then show ?case by simp
next
  case (Cons c cs)
  from Cons.prems(1) obtain s1 where 1: "exec fw c s = Inr s1" and 2: "run_stmts fw cs s1 = Inr s'"
    by (auto split: sum.splits)
  from exec_frame[OF 1] Cons.prems(2) have "running_loss s1 = running_loss s" by simp
  moreover from Cons.IH[OF 2] Cons.prems(2) have "running_loss s' = running_loss s1" by simp
  ultimately show ?case by simp
qed

lemma run_stmts_stdout:
  "run_stmts fw cs s = Inr s' \<Longrightarrow> \<forall>c\<in>set cs. Fstdout \<notin> writes c \<Longrightarrow> stdout s' = stdout s"
proof (induction cs arbitrary: s)
  case Nil
  then show ?case by simp
next
  case (Cons c cs)
  from Cons.prems(1) obtain s1 where 1: "exec fw c s = Inr s1" and 2: "run_stmts fw cs s1 = Inr s'"
    by (auto split: sum.splits)
  from exec_frame[OF 1] Cons.prems(2) have "stdout s1 = stdout s" by simp
  moreover from Cons.IH[OF 2] Cons.prems(2) have "stdout s' = stdout s1" by simp
  ultimately show ?case by simp
qed

lemma run_stmts_append:
  "run_stmts fw (cs @ ds) s =
     (case run_stmts fw cs s of Inl err \<Rightarrow> Inl err | Inr s' \<Rightarrow> run_stmts fw ds s')"
  by (induction cs arbitrary: s) (auto split: sum.splits)

lemma run_stmts_Cons_Inr:
  "run_stmts fw (c # cs) s = Inr s' \<longleftrightarrow> (\<exists>s1. exec fw c s = Inr s1 \<and> run_stmts fw cs s1 = Inr s')"
  by (auto split: sum.splits)

lemma run_stmts_append_Inr:
  "run_stmts fw (cs @ ds) s = Inr s' \<longleftrightarrow> (\<exists>s1. run_stmts fw cs s = Inr s1 \<and> run_stmts fw ds s1 = Inr s')"
  by (auto simp: run_stmts_append split: sum.splits)

lemma exec_trace:
  "exec fw Flatten s = Inr s' \<Longrightarrow> trace s' = trace s @ [CallView]"
  "exec fw ZeroGrad s = Inr s' \<Longrightarrow> trace s' = trace s @ [CallZeroGrad]"
  "exec fw (Forward v) s = Inr s' \<Longrightarrow> trace s' = trace s @ [CallForward]"
  "exec fw (Criterion v) s = Inr s' \<Longrightarrow> trace s' = trace s @ [CallCriterion]"
  "exec fw Backward s = Inr s' \<Longrightarrow> trace s' = trace s @ [CallBackward]"
  "exec fw Step s = Inr s' \<Longrightarrow> trace s' = trace s @ [CallStep]"
  "exec fw (NextBatch ch) s = Inr s' \<Longrightarrow> trace s' = trace s @ [CallNext ch]"
  by (auto split: option.splits sum.splits prod.splits optimizer.splits if_splits)

lemma exec_Accumulate:
  assumes "exec fw Accumulate s = Inr s'"
  shows "\<exists>r v. running_loss s = Some r \<and> running_loss s' = Some (r + v)
          \<and> trace s' = trace s @ [CallItem v]"
  using assms by (auto split: option.splits)

lemma exec_PrintLoss:
  assumes "exec fw PrintLoss s = Inr s'"
  shows "\<exists>r ld. running_loss s = Some r \<and> trainloader s = Some ld \<and> len_loader ld \<noteq> 0
       \<and> stdout s' = stdout s @ [TrainingLoss (r / real (len_loader ld))]
       \<and> trace s' = trace s @ [CallLen]"
  using assms by (auto split: option.splits if_splits)

section \<open>The calls and the printed losses of the loop\<close>

lemma pass_trace:
  assumes "run_stmts fw training_pass s = Inr s'"
  shows "\<exists>r v. running_loss s = Some r \<and> running_loss s' = Some (r + v)
           \<and> trace s' = trace s @ pass_calls v"
proof -
  from assms obtain s1 s2 s3 s4 s5 s6 where
    e1: "exec fw Flatten s = Inr s1" and e2: "exec fw ZeroGrad s1 = Inr s2"
    and e3: "exec fw (Forward Output) s2 = Inr s3" and e4: "exec fw (Criterion Output) s3 = Inr s4"
    and e5: "exec fw Backward s4 = Inr s5" and e6: "exec fw Step s5 = Inr s6"
    and e7: "exec fw Accumulate s6 = Inr s'"
    unfolding training_pass_def run_stmts_Cons_Inr run_stmts.simps(1) by blast
  have pre: "run_stmts fw [Flatten, ZeroGrad, Forward Output, Criterion Output, Backward, Step] s = Inr s6"
    using e1 e2 e3 e4 e5 e6 by simp
  have rl: "running_loss s6 = running_loss s"
    by (rule run_stmts_running_loss[OF pre]) simp
  from exec_Accumulate[OF e7] obtain r v where a: "running_loss s6 = Some r"
    "running_loss s' = Some (r + v)" "trace s' = trace s6 @ [CallItem v]"
    by blast
  have "trace s6 = trace s @ [CallView, CallZeroGrad, CallForward, CallCriterion, CallBackward, CallStep]"
    using exec_trace(1)[OF e1] exec_trace(2)[OF e2] exec_trace(3)[OF e3] exec_trace(4)[OF e4]
      exec_trace(5)[OF e5] exec_trace(6)[OF e6] by simp
  with a rl show ?thesis by (simp add: pass_calls_def)
qed

lemma batches_trace:
  assumes "run_stmts fw (concat (map (\<lambda>ch. NextBatch ch # training_pass) chs)) s = Inr s'"
    and "running_loss s = Some r"
  shows "\<exists>vs. length vs = length chs
           \<and> trace s' = trace s @ concat (map (\<lambda>b. CallNext (fst b) # pass_calls (snd b)) (zip chs vs))
           \<and> running_loss s' = Some (r + sum_list vs)"
  using assms
proof (induction chs arbitrary: s r)
  case Nil
  then show ?case by simp
next
  case (Cons ch chs)
  from Cons.prems(1) obtain s1 s2 where 1: "exec fw (NextBatch ch) s = Inr s1"
    and 2: "run_stmts fw training_pass s1 = Inr s2"
    and 3: "run_stmts fw (concat (map (\<lambda>ch. NextBatch ch # training_pass) chs)) s2 = Inr s'"
    unfolding list.map concat.simps append_Cons run_stmts_Cons_Inr run_stmts_append_Inr by blast
  from exec_frame[OF 1] Cons.prems(2) have r1: "running_loss s1 = Some r" by simp
  from pass_trace[OF 2] r1 obtain v where v: "running_loss s2 = Some (r + v)"
    "trace s2 = trace s1 @ pass_calls v" by auto
  from Cons.IH[OF 3 v(1)] obtain vs where vs: "length vs = length chs"
    "trace s' = trace s2 @ concat (map (\<lambda>b. CallNext (fst b) # pass_calls (snd b)) (zip chs vs))"
    "running_loss s' = Some (r + v + sum_list vs)"
    by auto
  show ?case
    by (rule exI[of _ "v # vs"]) (use v vs exec_trace(7)[OF 1] in \<open>simp add: add.assoc\<close>)
qed

lemma epoch_stmts_frame:
  "\<forall>c\<in>set (epoch_stmts chs). Ffs \<notin> writes c \<and> Frng \<notin> writes c \<and> Ftrainset \<notin> writes c
      \<and> Ftrainloader \<notin> writes c \<and> Fmodel_id \<notin> writes c \<and> Fcriterion \<notin> writes c
      \<and> Foptimizer \<notin> writes c"
  by (auto simp: epoch_stmts_def training_pass_def)

lemma epoch_effect:
  assumes "epoch fw e s = Inr s'" and "trainloader s = Some ld"
  shows "\<exists>vs. length vs = length (fst (iter_loader fw ld (rng s)))
           \<and> trace s' = trace s @ epoch_calls (zip (fst (iter_loader fw ld (rng s))) vs)
           \<and> stdout s' = stdout s @ [TrainingLoss (sum_list vs / real (len_loader ld))]
           \<and> len_loader ld \<noteq> 0
           \<and> rng s' = snd (iter_loader fw ld (rng s))
           \<and> trainloader s' = trainloader s \<and> fs s' = fs s
           \<and> criterion s' = criterion s \<and> optimizer s' = optimizer s \<and> model_id s' = model_id s"
proof -
  obtain chs r' where it: "iter_loader fw ld (rng s) = (chs, r')" by (cases "iter_loader fw ld (rng s)")
  define s1 where "s1 = s\<lparr>running_loss := Some 0, rng := r', trace := trace s @ [CallIter]\<rparr>"
  from assms it have run: "run_stmts fw (epoch_stmts chs) s1 = Inr s'"
    by (simp add: epoch_def s1_def)
  then obtain s2 where 1: "run_stmts fw (concat (map (\<lambda>ch. NextBatch ch # training_pass) chs)) s1 = Inr s2"
    and 2: "exec fw PrintLoss s2 = Inr s'"
    unfolding epoch_stmts_def run_stmts_append_Inr run_stmts_Cons_Inr run_stmts.simps(1) by blast
  have rl: "running_loss s1 = Some 0" by (simp add: s1_def)
  from batches_trace[OF 1 rl] obtain vs where vs: "length vs = length chs"
    "trace s2 = trace s1 @ concat (map (\<lambda>b. CallNext (fst b) # pass_calls (snd b)) (zip chs vs))"
    "running_loss s2 = Some (0 + sum_list vs)"
    by auto
  note fr = epoch_stmts_frame[of chs]
  have f: "trainloader s' = trainloader s1" "fs s' = fs s1" "rng s' = rng s1"
    "criterion s' = criterion s1" "optimizer s' = optimizer s1" "model_id s' = model_id s1"
    using run_stmts_trainloader[OF run] run_stmts_fs[OF run] run_stmts_rng[OF run]
      run_stmts_criterion[OF run] run_stmts_optimizer[OF run] run_stmts_model_id[OF run] fr
    by simp_all
  have tl2: "trainloader s2 = Some ld"
  proof -
    have "trainloader s2 = trainloader s1"
      by (rule run_stmts_trainloader[OF 1]) (auto simp: training_pass_def)
    then show ?thesis using assms(2) by (simp add: s1_def)
  qed
  from exec_PrintLoss[OF 2] vs(3) tl2 have p: "len_loader ld \<noteq> 0"
    "stdout s' = stdout s2 @ [TrainingLoss (sum_list vs / real (len_loader ld))]"
    "trace s' = trace s2 @ [CallLen]"
    by auto
  have so: "stdout s2 = stdout s1"
    by (rule run_stmts_stdout[OF 1]) (auto simp: training_pass_def)
  show ?thesis
    by (rule exI[of _ vs]) (use vs p it f so in \<open>simp add: s1_def epoch_calls_def\<close>)
qed

lemma epoch_trainloader: "epoch fw e s = Inr s' \<Longrightarrow> \<exists>ld. trainloader s = Some ld"
  by (auto simp: epoch_def split: option.splits)

lemma for_epochs_effect:
  assumes "for_epochs fw es s = Inr s'" and "trainloader s = Some ld"
  shows "\<exists>bss. length bss = length es
           \<and> trace s' = trace s @ concat (map epoch_calls bss)
           \<and> stdout s' = stdout s @ map (\<lambda>bs. TrainingLoss (sum_list (map snd bs) / real (len_loader ld))) bss
           \<and> list_all (\<lambda>bs. \<exists>r. map fst bs = fst (iter_loader fw ld r)) bss
           \<and> (es \<noteq> [] \<longrightarrow> len_loader ld \<noteq> 0)
           \<and> trainloader s' = trainloader s \<and> fs s' = fs s
           \<and> criterion s' = criterion s \<and> optimizer s' = optimizer s \<and> model_id s' = model_id s"
  using assms
proof (induction es arbitrary: s)
  case Nil
  then show ?case by simp
next
  case (Cons e es)
  from Cons.prems(1) obtain s1 where 1: "epoch fw e s = Inr s1" and 2: "for_epochs fw es s1 = Inr s'"
    by (auto split: sum.splits)
  from epoch_effect[OF 1 Cons.prems(2)] obtain vs where vs:
    "length vs = length (fst (iter_loader fw ld (rng s)))"
    "trace s1 = trace s @ epoch_calls (zip (fst (iter_loader fw ld (rng s))) vs)"
    "stdout s1 = stdout s @ [TrainingLoss (sum_list vs / real (len_loader ld))]"
    "len_loader ld \<noteq> 0"
    "trainloader s1 = trainloader s" "fs s1 = fs s"
    "criterion s1 = criterion s" "optimizer s1 = optimizer s" "model_id s1 = model_id s"
    by blast
  have tl: "trainloader s1 = Some ld" using vs(5) Cons.prems(2) by simp
  from Cons.IH[OF 2 tl] obtain bss where bss: "length bss = length es"
    "trace s' = trace s1 @ concat (map epoch_calls bss)"
    "stdout s' = stdout s1 @ map (\<lambda>bs. TrainingLoss (sum_list (map snd bs) / real (len_loader ld))) bss"
    "list_all (\<lambda>bs. \<exists>r. map fst bs = fst (iter_loader fw ld r)) bss"
    "trainloader s' = trainloader s1" "fs s' = fs s1"
    "criterion s' = criterion s1" "optimizer s' = optimizer s1" "model_id s' = model_id s1"
    by blast
  let ?bs = "zip (fst (iter_loader fw ld (rng s))) vs"
  have z: "map fst ?bs = fst (iter_loader fw ld (rng s))" "map snd ?bs = vs"
    using vs(1) by simp_all
  have "\<exists>r. map fst ?bs = fst (iter_loader fw ld r)" using z(1) by blast
  then show ?case
    by (intro exI[of _ "?bs # bss"]) (use vs bss z(2) in simp)
qed

lemma core_epoch_calls:
  "filter core_call (epoch_calls bs)
     = concat (replicate (length bs) [CallForward, CallCriterion, CallBackward, CallStep])"
  by (induction bs) (simp_all add: epoch_calls_def pass_calls_def)

lemma core_epochs_calls:
  "filter core_call (concat (map epoch_calls bss))
     = concat (replicate (length (concat bss)) [CallForward, CallCriterion, CallBackward, CallStep])"
  by (induction bss) (simp_all add: core_epoch_calls replicate_add)

lemma iter_loader_cover:
  assumes "sampler_ok fw" and "0 < batch_size ld"
  shows "mset (concat (fst (iter_loader fw ld r))) = mset (dataset ld)
       \<and> length (fst (iter_loader fw ld r)) = len_loader ld"
proof -
  define order where "order = (if shuffled ld then fst (shuffle fw r (dataset ld)) else dataset ld)"
  have c: "fst (iter_loader fw ld r) = chunks (batch_size ld) order"
    by (simp add: iter_loader_def order_def split: prod.splits)
  have m: "mset order = mset (dataset ld)"
    using assms(1) by (simp add: order_def sampler_ok_def)
  then have "length order = length (dataset ld)" by (rule mset_eq_length)
  then show ?thesis
    using assms(2) m by (simp add: c concat_chunks length_chunks len_loader_def)
qed

lemma len_loader_batch_size: "len_loader ld \<noteq> 0 \<Longrightarrow> 0 < batch_size ld \<and> dataset ld \<noteq> []"
  by (cases "batch_size ld = 0") (auto simp: len_loader_def)

section \<open>Lemmas: the zero-initialised model and the example framework\<close>

lemma concat_replicate_replicate: "concat (replicate m (replicate n x)) = replicate (m * n) x"
  by (induction m) (simp_all add: replicate_add)

lemma linear_layer_zero:
  assumes "wf_tensor x" and "shape x = [B, n_in]"
  shows "linear_layer n_in n_out (replicate n_out (replicate n_in 0)) (replicate n_out 0) x
           = Inr \<lparr>shape = [B, n_out], data = replicate (B * n_out) 0\<rparr>"
proof -
  have inner: "(\<Sum>i\<leftarrow>[0..<n_in]. replicate n_in (0::real) ! i * data x ! (r * n_in + i)) = 0" for r
  proof -
    have "map (\<lambda>i. replicate n_in (0::real) ! i * data x ! (r * n_in + i)) [0..<n_in]
        = map (\<lambda>i. 0) [0..<n_in]"
      by (rule map_cong[OF refl]) simp
    then show ?thesis by (simp add: map_replicate_const sum_list_replicate)
  qed
  have "map (\<lambda>j. (\<Sum>i\<leftarrow>[0..<n_in]. replicate n_out (replicate n_in (0::real)) ! j ! i * data x ! (r * n_in + i))
               + replicate n_out 0 ! j) [0..<n_out] = replicate n_out 0" for r
  proof -
    have "map (\<lambda>j. (\<Sum>i\<leftarrow>[0..<n_in]. replicate n_out (replicate n_in (0::real)) ! j ! i * data x ! (r * n_in + i))
               + replicate n_out 0 ! j) [0..<n_out] = map (\<lambda>j. 0) [0..<n_out]"
      by (rule map_cong[OF refl]) (simp add: inner)
    then show ?thesis by (simp add: map_replicate_const sum_list_replicate)
  qed
  then show ?thesis
    using assms by (simp add: linear_layer_def list_all_iff map_replicate_const concat_replicate_replicate)
qed

lemma relu_zero: "relu \<lparr>shape = sh, data = replicate n 0\<rparr> = \<lparr>shape = sh, data = replicate n 0\<rparr>"
  by (simp add: relu_def)

lemma along_rows: "shape x = [B, n] \<Longrightarrow> along 1 x k = map (\<lambda>j. data x ! (k div n * n + j)) [0..<n]"
  by (simp add: along_def)

lemma row_index: "k < B * n \<Longrightarrow> j < n \<Longrightarrow> k div n * n + j < B * n" for k B n j :: nat
proof -
  assume a: "k < B * n" "j < n"
  then have "k div n < B" by (simp add: less_mult_imp_div_less)
  then have "Suc (k div n) \<le> B" by simp
  then have "Suc (k div n) * n \<le> B * n" by (rule mult_le_mono1)
  with a(2) show ?thesis by simp
qed

lemma log_softmax_zero:
  assumes "0 < n"
  shows "log_softmax 1 \<lparr>shape = [B, n], data = replicate (B * n) 0\<rparr>
           = Inr \<lparr>shape = [B, n], data = replicate (B * n) (- ln (real n))\<rparr>"
proof -
  let ?x = "\<lparr>shape = [B, n], data = replicate (B * n) (0::real)\<rparr>"
  have "(\<Sum>v\<leftarrow>along 1 ?x k. exp v) = real n" if "k < B * n" for k
  proof -
    have "along 1 ?x k = map (\<lambda>j. data ?x ! (k div n * n + j)) [0..<n]"
      by (rule along_rows) simp
    also have "\<dots> = map (\<lambda>j. 0) [0..<n]"
      by (rule map_cong[OF refl]) (use that row_index in simp)
    finally show ?thesis by (simp add: map_replicate_const sum_list_replicate)
  qed
  then have "map (\<lambda>k. data ?x ! k - ln (\<Sum>v\<leftarrow>along 1 ?x k. exp v)) [0..<B * n]
      = map (\<lambda>k. - ln (real n)) [0..<B * n]"
    by (intro map_cong) simp_all
  then show ?thesis
    by (simp add: log_softmax_def wf_tensor_def map_replicate_const)
qed

lemma demo_fw_simps [simp]:
  "mnist demo_fw d f = Inr (demo_set, Suc f)"
  "init_linear demo_fw r n_in n_out = ((replicate n_out (replicate n_in 0), replicate n_out 0), Suc r)"
  "shuffle demo_fw r xs = (rev xs, Suc r)"
  "uninitialised demo_fw i = 0"
  "loss_fn demo_fw c out lb = Inr (real (length lb))"
  "autograd demo_fw l = item l"
  "sgd_update demo_fw lr m g = m"
  "randn demo_fw r sh = (\<lparr>shape = sh, data = replicate (prod_list sh) 0\<rparr>, Suc r)"
  "square demo_fw t = t"
  "mean demo_fw t = 0"
  "grad_mean_square demo_fw t = t"
  "view_classify demo_fw t p = None"
  "import_module demo_fw name f = Some f"
  by (simp_all add: demo_fw_def)

lemma chunks_unfold: "0 < n \<Longrightarrow> xs \<noteq> [] \<Longrightarrow> chunks n xs = take n xs # chunks n (drop n xs)"
  by (cases xs) simp_all

lemma chunks_demo_set: "chunks 64 (rev demo_set) = [replicate 64 (zero_image, 3), [(zero_image, 3)]]"
proof -
  have "chunks 64 (replicate 65 (zero_image, 3::nat))
      = take 64 (replicate 65 (zero_image, 3)) # chunks 64 (drop 64 (replicate 65 (zero_image, 3)))"
    by (rule chunks_unfold) simp_all
  then show ?thesis by (simp add: demo_set_def)
qed

lemma collate_replicate:
  "0 < n \<Longrightarrow> collate (replicate n (zero_image, lb)) = Inr (zero_batch n, replicate n lb)"
proof -
  assume "0 < n"
  then obtain m where n: "n = Suc m" by (cases n) auto
  have d: "replicate 784 (0::real) @ replicate (m * 784) 0 = replicate (784 + m * 784) 0"
    by (simp add: replicate_add)
  show ?thesis
    unfolding n
    by (simp add: collate_def zero_batch_def zero_image_def list_all_iff concat_replicate_replicate
        map_replicate_const d)
qed

lemma collate_single: "collate [(zero_image, lb)] = Inr (zero_batch 1, [lb])"
  using collate_replicate[of 1 lb] by simp

lemma flatten_zero_batch: "0 < n \<Longrightarrow> flatten (zero_batch n) = Inr (zero_rows n 784)"
  by (simp add: flatten_def view_rows_def zero_batch_def zero_rows_def)

lemma forward_zero_stack: "forward zero_stack (zero_rows n 784) = Inr (zero_rows n 10)"
  by (simp add: zero_stack_def linear_layer_zero[of _ n] relu_zero wf_tensor_def zero_rows_def)

lemma forward_snoc_log_softmax:
  "forward (ls @ [LogSoftmax d]) t
     = (case forward ls t of Inl err \<Rightarrow> Inl err | Inr u \<Rightarrow> log_softmax d u)"
proof (induction ls arbitrary: t)
  case Nil
  then show ?case by (simp split: sum.splits)
next
  case (Cons l ls)
  then show ?case by (cases l) (simp_all split: sum.splits)
qed

lemma forward_zero_model:
  "forward (zero_stack @ [LogSoftmax 1]) (zero_rows n 784)
     = Inr \<lparr>shape = [n, 10], data = replicate (n * 10) (- ln 10)\<rparr>"
  unfolding forward_snoc_log_softmax forward_zero_stack
  using log_softmax_zero[of 10 n] by (simp add: zero_rows_def)

lemma build_demo:
  "build demo_fw [NewLinear 784 128, NewReLU, NewLinear 128 64, NewReLU, NewLinear 64 10,
                  NewLogSoftmax 1] r = (zero_stack @ [LogSoftmax 1], Suc (Suc (Suc r)))"
  "build demo_fw [NewLinear 784 128, NewReLU, NewLinear 128 64, NewReLU, NewLinear 64 10] r
     = (zero_stack, Suc (Suc (Suc r)))"
  by (simp_all add: zero_stack_def)

lemma exec_NewModel_demo:
  "exec demo_fw (NewModel [NewLinear 784 128, NewReLU, NewLinear 128 64, NewReLU, NewLinear 64 10,
                  NewLogSoftmax 1]) s
     = Inr (s\<lparr>model := Some (zero_stack @ [LogSoftmax 1]), model_id := Suc (model_id s), grad := None,
              rng := Suc (Suc (Suc (rng s))), trace := trace s @ [CallSequential]\<rparr>)"
  "exec demo_fw (NewModel [NewLinear 784 128, NewReLU, NewLinear 128 64, NewReLU, NewLinear 64 10]) s
     = Inr (s\<lparr>model := Some zero_stack, model_id := Suc (model_id s), grad := None,
              rng := Suc (Suc (Suc (rng s))), trace := trace s @ [CallSequential]\<rparr>)"
  by (simp_all only: exec.simps build_demo prod.case Let_def)

lemmas demo_eval =
  exec_NewModel_demo iter_loader_def chunks_demo_set collate_replicate collate_single
  flatten_zero_batch forward_zero_model forward_zero_stack set_var_def get_var_def

lemma length_demo_set [simp]: "length demo_set = 65"
  by (simp add: demo_set_def)

lemma softmax_const:
  assumes "0 < n"
  shows "softmax 1 \<lparr>shape = [B, n], data = replicate (B * n) c\<rparr>
           = Inr \<lparr>shape = [B, n], data = replicate (B * n) (1 / real n)\<rparr>"
proof -
  let ?x = "\<lparr>shape = [B, n], data = replicate (B * n) c\<rparr>"
  have "(\<Sum>v\<leftarrow>along 1 ?x k. exp v) = real n * exp c" if "k < B * n" for k
  proof -
    have "along 1 ?x k = map (\<lambda>j. data ?x ! (k div n * n + j)) [0..<n]"
      by (rule along_rows) simp
    also have "\<dots> = map (\<lambda>j. c) [0..<n]"
      by (rule map_cong[OF refl]) (use that row_index in simp)
    finally show ?thesis by (simp add: map_replicate_const sum_list_replicate)
  qed
  then have "map (\<lambda>k. exp (data ?x ! k) / (\<Sum>v\<leftarrow>along 1 ?x k. exp v)) [0..<B * n]
      = map (\<lambda>k. 1 / real n) [0..<B * n]"
    using assms by (intro map_cong) simp_all
  then show ?thesis
    by (simp add: softmax_def wf_tensor_def map_replicate_const)
qed

lemma first_slice_zero_batch: "0 < n \<Longrightarrow> first_slice (zero_batch n) = Inr zero_image"
  by (simp add: first_slice_def zero_batch_def zero_image_def min_def)

lemma view_as_zero:
  "view_as zero_image [1, 784] = Inr (zero_rows 1 784)"
  "view_as (zero_rows 1 784) [1, 28, 28] = Inr zero_image"
  by (simp_all add: view_as_def zero_image_def zero_rows_def)

lemma resize_zero_batch:
  "resize_inplace (uninitialised demo_fw) (zero_batch n) [64, 784] = zero_rows 64 784"
proof -
  have "map (\<lambda>i. if i < length (data (zero_batch n)) then data (zero_batch n) ! i
                 else uninitialised demo_fw i) [0..<50176]
      = map (\<lambda>i. 0) [0..<50176]"
    by (rule map_cong[OF refl]) (simp add: zero_batch_def)
  then show ?thesis
    by (simp add: resize_inplace_def zero_rows_def map_replicate_const)
qed

lemma first_weight_zero:
  "first_weight (zero_stack @ ls) = Inr (replicate 128 (replicate 784 0))"
  "first_weight zero_stack = Inr (replicate 128 (replicate 784 0))"
  by (simp_all add: first_weight_def zero_stack_def)

lemma softmax_demo:
  "softmax 1 \<lparr>shape = [1, 10], data = replicate 10 (- ln 10)\<rparr>
     = Inr \<lparr>shape = [1, 10], data = replicate 10 (1 / 10)\<rparr>"
  using softmax_const[of 10 1 "- ln 10"] by simp

lemma demo_notebook: "\<exists>s'. notebook demo_fw demo_state = Inr s'"
  apply (simp add: softmax_demo notebook_def cells_before_def cell_load_def cell_cross_entropy_def cell_nll_def
      cells_autograd_def cell_loss_def cell_backward_def cell_optimizer_def cell_single_step_def
      cell_update_def cell_predict_def readable_def first_weight_zero
      final_cell_def final_setup_def train_def epochs_def epoch_def epoch_stmts_def
      training_pass_def len_loader_def
      demo_state_def demo_eval upt_rec first_slice_zero_batch view_as_zero resize_zero_batch
      del: exec.simps(3) One_nat_def)
  done

lemma sampler_ok_demo: "sampler_ok demo_fw"
  by (simp add: sampler_ok_def)

lemma demo_train:
  "\<exists>s s'. run_stmts demo_fw final_setup demo_loaded = Inr s
      \<and> trainloader s = Some \<lparr>dataset = demo_set, batch_size = 64, shuffled = True\<rparr>
      \<and> train demo_fw s = Inr s'"
  by (simp add: final_setup_def train_def epochs_def epoch_def epoch_stmts_def
      training_pass_def len_loader_def demo_loaded_def demo_state_def demo_eval upt_rec
      del: exec.simps(3) One_nat_def)

lemma field_of_neq [simp]:
  "field_of v \<noteq> Ffs" "Ffs \<noteq> field_of v"
  "field_of v \<noteq> Frng" "Frng \<noteq> field_of v"
  "field_of v \<noteq> Ftrainset" "Ftrainset \<noteq> field_of v"
  "field_of v \<noteq> Ftrainloader" "Ftrainloader \<noteq> field_of v"
  "field_of v \<noteq> Fmodel" "Fmodel \<noteq> field_of v"
  "field_of v \<noteq> Fmodel_id" "Fmodel_id \<noteq> field_of v"
  "field_of v \<noteq> Fgrad" "Fgrad \<noteq> field_of v"
  "field_of v \<noteq> Fcriterion" "Fcriterion \<noteq> field_of v"
  "field_of v \<noteq> Foptimizer" "Foptimizer \<noteq> field_of v"
  "field_of v \<noteq> Frunning_loss" "Frunning_loss \<noteq> field_of v"
  "field_of v \<noteq> Fstdout" "Fstdout \<noteq> field_of v"
  "field_of v \<noteq> Ftrace" "Ftrace \<noteq> field_of v"
  "field_of v \<noteq> Fimages" "Fimages \<noteq> field_of v"
  "field_of v \<noteq> Flabels" "Flabels \<noteq> field_of v"
  "field_of v \<noteq> Floss" "Floss \<noteq> field_of v"
  by (cases v; simp)+

lemma writes_model_grad:
  "c \<notin> {ZeroGrad, Backward, Step} \<Longrightarrow> \<forall>a. c \<noteq> NewModel a \<Longrightarrow> Fmodel \<notin> writes c \<and> Fgrad \<notin> writes c"
  by (cases c) simp_all

lemma writes_model:
  "c \<noteq> Step \<Longrightarrow> \<forall>a. c \<noteq> NewModel a \<Longrightarrow> Fmodel \<notin> writes c"
  by (cases c) simp_all

subsection \<open>The gradient at an update\<close>

lemma step_position:
  assumes "epoch_stmts chs = pre @ Step # post"
  shows "\<exists>pre0 ch. ch \<in> set chs
      \<and> pre = pre0 @ [NextBatch ch, Flatten, ZeroGrad, Forward Output, Criterion Output, Backward]
      \<and> set pre0 \<subseteq> set (epoch_stmts chs)"
  using assms
proof (induction chs arbitrary: pre)
  case Nil
  then show ?case by (simp add: epoch_stmts_def Cons_eq_append_conv)
next
  case (Cons ch chs)
  let ?B = "[NextBatch ch, Flatten, ZeroGrad, Forward Output, Criterion Output, Backward, Step, Accumulate]"
  have e: "epoch_stmts (ch # chs) = ?B @ epoch_stmts chs"
    by (simp add: epoch_stmts_def training_pass_def)
  from Cons.prems have "pre @ Step # post = ?B @ epoch_stmts chs" by (simp only: e)
  then have "\<exists>us. pre = ?B @ us \<and> us @ Step # post = epoch_stmts chs
               \<or> pre @ us = ?B \<and> Step # post = us @ epoch_stmts chs"
    by (rule append_eq_append_conv2[THEN iffD1])
  then consider us where "pre = ?B @ us" "us @ Step # post = epoch_stmts chs"
    | us where "pre @ us = ?B" "Step # post = us @ epoch_stmts chs" "us \<noteq> []"
  proof (elim exE disjE conjE)
    fix us assume a: "pre @ us = ?B" "Step # post = us @ epoch_stmts chs"
      and r1: "\<And>us. pre = ?B @ us \<Longrightarrow> us @ Step # post = epoch_stmts chs \<Longrightarrow> thesis"
      and r2: "\<And>us. pre @ us = ?B \<Longrightarrow> Step # post = us @ epoch_stmts chs \<Longrightarrow> us \<noteq> [] \<Longrightarrow> thesis"
    show thesis
    proof (cases "us = []")
      case True
      with a have "pre = ?B @ []" "[] @ Step # post = epoch_stmts chs" by simp_all
      then show ?thesis by (rule r1)
    next
      case False
      with a show ?thesis by (intro r2)
    qed
  qed blast
  then show ?case
  proof cases
    case 1
    from Cons.IH[OF 1(2)[symmetric]] obtain pre0 ch' where p: "ch' \<in> set chs"
      "us = pre0 @ [NextBatch ch', Flatten, ZeroGrad, Forward Output, Criterion Output, Backward]"
      "set pre0 \<subseteq> set (epoch_stmts chs)" by blast
    show ?thesis
      by (rule exI[of _ "?B @ pre0"], rule exI[of _ ch']) (use p 1 e in auto)
  next
    case 2
    from 2(2,3) obtain us' where us: "us = Step # us'" by (cases us) auto
    from 2(1) have "pre = [NextBatch ch, Flatten, ZeroGrad, Forward Output, Criterion Output, Backward]"
      unfolding us by (auto simp: append_eq_Cons_conv)
    then show ?thesis
      by (intro exI[of _ "[]"] exI[of _ ch]) simp
  qed
qed


lemma exec_NextBatch_E:
  fixes fw :: "('e, 'g::monoid_add, 'r, 'f) framework"
  assumes "exec fw (NextBatch ch) s = Inr s'"
  shows "\<exists>im lb. collate ch = (Inr (im, lb) :: 'e error + real tensor \<times> nat list)
      \<and> s' = s\<lparr>images := Some im, labels := Some lb, trace := trace s @ [CallNext ch]\<rparr>"
proof -
  from assms obtain im lb where 1: "collate ch = (Inr (im, lb) :: 'e error + real tensor \<times> nat list)"
    by (cases "collate ch :: 'e error + real tensor \<times> nat list") auto
  with assms have "s' = s\<lparr>images := Some im, labels := Some lb, trace := trace s @ [CallNext ch]\<rparr>"
    by simp
  with 1 show ?thesis by blast
qed

lemma exec_Flatten_E:
  fixes fw :: "('e, 'g::monoid_add, 'r, 'f) framework"
  assumes "exec fw Flatten s = Inr s'"
  shows "\<exists>im im'. images s = Some im \<and> flatten im = (Inr im' :: 'e error + real tensor)
      \<and> s' = s\<lparr>images := Some im', trace := trace s @ [CallView]\<rparr>"
proof -
  from assms obtain im where 1: "images s = Some im"
    by (cases "images s") auto
  with assms obtain im' where 2: "flatten im = (Inr im' :: 'e error + real tensor)"
    by (cases "flatten im :: 'e error + real tensor") auto
  with 1 assms have "s' = s\<lparr>images := Some im', trace := trace s @ [CallView]\<rparr>"
    by simp
  with 1 2 show ?thesis by blast
qed

lemma exec_ZeroGrad_bound:
  assumes "optimizer s = Some (SGD lr (model_id s))"
  shows "exec fw ZeroGrad s
     = Inr (s\<lparr>grad := map_option (\<lambda>_. 0) (grad s), trace := trace s @ [CallZeroGrad]\<rparr>)"
  using assms by simp

lemma exec_Forward_E:
  fixes fw :: "('e, 'g::monoid_add, 'r, 'f) framework"
  assumes "exec fw (Forward v) s = Inr s'"
  shows "\<exists>m im out. model s = Some m \<and> images s = Some im
      \<and> forward m im = (Inr out :: 'e error + real tensor)
      \<and> s' = set_var v \<lparr>out_value = out, out_graph = Some (model_id s, m, im)\<rparr>
                (s\<lparr>trace := trace s @ [CallForward]\<rparr>)"
proof -
  from assms obtain m where 1: "model s = Some m"
    by (cases "model s") auto
  with assms obtain im where 2: "images s = Some im"
    by (cases "images s") auto
  with 1 assms obtain out where 3: "forward m im = (Inr out :: 'e error + real tensor)"
    by (cases "forward m im :: 'e error + real tensor") auto
  with 1 2 assms have "s' = set_var v \<lparr>out_value = out, out_graph = Some (model_id s, m, im)\<rparr>
                (s\<lparr>trace := trace s @ [CallForward]\<rparr>)"
    by simp
  with 1 2 3 show ?thesis by blast
qed

lemma exec_Criterion_E:
  assumes "exec fw (Criterion v) s = Inr s'"
  shows "\<exists>c out lb l. criterion s = Some c \<and> get_var v s = Some out \<and> labels s = Some lb
      \<and> loss_fn fw c (out_value out) lb = Inr l
      \<and> s' = s\<lparr>loss := Some \<lparr>item = l, loss_criterion = c, loss_output = out,
                               loss_target = lb, graph_freed = False\<rparr>,
                trace := trace s @ [CallCriterion]\<rparr>"
proof -
  from assms obtain c where 1: "criterion s = Some c"
    by (cases "criterion s") auto
  with assms obtain out where 2: "get_var v s = Some out"
    by (cases "get_var v s") auto
  with 1 assms obtain lb where 3: "labels s = Some lb"
    by (cases "labels s") auto
  with 1 2 assms obtain l where 4: "loss_fn fw c (out_value out) lb = Inr l"
    by (cases "loss_fn fw c (out_value out) lb") auto
  with 1 2 3 assms have "s' = s\<lparr>loss := Some \<lparr>item = l, loss_criterion = c, loss_output = out,
                               loss_target = lb, graph_freed = False\<rparr>,
                trace := trace s @ [CallCriterion]\<rparr>"
    by simp
  with 1 2 3 4 show ?thesis by blast
qed

lemma exec_Backward_bound:
  assumes "loss s = Some l" and "out_graph (loss_output l) = Some (model_id s, m, im)"
    and "\<not> graph_freed l"
  shows "exec fw Backward s
     = Inr (s\<lparr>grad := Some (case grad s of None \<Rightarrow> autograd fw l | Some g \<Rightarrow> g + autograd fw l),
              loss := Some (l\<lparr>graph_freed := True\<rparr>),
              trace := trace s @ [CallBackward]\<rparr>)"
  using assms by simp

lemma fresh_gradient:
  fixes fw :: "('e, 'g::monoid_add, 'r, 'f) framework"
  assumes run: "run_stmts fw [NextBatch ch, Flatten, ZeroGrad, Forward Output, Criterion Output, Backward] s = Inr s1"
    and opt: "optimizer s = Some (SGD lr (model_id s))"
  shows "\<exists>im lb im' m out c v.
        collate ch = (Inr (im, lb) :: 'e error + real tensor \<times> nat list)
      \<and> flatten im = (Inr im' :: 'e error + real tensor)
      \<and> model s1 = Some m \<and> forward m im' = (Inr out :: 'e error + real tensor)
      \<and> criterion s1 = Some c
      \<and> loss_fn fw c out lb = Inr v
      \<and> loss s1 = Some \<lparr>item = v, loss_criterion = c,
            loss_output = \<lparr>out_value = out, out_graph = Some (model_id s1, m, im')\<rparr>,
            loss_target = lb, graph_freed = True\<rparr>
      \<and> grad s1 = Some (autograd fw \<lparr>item = v, loss_criterion = c,
            loss_output = \<lparr>out_value = out, out_graph = Some (model_id s1, m, im')\<rparr>,
            loss_target = lb, graph_freed = False\<rparr>)
      \<and> optimizer s1 = Some (SGD lr (model_id s1))"
proof -
  from run obtain a b c d e where
    e1: "exec fw (NextBatch ch) s = Inr a" and e2: "exec fw Flatten a = Inr b"
    and e3: "exec fw ZeroGrad b = Inr c" and e4: "exec fw (Forward Output) c = Inr d"
    and e5: "exec fw (Criterion Output) d = Inr e" and e6: "exec fw Backward e = Inr s1"
    unfolding run_stmts_Cons_Inr run_stmts.simps(1) by blast
  from exec_NextBatch_E[OF e1] obtain im lb
    where co: "collate ch = (Inr (im, lb) :: 'e error + real tensor \<times> nat list)"
    and a: "a = s\<lparr>images := Some im, labels := Some lb, trace := trace s @ [CallNext ch]\<rparr>"
    by blast
  from exec_Flatten_E[OF e2] a obtain im' where fl: "flatten im = (Inr im' :: 'e error + real tensor)"
    and b: "b = a\<lparr>images := Some im', trace := trace a @ [CallView]\<rparr>"
    by auto
  have ob: "optimizer b = Some (SGD lr (model_id b))" using opt by (simp add: a b)
  from e3 exec_ZeroGrad_bound[OF ob, of fw]
  have c: "c = b\<lparr>grad := map_option (\<lambda>_. 0) (grad b), trace := trace b @ [CallZeroGrad]\<rparr>"
    by (simp only: sum.inject)
  from exec_Forward_E[OF e4] obtain m out where mo: "model c = Some m"
    "forward m im' = (Inr out :: 'e error + real tensor)"
    and d: "d = set_var Output \<lparr>out_value = out, out_graph = Some (model_id c, m, im')\<rparr>
                 (c\<lparr>trace := trace c @ [CallForward]\<rparr>)"
    by (auto simp: c b)
  have gv: "get_var Output d = Some \<lparr>out_value = out, out_graph = Some (model_id c, m, im')\<rparr>"
    by (simp add: d)
  from exec_Criterion_E[OF e5] gv obtain cr v where cv: "criterion d = Some cr"
    "loss_fn fw cr out lb = Inr v"
    and e: "e = d\<lparr>loss := Some \<lparr>item = v, loss_criterion = cr,
                  loss_output = \<lparr>out_value = out, out_graph = Some (model_id c, m, im')\<rparr>,
                  loss_target = lb, graph_freed = False\<rparr>,
                trace := trace d @ [CallCriterion]\<rparr>"
    by (auto simp: d c b a)
  let ?l = "\<lparr>item = v, loss_criterion = cr,
             loss_output = \<lparr>out_value = out, out_graph = Some (model_id c, m, im')\<rparr>,
             loss_target = lb, graph_freed = False\<rparr>"
  have le: "loss e = Some ?l" by (simp add: e)
  have ids: "model_id e = model_id c" "model_id c = model_id s" by (simp_all add: e d c b a)
  have og: "out_graph (loss_output ?l) = Some (model_id e, m, im')" by (simp add: ids)
  have "exec fw Backward e = Inr (e\<lparr>grad := Some (case grad e of None \<Rightarrow> autograd fw ?l | Some g \<Rightarrow> g + autograd fw ?l),
              loss := Some (?l\<lparr>graph_freed := True\<rparr>),
              trace := trace e @ [CallBackward]\<rparr>)"
    by (rule exec_Backward_bound[OF le og]) simp
  with e6 have s1: "s1 = e\<lparr>grad := Some (case grad e of None \<Rightarrow> autograd fw ?l | Some g \<Rightarrow> g + autograd fw ?l),
              loss := Some (?l\<lparr>graph_freed := True\<rparr>),
              trace := trace e @ [CallBackward]\<rparr>"
    by (simp only: sum.inject)
  have ge: "grad e = map_option (\<lambda>_. 0) (grad s)" by (simp add: e d c b a)
  have g: "grad s1 = Some (autograd fw ?l)"
    by (cases "grad s") (simp_all add: s1 ge)
  show ?thesis
    apply (rule exI[of _ im], rule exI[of _ lb], rule exI[of _ im'], rule exI[of _ m],
        rule exI[of _ out], rule exI[of _ cr], rule exI[of _ v])
    using co fl mo cv g opt by (simp add: s1 e d c b a)
qed



lemma demo_second_batch:
  "\<exists>s s1. run_stmts demo_fw final_setup demo_loaded = Inr s
     \<and> optimizer s = Some (SGD (3 / 1000) (model_id s))
     \<and> run_stmts demo_fw
          ([NextBatch (replicate 64 (zero_image, 3)), Flatten, ZeroGrad, Forward Output,
            Criterion Output, Backward, Step, Accumulate]
           @ [NextBatch [(zero_image, 3)], Flatten, ZeroGrad, Forward Output, Criterion Output,
              Backward]) (s\<lparr>running_loss := Some 0\<rparr>) = Inr s1"
  by (simp add: final_setup_def demo_loaded_def demo_state_def demo_eval
      del: exec.simps(3) One_nat_def)


lemma backward_accumulates:
  assumes "loss s = Some l" and "out_graph (loss_output l) = Some (model_id s, m, im)"
    and "\<not> graph_freed l" and "grad s = Some g" and "exec fw Backward s = Inr s'"
  shows "grad s' = Some (g + autograd fw l)"
  using assms by auto

subsection \<open>Batches, \<^verbatim>\<open>view\<close> and \<^verbatim>\<open>resize_\<close>\<close>

lemma flatten_batch:
  "0 < B \<Longrightarrow> shape t = B # rest
     \<Longrightarrow> flatten t = Inr \<lparr>shape = [B, prod_list rest], data = data t\<rparr>"
  by (simp add: flatten_def view_rows_def)

lemma flatten_empty_batch: "shape t = 0 # rest \<Longrightarrow> flatten t = Inl RuntimeError"
  by (simp add: flatten_def view_rows_def)

lemma map_nth_or: "map (\<lambda>i. if i < length xs then xs ! i else f i) [0..<length xs] = xs"
  by (rule nth_equalityI) auto

lemma resize_keeps_iff:
  assumes "wf_tensor t" and "shape t = B # rest" and "prod_list rest = 784"
  shows "data (resize_inplace junk t [64, 784]) = data t \<longleftrightarrow> B = 64"
proof
  assume "data (resize_inplace junk t [64, 784]) = data t"
  then have "length (data (resize_inplace junk t [64, 784])) = length (data t)" by simp
  then show "B = 64" using assms by (simp add: resize_inplace_def wf_tensor_def)
next
  assume "B = 64"
  then have "length (data t) = 50176" using assms by (simp add: wf_tensor_def)
  then show "data (resize_inplace junk t [64, 784]) = data t"
    using map_nth_or[of "data t" junk] by (simp add: resize_inplace_def)
qed

lemma length_concat_same:
  "\<forall>x\<in>set xs. length (f x) = n \<Longrightarrow> length (concat (map f xs)) = length xs * n"
  by (induction xs) auto

lemma collate_same_shape:
  assumes "ch \<noteq> []" and "\<forall>x\<in>set ch. wf_tensor (fst x) \<and> shape (fst x) = sh"
  shows "\<exists>im. collate ch = Inr (im, map snd ch) \<and> shape im = length ch # sh \<and> wf_tensor im"
proof -
  from assms(1) obtain s0 rest where ch: "ch = s0 # rest" by (cases ch) auto
  have a: "list_all (\<lambda>s. shape (fst s) = shape (fst s0)) rest"
    using assms(2) by (auto simp: ch list_all_iff)
  have l: "length (concat (map (\<lambda>s. data (fst s)) ch)) = length ch * prod_list sh"
    using assms(2) by (intro length_concat_same) (auto simp: wf_tensor_def)
  have s0: "shape (fst s0) = sh" using assms(2) by (simp add: ch)
  show ?thesis
    using a l s0 unfolding collate_def ch by (simp add: wf_tensor_def)
qed

lemma shuffle_facts:
  assumes "sampler_ok fw"
  shows "set (fst (shuffle fw r xs)) = set xs" "length (fst (shuffle fw r xs)) = length xs"
proof -
  have m: "mset (fst (shuffle fw r xs)) = mset xs" using assms by (simp add: sampler_ok_def)
  show "set (fst (shuffle fw r xs)) = set xs" using m by (rule mset_eq_setD)
  show "length (fst (shuffle fw r xs)) = length xs" using m by (rule mset_eq_length)
qed

lemma chunks_subset: "ch \<in> set (chunks n xs) \<Longrightarrow> set ch \<subseteq> set xs"
proof (induction n xs rule: chunks.induct)
  case (1 n)
  then show ?case by simp
next
  case (2 n x xs)
  show ?case
  proof (cases "n = 0")
    case True
    with 2 show ?thesis by simp
  next
    case False
    with 2(2) have "ch = take n (x # xs) \<or> ch \<in> set (chunks n (drop n (x # xs)))" by simp
    then show ?thesis
    proof
      assume "ch = take n (x # xs)"
      then show ?thesis using set_take_subset[of n "x # xs"] by simp
    next
      assume "ch \<in> set (chunks n (drop n (x # xs)))"
      from 2(1)[OF False this] set_drop_subset[of n "x # xs"] show ?thesis by blast
    qed
  qed
qed

lemma iter_loader_order:
  assumes "sampler_ok fw"
  shows "\<exists>order. fst (iter_loader fw ld r) = chunks (batch_size ld) order
      \<and> set order = set (dataset ld) \<and> length order = length (dataset ld)"
proof (cases "shuffled ld")
  case True
  then have "fst (iter_loader fw ld r) = chunks (batch_size ld) (fst (shuffle fw r (dataset ld)))"
    by (simp add: iter_loader_def split: prod.splits)
  with shuffle_facts[OF assms] show ?thesis by blast
next
  case False
  then have "fst (iter_loader fw ld r) = chunks (batch_size ld) (dataset ld)"
    by (simp add: iter_loader_def)
  then show ?thesis by blast
qed


lemma first_batch_full:
  fixes fw :: "('e, 'g::monoid_add, 'r, 'f) framework"
  assumes "sampler_ok fw" and "trainloader s = Some ld" and "0 < batch_size ld"
    and "batch_size ld \<le> length (dataset ld)"
    and "\<forall>x\<in>set (dataset ld). wf_tensor (fst x) \<and> shape (fst x) = sh"
  shows "\<exists>s1 im. exec fw FirstBatch s = Inr s1 \<and> images s1 = Some im
      \<and> shape im = batch_size ld # sh \<and> wf_tensor im"
proof -
  from iter_loader_order[OF assms(1), of ld "rng s"] obtain order where
    o: "fst (iter_loader fw ld (rng s)) = chunks (batch_size ld) order"
       "set order = set (dataset ld)" "length order = length (dataset ld)" by blast
  have ne: "order \<noteq> []" using o(3) assms(3,4) by auto
  from chunks_first[OF assms(3) ne] obtain rest where
    c: "chunks (batch_size ld) order = take (batch_size ld) order # rest" by blast
  let ?ch = "take (batch_size ld) order"
  have l: "length ?ch = batch_size ld" using o(3) assms(4) by simp
  have "set ?ch \<subseteq> set (dataset ld)" using set_take_subset[of "batch_size ld" order] o(2) by simp
  then have sh: "\<forall>x\<in>set ?ch. wf_tensor (fst x) \<and> shape (fst x) = sh" using assms(5) by blast
  have "?ch \<noteq> []" using l assms(3) by auto
  from collate_same_shape[OF this sh] obtain im where
    im: "collate ?ch = (Inr (im, map snd ?ch) :: 'e error + real tensor \<times> nat list)"
      "shape im = length ?ch # sh" "wf_tensor im"
    by blast
  obtain chs r' where it: "iter_loader fw ld (rng s) = (chs, r')" by (cases "iter_loader fw ld (rng s)")
  with o(1) c have chs: "chs = ?ch # rest" by simp
  have "exec fw FirstBatch s = Inr (s\<lparr>images := Some im, labels := Some (map snd ?ch), rng := r',
                           trace := trace s @ [CallIter, CallNext ?ch]\<rparr>)"
    using assms(2) it chs im(1) by simp
  with im(2,3) l show ?thesis by simp
qed

lemma demo_set_images: "\<forall>x\<in>set (dataset \<lparr>dataset = demo_set, batch_size = 64, shuffled = True\<rparr>).
    wf_tensor (fst x) \<and> shape (fst x) = [1, 28, 28]"
  by (simp add: demo_set_def zero_image_def wf_tensor_def)

lemma demo_last_batch:
  "[(zero_image, 3)] \<in> set (fst (iter_loader demo_fw \<lparr>dataset = demo_set, batch_size = 64, shuffled = True\<rparr> (rng demo_loaded)))"
  by (simp add: demo_eval del: One_nat_def)

subsection \<open>What the criterion is given\<close>

lemma build_snoc_log_softmax:
  "build fw (cs @ [NewLogSoftmax d]) r = (fst (build fw cs r) @ [LogSoftmax d], snd (build fw cs r))"
  by (induction fw cs r rule: build.induct) (simp_all add: Let_def split: prod.splits)

lemma build_stack:
  "\<exists>W1 b1 W2 b2 W3 b3 r'.
     build fw [NewLinear 784 128, NewReLU, NewLinear 128 64, NewReLU, NewLinear 64 10] r
       = ([Linear 784 128 W1 b1, ReLU, Linear 128 64 W2 b2, ReLU, Linear 64 10 W3 b3], r')"
  by (simp add: Let_def split: prod.splits)

lemma flatten_shape2:
  assumes "flatten t = (Inr t' :: 'e error + 'a tensor)"
  shows "\<exists>B k. shape t' = [B, k] \<and> data t' = data t"
proof (cases "shape t")
  case Nil
  with assms show ?thesis by (simp add: flatten_def)
next
  case (Cons d0 rest)
  with assms show ?thesis
    by (auto simp: flatten_def view_rows_def split: if_splits)
qed

lemma linear_layer_rows:
  assumes "linear_layer n_in n_out W b x = (Inr y :: 'e error + real tensor)" and "shape x = [B, k]"
  shows "shape y = [B, n_out] \<and> wf_tensor y"
proof -
  from assms(1) have y: "y = \<lparr>shape = butlast (shape x) @ [n_out],
      data = concat (map (\<lambda>r. map (\<lambda>j. (\<Sum>i\<leftarrow>[0..<n_in]. W ! j ! i * data x ! (r * n_in + i)) + b ! j)
                                  [0..<n_out]) [0..<prod_list (butlast (shape x))])\<rparr>"
    by (auto simp: linear_layer_def split: if_splits)
  have "length (data y) = length [0..<prod_list (butlast (shape x))] * n_out"
    unfolding y tensor.simps by (rule length_concat_same) simp
  then show ?thesis using assms(2) by (simp add: y wf_tensor_def)
qed

lemma relu_rows: "shape (relu x) = shape x" "wf_tensor (relu x) = wf_tensor x"
  by (simp_all add: relu_def wf_tensor_def)

lemma forward_stack_rows:
  assumes "forward [Linear a1 n1 W1 b1, ReLU, Linear a2 n2 W2 b2, ReLU, Linear a3 n3 W3 b3] x
             = (Inr y :: 'e error + real tensor)"
    and "shape x = [B, k]"
  shows "shape y = [B, n3] \<and> wf_tensor y"
proof -
  from assms(1) obtain h1 :: "real tensor" where
    1: "linear_layer a1 n1 W1 b1 x = (Inr h1 :: 'e error + real tensor)"
    and r1: "forward [Linear a2 n2 W2 b2, ReLU, Linear a3 n3 W3 b3] (relu h1) = (Inr y :: 'e error + real tensor)"
    by (cases "linear_layer a1 n1 W1 b1 x :: 'e error + real tensor") auto
  from r1 obtain h2 :: "real tensor" where
    2: "linear_layer a2 n2 W2 b2 (relu h1) = (Inr h2 :: 'e error + real tensor)"
    and r2: "forward [Linear a3 n3 W3 b3] (relu h2) = (Inr y :: 'e error + real tensor)"
    by (cases "linear_layer a2 n2 W2 b2 (relu h1) :: 'e error + real tensor") auto
  from r2 have 3: "linear_layer a3 n3 W3 b3 (relu h2) = (Inr y :: 'e error + real tensor)"
    by (cases "linear_layer a3 n3 W3 b3 (relu h2) :: 'e error + real tensor") auto
  from linear_layer_rows[OF 1 assms(2)] have "shape (relu h1) = [B, n1]" by (simp add: relu_rows)
  from linear_layer_rows[OF 2 this] have "shape (relu h2) = [B, n2]" by (simp add: relu_rows)
  from linear_layer_rows[OF 3 this] show ?thesis .
qed

lemma sum_exp_nonneg: "0 \<le> (\<Sum>v\<leftarrow>xs. exp (v::real))"
  by (rule sum_list_nonneg) auto

lemma sum_exp_pos: "xs \<noteq> [] \<Longrightarrow> 0 < (\<Sum>v\<leftarrow>xs. exp (v::real))"
  by (cases xs) (auto intro!: add_pos_nonneg simp: sum_exp_nonneg)

lemma sum_list_divide: "(\<Sum>x\<leftarrow>xs. f x / c) = (\<Sum>x\<leftarrow>xs. f x) / (c::real)"
  by (induction xs) (simp_all add: add_divide_distrib)

lemma log_softmax_rows:
  assumes "wf_tensor x" and "shape x = [B, n]"
  shows "\<exists>y. log_softmax 1 x = (Inr y :: 'e error + real tensor) \<and> shape y = [B, n] \<and> normalised y
     \<and> data y = map (\<lambda>k. data x ! k - ln (\<Sum>v\<leftarrow>along 1 x k. exp v)) [0..<B * n]"
proof -
  let ?S = "\<lambda>k. (\<Sum>v\<leftarrow>along 1 x k. exp v)"
  let ?d = "map (\<lambda>k. data x ! k - ln (?S k)) [0..<B * n]"
  let ?y = "x\<lparr>data := ?d\<rparr>"
  have len: "length (data x) = B * n" using assms by (simp add: wf_tensor_def)
  have ls: "log_softmax 1 x = (Inr ?y :: 'e error + real tensor)"
    using assms len by (simp add: log_softmax_def)
  have sy: "shape ?y = [B, n]" using assms(2) by simp
  have "(\<Sum>v\<leftarrow>along 1 ?y k. exp v) = 1" if k: "k < B * n" for k
  proof -
    have n: "0 < n" using k by (cases n) auto
    have row: "k div n * n + j < B * n" if "j < n" for j using row_index[OF k that] .
    have same: "along 1 x (k div n * n + j) = along 1 x k" if "j < n" for j
      unfolding along_rows[OF assms(2)] using that by simp
    have ne: "along 1 x k \<noteq> []" unfolding along_rows[OF assms(2)] using n by simp
    have pos: "0 < ?S k" using sum_exp_pos[OF ne] by (simp add: comp_def)
    have "along 1 ?y k = map (\<lambda>j. data ?y ! (k div n * n + j)) [0..<n]"
      by (rule along_rows[OF sy])
    also have "\<dots> = map (\<lambda>j. data x ! (k div n * n + j) - ln (?S k)) [0..<n]"
      by (rule map_cong[OF refl]) (use row same in simp)
    finally have "(\<Sum>v\<leftarrow>along 1 ?y k. exp v)
        = (\<Sum>j\<leftarrow>[0..<n]. exp (data x ! (k div n * n + j)) / ?S k)"
      using pos by (simp add: comp_def exp_diff)
    also have "\<dots> = (\<Sum>j\<leftarrow>[0..<n]. exp (data x ! (k div n * n + j))) / ?S k"
      by (rule sum_list_divide)
    also have "(\<Sum>j\<leftarrow>[0..<n]. exp (data x ! (k div n * n + j))) = ?S k"
      unfolding along_rows[OF assms(2)] by (simp add: comp_def)
    finally show ?thesis using pos by simp
  qed
  then have "normalised ?y" by (simp add: normalised_def list_all_iff)
  with ls sy show ?thesis by auto
qed


lemma get_var_loss_update: "get_var v (s\<lparr>loss := l, trace := t\<rparr>) = get_var v s"
  by (cases v) (simp_all add: get_var_def)

lemma loss_cell:
  fixes fw :: "('e, 'g::monoid_add, 'r, 'f) framework"
  assumes "run_stmts fw ([NewModel cs, SetCriterion cr, FirstBatch, Flatten, Forward v, Criterion v]
             @ tail) s = Inr s'"
    and "tail = [] \<or> tail = [Show e]"
  shows "\<exists>im out lb l B k.
        model s' = Some (fst (build fw cs (rng s)))
      \<and> images s' = Some im \<and> shape im = [B, k]
      \<and> forward (fst (build fw cs (rng s))) im = (Inr out :: 'e error + real tensor)
      \<and> get_var v s' = Some \<lparr>out_value = out,
            out_graph = Some (model_id s', fst (build fw cs (rng s)), im)\<rparr>
      \<and> loss_fn fw cr out lb = Inr l
      \<and> loss s' = Some \<lparr>item = l, loss_criterion = cr,
            loss_output = \<lparr>out_value = out,
               out_graph = Some (model_id s', fst (build fw cs (rng s)), im)\<rparr>,
            loss_target = lb, graph_freed = False\<rparr>"
proof -
  let ?m = "fst (build fw cs (rng s))"
  from assms(1) obtain s1 s2 s3 s4 s5 s6 where
    1: "exec fw (NewModel cs) s = Inr s1" and 2: "exec fw (SetCriterion cr) s1 = Inr s2"
    and 3: "exec fw FirstBatch s2 = Inr s3" and 4: "exec fw Flatten s3 = Inr s4"
    and 5: "exec fw (Forward v) s4 = Inr s5" and 6: "exec fw (Criterion v) s5 = Inr s6"
    and 7: "run_stmts fw tail s6 = Inr s'"
    unfolding run_stmts_append_Inr run_stmts_Cons_Inr run_stmts.simps(1) by blast
  from 7 assms(2) have t: "s' = s6 \<or> s' = s6\<lparr>stdout := stdout s6 @ [Shown e]\<rparr>"
    by (auto split: option.splits)
  from 1 have m1: "model s1 = Some ?m" "model_id s1 = Suc (model_id s)"
    by (auto simp: Let_def split: prod.splits)
  from 2 have m2: "model s2 = Some ?m" "model_id s2 = Suc (model_id s)" "criterion s2 = Some cr"
    using m1 by auto
  from exec_frame[OF 3] m2 have m3: "model s3 = Some ?m" "model_id s3 = Suc (model_id s)"
    "criterion s3 = Some cr" by simp_all
  from exec_Flatten_E[OF 4] obtain im0 im where
    f: "flatten im0 = (Inr im :: 'e error + real tensor)"
    and s4: "s4 = s3\<lparr>images := Some im, trace := trace s3 @ [CallView]\<rparr>" by blast
  from flatten_shape2[OF f] obtain B k where sh: "shape im = [B, k]" by blast
  have m4: "model s4 = Some ?m" "model_id s4 = Suc (model_id s)" "criterion s4 = Some cr"
    "images s4 = Some im" using m3 by (simp_all add: s4)
  from exec_Forward_E[OF 5] m4 obtain out where
    fo: "forward ?m im = (Inr out :: 'e error + real tensor)"
    and s5: "s5 = set_var v \<lparr>out_value = out, out_graph = Some (Suc (model_id s), ?m, im)\<rparr>
                (s4\<lparr>trace := trace s4 @ [CallForward]\<rparr>)"
    by auto
  let ?o = "\<lparr>out_value = out, out_graph = Some (Suc (model_id s), ?m, im)\<rparr>"
  have m5: "model s5 = Some ?m" "model_id s5 = Suc (model_id s)" "criterion s5 = Some cr"
    "get_var v s5 = Some ?o"
    using m4 by (simp_all add: s5)
  from exec_Criterion_E[OF 6] m5 obtain lb l where
    l: "loss_fn fw cr (out_value ?o) lb = Inr l"
    and s6: "s6 = s5\<lparr>loss := Some \<lparr>item = l, loss_criterion = cr, loss_output = ?o,
                               loss_target = lb, graph_freed = False\<rparr>,
                trace := trace s5 @ [CallCriterion]\<rparr>"
    by auto
  have i5: "images s5 = Some im" using m4 by (simp add: s5)
  have m6: "model s6 = Some ?m" "model_id s6 = Suc (model_id s)" "get_var v s6 = Some ?o"
    "loss s6 = Some \<lparr>item = l, loss_criterion = cr, loss_output = ?o,
                               loss_target = lb, graph_freed = False\<rparr>"
    "images s6 = Some im"
    using m5 i5 by (simp_all add: s6 get_var_loss_update)
  have g: "get_var v (s6\<lparr>stdout := stdout s6 @ [Shown e]\<rparr>) = get_var v s6"
    by (cases v) (simp_all add: get_var_def)
  from t m6 g have m7: "model s' = Some ?m" "model_id s' = Suc (model_id s)" "get_var v s' = Some ?o"
    "loss s' = Some \<lparr>item = l, loss_criterion = cr, loss_output = ?o,
                               loss_target = lb, graph_freed = False\<rparr>"
    "images s' = Some im"
    by auto
  from l have "loss_fn fw cr out lb = Inr l" by simp
  with m7 sh fo show ?thesis by auto
qed


lemma nll_cell:
  fixes fw :: "('e, 'g::monoid_add, 'r, 'f) framework"
  assumes "run_stmts fw ([NewModel [NewLinear 784 128, NewReLU, NewLinear 128 64, NewReLU,
               NewLinear 64 10, NewLogSoftmax 1],
             SetCriterion NLLLoss, FirstBatch, Flatten, Forward v, Criterion v] @ tail) s = Inr s'"
    and "tail = [] \<or> tail = [Show e]"
  shows "\<exists>W1 b1 W2 b2 W3 b3 im raw out B.
        model s' = Some [Linear 784 128 W1 b1, ReLU, Linear 128 64 W2 b2, ReLU,
                         Linear 64 10 W3 b3, LogSoftmax 1]
      \<and> images s' = Some im
      \<and> forward [Linear 784 128 W1 b1, ReLU, Linear 128 64 W2 b2, ReLU, Linear 64 10 W3 b3] im
          = (Inr raw :: 'e error + real tensor)
      \<and> shape raw = [B, 10]
      \<and> log_softmax 1 raw = (Inr out :: 'e error + real tensor)
      \<and> data out = map (\<lambda>k. data raw ! k - ln (\<Sum>x\<leftarrow>along 1 raw k. exp x)) [0..<B * 10]
      \<and> normalised out
      \<and> map_option out_value (get_var v s') = Some out
      \<and> map_option loss_output (loss s') = get_var v s'
      \<and> map_option loss_criterion (loss s') = Some NLLLoss"
proof -
  let ?cs = "[NewLinear 784 128, NewReLU, NewLinear 128 64, NewReLU, NewLinear 64 10]"
  from build_stack[of fw "rng s"] obtain W1 b1 W2 b2 W3 b3 r' where
    b: "build fw ?cs (rng s)
       = ([Linear 784 128 W1 b1, ReLU, Linear 128 64 W2 b2, ReLU, Linear 64 10 W3 b3], r')"
    by blast
  let ?m0 = "[Linear 784 128 W1 b1, ReLU, Linear 128 64 W2 b2, ReLU, Linear 64 10 W3 b3]"
  have "build fw (?cs @ [NewLogSoftmax 1]) (rng s) = (?m0 @ [LogSoftmax 1], r')"
    unfolding build_snoc_log_softmax b by simp
  then have m: "fst (build fw [NewLinear 784 128, NewReLU, NewLinear 128 64, NewReLU,
               NewLinear 64 10, NewLogSoftmax 1] (rng s)) = ?m0 @ [LogSoftmax 1]"
    by simp
  from loss_cell[OF assms] obtain im out lb l B k where
    r: "model s' = Some (?m0 @ [LogSoftmax 1])" "images s' = Some im" "shape im = [B, k]"
      "forward (?m0 @ [LogSoftmax 1]) im = (Inr out :: 'e error + real tensor)"
      "get_var v s' = Some \<lparr>out_value = out,
            out_graph = Some (model_id s', ?m0 @ [LogSoftmax 1], im)\<rparr>"
      "loss s' = Some \<lparr>item = l, loss_criterion = NLLLoss,
            loss_output = \<lparr>out_value = out,
               out_graph = Some (model_id s', ?m0 @ [LogSoftmax 1], im)\<rparr>,
            loss_target = lb, graph_freed = False\<rparr>"
    unfolding m by blast
  from r(4) obtain raw where raw: "forward ?m0 im = (Inr raw :: 'e error + real tensor)"
    and ls: "log_softmax 1 raw = (Inr out :: 'e error + real tensor)"
    unfolding forward_snoc_log_softmax
    by (cases "forward ?m0 im :: 'e error + real tensor") auto
  from forward_stack_rows[OF raw r(3)] have sh: "shape raw = [B, 10]" "wf_tensor raw" by simp_all
  from log_softmax_rows[OF sh(2) sh(1), where ?'e = 'e] ls have
    n: "normalised out"
      "data out = map (\<lambda>k. data raw ! k - ln (\<Sum>x\<leftarrow>along 1 raw k. exp x)) [0..<B * 10]"
    by auto
  from r(1,2,5,6) raw sh(1) ls n show ?thesis by simp
qed

lemma cross_entropy_cell:
  fixes fw :: "('e, 'g::monoid_add, 'r, 'f) framework"
  assumes "run_stmts fw cell_cross_entropy s = Inr s'"
  shows "\<exists>W1 b1 W2 b2 W3 b3 im out.
        model s' = Some [Linear 784 128 W1 b1, ReLU, Linear 128 64 W2 b2, ReLU, Linear 64 10 W3 b3]
      \<and> images s' = Some im
      \<and> forward [Linear 784 128 W1 b1, ReLU, Linear 128 64 W2 b2, ReLU, Linear 64 10 W3 b3] im
          = (Inr out :: 'e error + real tensor)
      \<and> map_option out_value (logits s') = Some out
      \<and> map_option loss_output (loss s') = logits s'
      \<and> map_option loss_criterion (loss s') = Some CrossEntropyLoss"
proof -
  let ?cs = "[NewLinear 784 128, NewReLU, NewLinear 128 64, NewReLU, NewLinear 64 10]"
  from build_stack[of fw "rng s"] obtain W1 b1 W2 b2 W3 b3 r' where
    b: "build fw ?cs (rng s)
       = ([Linear 784 128 W1 b1, ReLU, Linear 128 64 W2 b2, ReLU, Linear 64 10 W3 b3], r')"
    by blast
  let ?m0 = "[Linear 784 128 W1 b1, ReLU, Linear 128 64 W2 b2, ReLU, Linear 64 10 W3 b3]"
  have c: "cell_cross_entropy = [NewModel ?cs, SetCriterion CrossEntropyLoss, FirstBatch, Flatten,
      Forward Logits, Criterion Logits] @ [Show ShowLoss]"
    by (simp add: cell_cross_entropy_def)
  have t: "[Show ShowLoss] = [] \<or> [Show ShowLoss] = [Show ShowLoss]" by simp
  from loss_cell[OF assms[unfolded c] t] obtain im out lb l where
    r: "model s' = Some ?m0" "images s' = Some im"
      "forward ?m0 im = (Inr out :: 'e error + real tensor)"
      "get_var Logits s' = Some \<lparr>out_value = out, out_graph = Some (model_id s', ?m0, im)\<rparr>"
      "loss s' = Some \<lparr>item = l, loss_criterion = CrossEntropyLoss,
            loss_output = \<lparr>out_value = out, out_graph = Some (model_id s', ?m0, im)\<rparr>,
            loss_target = lb, graph_freed = False\<rparr>"
    unfolding b fst_conv by blast
  from r show ?thesis by (simp add: get_var_def)
qed


lemma demo_cell_loss:
  "\<exists>s'. run_stmts demo_fw cell_loss demo_loaded = Inr s'
      \<and> model s' = Some (zero_stack @ [LogSoftmax 1])
      \<and> images s' = Some (zero_rows 64 784)
      \<and> map_option out_value (logits s') = Some \<lparr>shape = [64, 10], data = replicate 640 (- ln 10)\<rparr>"
  by (simp add: cell_loss_def demo_loaded_def demo_state_def demo_eval
      del: exec.simps(3) One_nat_def)

lemma demo_cell_cross_entropy:
  "\<exists>s'. run_stmts demo_fw cell_cross_entropy demo_loaded = Inr s'
      \<and> map_option out_value (logits s') = Some (zero_rows 64 10)"
  by (simp add: cell_cross_entropy_def demo_loaded_def demo_state_def demo_eval readable_def
      del: exec.simps(3) One_nat_def)

subsection \<open>The model of the final cell\<close>

lemma build_final:
  "\<exists>W1 b1 W2 b2 W3 b3 r'.
     build fw [NewLinear 784 128, NewReLU, NewLinear 128 64, NewReLU, NewLinear 64 10,
               NewLogSoftmax 1] r
       = ([Linear 784 128 W1 b1, ReLU, Linear 128 64 W2 b2, ReLU, Linear 64 10 W3 b3,
           LogSoftmax 1], r')"
  by (simp add: Let_def split: prod.splits)

subsection \<open>The file system\<close>

lemma readable_fs: "readable e (s\<lparr>fs := f\<rparr>) = readable e s"
  by (cases e) (simp_all add: readable_def)

lemma get_var_fs: "get_var v (s\<lparr>fs := f\<rparr>) = get_var v s"
  by (cases v) (simp_all add: get_var_def)

lemma set_var_fs: "set_var v out (s\<lparr>fs := f\<rparr>) = (set_var v out s)\<lparr>fs := f\<rparr>"
  by (cases v) (simp_all add: set_var_def)

lemma exec_ignores_fs:
  fixes fw :: "('e, 'g::monoid_add, 'r, 'f) framework"
  assumes "Ffs \<notin> writes c"
  shows "exec fw c (s\<lparr>fs := f\<rparr>) = map_sum id (\<lambda>t. t\<lparr>fs := f\<rparr>) (exec fw c s)"
proof (cases c)
  case (LoadMNIST d)
  with assms show ?thesis by simp
next
  case (Import name)
  with assms show ?thesis by simp
next
  case (Forward v)
  then show ?thesis
    by (cases v) (simp_all add: set_var_def split: option.split sum.split)
next
  case (Criterion v)
  then show ?thesis
    by (simp add: get_var_fs split: option.split sum.split)
next
  case FirstBatch
  then show ?thesis
    by (simp split: option.split sum.split prod.split list.split)
qed (simp_all add: readable_fs split: option.split sum.split prod.split optimizer.split)


lemma run_stmts_ignores_fs:
  fixes fw :: "('e, 'g::monoid_add, 'r, 'f) framework"
  assumes "\<forall>c\<in>set cs. Ffs \<notin> writes c"
  shows "run_stmts fw cs (s\<lparr>fs := f\<rparr>) = map_sum id (\<lambda>t. t\<lparr>fs := f\<rparr>) (run_stmts fw cs s)"
  using assms
proof (induction cs arbitrary: s)
  case Nil
  then show ?case by simp
next
  case (Cons c cs)
  then have c: "Ffs \<notin> writes c" and cs: "\<forall>c\<in>set cs. Ffs \<notin> writes c" by simp_all
  show ?case
  proof (cases "exec fw c s")
    case (Inl err)
    then show ?thesis using exec_ignores_fs[OF c, where fw = fw and s = s and f = f] by simp
  next
    case (Inr s1)
    then show ?thesis
      using exec_ignores_fs[OF c, where fw = fw and s = s and f = f] Cons.IH[OF cs, of s1] by simp
  qed
qed

lemma epoch_stmts_no_load: "\<forall>c\<in>set (epoch_stmts chs). Ffs \<notin> writes c"
  by (auto simp: epoch_stmts_def training_pass_def)

lemma writes_fs: "Ffs \<in> writes c \<longleftrightarrow> (\<exists>d. c = LoadMNIST d) \<or> (\<exists>name. c = Import name)"
  by (cases c) simp_all

lemma epoch_ignores_fs:
  fixes fw :: "('e, 'g::monoid_add, 'r, 'f) framework"
  shows "epoch fw e (s\<lparr>fs := f\<rparr>) = map_sum id (\<lambda>t. t\<lparr>fs := f\<rparr>) (epoch fw e s)"
proof (cases "trainloader s")
  case None
  then show ?thesis by (simp add: epoch_def)
next
  case (Some ld)
  obtain chs r' where it: "iter_loader fw ld (rng s) = (chs, r')" by (cases "iter_loader fw ld (rng s)")
  let ?s1 = "s\<lparr>running_loss := Some 0, rng := r', trace := trace s @ [CallIter]\<rparr>"
  have 1: "epoch fw e s = run_stmts fw (epoch_stmts chs) ?s1"
    using Some it by (simp add: epoch_def)
  have u: "s\<lparr>fs := f\<rparr>\<lparr>running_loss := Some 0, rng := r',
      trace := trace (s\<lparr>fs := f\<rparr>) @ [CallIter]\<rparr> = ?s1\<lparr>fs := f\<rparr>"
    by (cases s) simp
  have "epoch fw e (s\<lparr>fs := f\<rparr>) = run_stmts fw (epoch_stmts chs) (?s1\<lparr>fs := f\<rparr>)"
    using Some it unfolding u[symmetric] by (simp add: epoch_def)
  with 1 run_stmts_ignores_fs[OF epoch_stmts_no_load, where fw = fw and s = ?s1 and f = f]
  show ?thesis by simp
qed

lemma for_epochs_ignores_fs:
  fixes fw :: "('e, 'g::monoid_add, 'r, 'f) framework"
  shows "for_epochs fw es (s\<lparr>fs := f\<rparr>) = map_sum id (\<lambda>t. t\<lparr>fs := f\<rparr>) (for_epochs fw es s)"
proof (induction es arbitrary: s)
  case Nil
  then show ?case by simp
next
  case (Cons e es)
  show ?case
  proof (cases "epoch fw e s")
    case (Inl err)
    then show ?thesis using epoch_ignores_fs[where fw = fw and e = e and s = s and f = f] by simp
  next
    case (Inr s1)
    then show ?thesis
      using epoch_ignores_fs[where fw = fw and e = e and s = s and f = f] Cons.IH[of s1] by simp
  qed
qed

lemma for_epochs_fs: "for_epochs fw es s = Inr s' \<Longrightarrow> fs s' = fs s"
proof -
  assume a: "for_epochs fw es s = Inr s'"
  have "for_epochs fw es (s\<lparr>fs := fs s\<rparr>) = map_sum id (\<lambda>t. t\<lparr>fs := fs s\<rparr>) (for_epochs fw es s)"
    by (rule for_epochs_ignores_fs)
  with a have "s' = s'\<lparr>fs := fs s\<rparr>" by simp
  then have "fs s' = fs (s'\<lparr>fs := fs s\<rparr>)" by simp
  then show ?thesis by simp
qed

lemma exec_Import_E:
  "exec fw (Import name) s = Inr s' \<Longrightarrow> import_module fw name (fs s) = Some (fs s')"
  by (auto split: option.splits)

lemma fs_statements:
  "filter (\<lambda>c. Ffs \<in> writes c) (cells_before @ final_setup @ cell_predict)
     = [Import ''torch'', Import ''torch.nn'', Import ''torch.nn.functional'', Import ''torchvision'',
        LoadMNIST ''~/.pytorch/MNIST_data/'', Import ''torch.optim'', Import ''matplotlib'',
        Import ''helper'']"
  by (simp add: cells_before_def cell_load_def cell_cross_entropy_def cell_nll_def
      cells_autograd_def cell_loss_def cell_backward_def cell_optimizer_def cell_single_step_def
      cell_update_def final_setup_def cell_predict_def)

lemma notebook_fs:
  fixes fw :: "('e, 'g::monoid_add, 'r, 'f) framework"
  assumes "notebook fw s = Inr t"
  shows "\<exists>f1 f2 f3 f4 ds f5 f6 f7.
        import_module fw ''torch'' (fs s) = Some f1
      \<and> import_module fw ''torch.nn'' f1 = Some f2
      \<and> import_module fw ''torch.nn.functional'' f2 = Some f3
      \<and> import_module fw ''torchvision'' f3 = Some f4
      \<and> mnist fw ''~/.pytorch/MNIST_data/'' f4 = Inr (ds, f5)
      \<and> import_module fw ''torch.optim'' f5 = Some f6
      \<and> import_module fw ''matplotlib'' f6 = Some f7
      \<and> import_module fw ''helper'' f7 = Some (fs t)"
proof -
  let ?a = "MakeLoader 64 True # cell_cross_entropy @ cell_nll @ cells_autograd @ cell_loss
      @ cell_backward"
  let ?b = "SetOptimizer 0.01 # cell_single_step @ cell_update"
  let ?c = "[FirstBatch, FirstImage, Predict, Softmax, ViewClassify]"
  have cb: "cells_before = [Import ''torch'', Import ''torch.nn'', Import ''torch.nn.functional'',
      Import ''torchvision'', LoadMNIST ''~/.pytorch/MNIST_data/''] @ ?a @ [Import ''torch.optim'']
      @ ?b"
    by (simp add: cells_before_def cell_load_def cell_optimizer_def)
  have cp: "cell_predict = [Import ''matplotlib'', Import ''helper''] @ ?c"
    by (simp add: cell_predict_def)
  have na: "\<forall>c\<in>set ?a. Ffs \<notin> writes c" "\<forall>c\<in>set ?b. Ffs \<notin> writes c"
    "\<forall>c\<in>set final_setup. Ffs \<notin> writes c" "\<forall>c\<in>set ?c. Ffs \<notin> writes c"
    by (simp_all add: cell_cross_entropy_def cell_nll_def cells_autograd_def cell_loss_def
        cell_backward_def cell_single_step_def cell_update_def final_setup_def)
  from assms obtain s1 s2 where 1: "run_stmts fw cells_before s = Inr s1"
    and 2: "final_cell fw s1 = Inr s2" and 3: "run_stmts fw cell_predict s2 = Inr t"
    by (auto simp: notebook_def split: sum.splits)
  from 2 obtain s3 where 4: "run_stmts fw final_setup s1 = Inr s3" and 5: "train fw s3 = Inr s2"
    by (auto simp: final_cell_def split: sum.splits)
  from 1 obtain a1 a2 a3 a4 a5 a6 a7 where
    i1: "exec fw (Import ''torch'') s = Inr a1" and i2: "exec fw (Import ''torch.nn'') a1 = Inr a2"
    and i3: "exec fw (Import ''torch.nn.functional'') a2 = Inr a3"
    and i4: "exec fw (Import ''torchvision'') a3 = Inr a4"
    and l: "exec fw (LoadMNIST ''~/.pytorch/MNIST_data/'') a4 = Inr a5"
    and ra: "run_stmts fw ?a a5 = Inr a6"
    and i5: "exec fw (Import ''torch.optim'') a6 = Inr a7"
    and rb: "run_stmts fw ?b a7 = Inr s1"
    unfolding cb run_stmts_append_Inr run_stmts_Cons_Inr run_stmts.simps(1) by blast
  from 3 obtain b1 b2 where i6: "exec fw (Import ''matplotlib'') s2 = Inr b1"
    and i7: "exec fw (Import ''helper'') b1 = Inr b2" and rc: "run_stmts fw ?c b2 = Inr t"
    unfolding cp run_stmts_append_Inr run_stmts_Cons_Inr run_stmts.simps(1) by blast
  from l obtain ds where m: "mnist fw ''~/.pytorch/MNIST_data/'' (fs a4) = Inr (ds, fs a5)"
    by (auto split: sum.splits)
  have "fs a6 = fs a5" by (rule run_stmts_fs[OF ra na(1)])
  moreover have "fs s1 = fs a7" by (rule run_stmts_fs[OF rb na(2)])
  moreover have "fs s3 = fs s1" by (rule run_stmts_fs[OF 4 na(3)])
  moreover have "fs s2 = fs s3" using 5 by (simp add: train_def for_epochs_fs)
  moreover have "fs t = fs b2" by (rule run_stmts_fs[OF rc na(4)])
  ultimately show ?thesis
    using exec_Import_E[OF i1] exec_Import_E[OF i2] exec_Import_E[OF i3] exec_Import_E[OF i4] m
      exec_Import_E[OF i5] exec_Import_E[OF i6] exec_Import_E[OF i7]
    by simp
qed

subsection \<open>Exceptions\<close>






















lemma holds_reset:
  "b \<in> {Bound Ftrainloader, Fed, Bound Fmodel, Bound Fcriterion, Bound Foptimizer}
     \<Longrightarrow> holds b (s\<lparr>running_loss := Some 0\<rparr>) = holds b s"
  by auto





subsection \<open>The loop as stochastic gradient descent\<close>

lemma exec_Step_bound:
  assumes "optimizer s = Some (SGD lr (model_id s))" and "grad s = Some g" and "model s = Some m"
  shows "exec fw Step s = Inr (s\<lparr>model := Some (sgd_update fw lr m g), trace := trace s @ [CallStep]\<rparr>)"
  using assms by simp

lemma exec_Accumulate_bound:
  assumes "exec fw Accumulate s = Inr s'" and "loss s = Some l"
  shows "\<exists>r. running_loss s = Some r
     \<and> s' = s\<lparr>running_loss := Some (r + item l), trace := trace s @ [CallItem (item l)]\<rparr>"
  using assms by (auto split: option.splits)

lemma batch_effect:
  fixes fw :: "('e, 'g::monoid_add, 'r, 'f) framework"
  assumes run: "run_stmts fw (NextBatch ch # training_pass) s = Inr s'"
    and opt: "optimizer s = Some (SGD lr (model_id s))"
  shows "\<exists>m c l r.
        model s = Some m \<and> criterion s = Some c \<and> running_loss s = Some r
      \<and> batch_loss fw c (model_id s) m ch = Inr l
      \<and> output' s' = Some (loss_output l)
      \<and> loss s' = Some (l\<lparr>graph_freed := True\<rparr>)
      \<and> grad s' = Some (autograd fw l)
      \<and> model s' = Some (sgd_update fw lr m (autograd fw l))
      \<and> running_loss s' = Some (r + item l)
      \<and> trace s' = trace s @ [CallNext ch, CallView, CallZeroGrad, CallForward, CallCriterion,
                               CallBackward, CallStep, CallItem (item l)]
      \<and> criterion s' = Some c \<and> optimizer s' = optimizer s \<and> model_id s' = model_id s
      \<and> stdout s' = stdout s \<and> trainloader s' = trainloader s \<and> rng s' = rng s \<and> fs s' = fs s"
proof -
  let ?six = "[NextBatch ch, Flatten, ZeroGrad, Forward Output, Criterion Output, Backward]"
  have sp: "NextBatch ch # training_pass = ?six @ [Step, Accumulate]"
    by (simp add: training_pass_def)
  from run obtain s1 s2 where 1: "run_stmts fw ?six s = Inr s1"
    and 2: "exec fw Step s1 = Inr s2" and 3: "exec fw Accumulate s2 = Inr s'"
    unfolding sp run_stmts_append_Inr run_stmts_Cons_Inr run_stmts.simps(1) by blast
  from fresh_gradient[OF 1 opt] obtain im lb im' m out c v where
    f: "collate ch = (Inr (im, lb) :: 'e error + real tensor \<times> nat list)"
       "flatten im = (Inr im' :: 'e error + real tensor)"
       "model s1 = Some m" "forward m im' = (Inr out :: 'e error + real tensor)"
       "criterion s1 = Some c" "loss_fn fw c out lb = Inr v"
       "loss s1 = Some \<lparr>item = v, loss_criterion = c,
            loss_output = \<lparr>out_value = out, out_graph = Some (model_id s1, m, im')\<rparr>,
            loss_target = lb, graph_freed = True\<rparr>"
       "grad s1 = Some (autograd fw \<lparr>item = v, loss_criterion = c,
            loss_output = \<lparr>out_value = out, out_graph = Some (model_id s1, m, im')\<rparr>,
            loss_target = lb, graph_freed = False\<rparr>)"
       "optimizer s1 = Some (SGD lr (model_id s1))"
    by blast
  let ?l = "\<lparr>item = v, loss_criterion = c,
            loss_output = \<lparr>out_value = out, out_graph = Some (model_id s1, m, im')\<rparr>,
            loss_target = lb, graph_freed = False\<rparr>"
  have w: "\<forall>c\<in>set ?six. Fmodel \<notin> writes c \<and> Fmodel_id \<notin> writes c \<and> Fcriterion \<notin> writes c
      \<and> Foptimizer \<notin> writes c \<and> Frunning_loss \<notin> writes c \<and> Fstdout \<notin> writes c
      \<and> Ftrainloader \<notin> writes c \<and> Frng \<notin> writes c \<and> Ffs \<notin> writes c"
    by simp
  have fr: "model s1 = model s" "model_id s1 = model_id s" "criterion s1 = criterion s"
    "optimizer s1 = optimizer s" "running_loss s1 = running_loss s" "stdout s1 = stdout s"
    "trainloader s1 = trainloader s" "rng s1 = rng s" "fs s1 = fs s"
    using run_stmts_model[OF 1] run_stmts_model_id[OF 1] run_stmts_criterion[OF 1]
      run_stmts_optimizer[OF 1] run_stmts_running_loss[OF 1] run_stmts_stdout[OF 1]
      run_stmts_trainloader[OF 1] run_stmts_rng[OF 1] run_stmts_fs[OF 1] w
    by blast+
  have tr: "trace s1 = trace s @ [CallNext ch, CallView, CallZeroGrad, CallForward, CallCriterion,
      CallBackward]"
  proof -
    from 1 obtain a b c d e where
      e: "exec fw (NextBatch ch) s = Inr a" "exec fw Flatten a = Inr b"
         "exec fw ZeroGrad b = Inr c" "exec fw (Forward Output) c = Inr d"
         "exec fw (Criterion Output) d = Inr e" "exec fw Backward e = Inr s1"
      unfolding run_stmts_Cons_Inr run_stmts.simps(1) by blast
    from exec_trace(7)[OF e(1)] exec_trace(1)[OF e(2)] exec_trace(2)[OF e(3)]
      exec_trace(3)[OF e(4)] exec_trace(4)[OF e(5)] exec_trace(5)[OF e(6)]
    show ?thesis by simp
  qed
  have bl: "batch_loss fw c (model_id s) m ch = Inr ?l"
    using f(1,2,4,6) fr(2) by (simp add: batch_loss_def)
  from exec_Step_bound[OF f(9) f(8) f(3), of fw] 2
  have s2: "s2 = s1\<lparr>model := Some (sgd_update fw lr m (autograd fw ?l)),
      trace := trace s1 @ [CallStep]\<rparr>" by simp
  have "loss s2 = Some (?l\<lparr>graph_freed := True\<rparr>)" using f(7) by (simp add: s2)
  from exec_Accumulate_bound[OF 3 this] obtain r where
    r: "running_loss s2 = Some r"
    and s': "s' = s2\<lparr>running_loss := Some (r + item (?l\<lparr>graph_freed := True\<rparr>)),
        trace := trace s2 @ [CallItem (item (?l\<lparr>graph_freed := True\<rparr>))]\<rparr>" by blast
  have o: "output' s1 = Some (loss_output ?l)"
  proof -
    from 1 obtain a b c d e where
      e: "exec fw (NextBatch ch) s = Inr a" "exec fw Flatten a = Inr b"
         "exec fw ZeroGrad b = Inr c" "exec fw (Forward Output) c = Inr d"
         "exec fw (Criterion Output) d = Inr e" "exec fw Backward e = Inr s1"
      unfolding run_stmts_Cons_Inr run_stmts.simps(1) by blast
    from exec_Criterion_E[OF e(5)] obtain c' out' lb' l' where
      d: "get_var Output d = Some out'"
      and e5: "e = d\<lparr>loss := Some \<lparr>item = l', loss_criterion = c', loss_output = out',
                               loss_target = lb', graph_freed = False\<rparr>,
                trace := trace d @ [CallCriterion]\<rparr>" by blast
    from e(6) have "loss s1 = map_option (\<lambda>l. l\<lparr>graph_freed := True\<rparr>) (loss e) \<and> output' s1 = output' e"
      by (auto split: option.splits prod.splits if_splits)
    with e5 d f(7) show ?thesis by (auto simp: get_var_def)
  qed
  show ?thesis
    using f(3,5) fr r bl o f(7,8) tr
    by (intro exI[of _ m] exI[of _ c] exI[of _ ?l] exI[of _ r]) (simp add: s' s2)
qed


lemma batches_run:
  fixes fw :: "('e, 'g::monoid_add, 'r, 'f) framework"
  assumes "run_stmts fw (concat (map (\<lambda>ch. NextBatch ch # training_pass) chs)) s = Inr s'"
    and "optimizer s = Some (SGD lr (model_id s))"
    and "model s = Some m" and "criterion s = Some c" and "running_loss s = Some r"
  shows "\<exists>vs m'. sgd_epoch fw lr c (model_id s) m chs = Inr (vs, m')
      \<and> length vs = length chs
      \<and> model s' = Some m'
      \<and> running_loss s' = Some (r + sum_list vs)
      \<and> trace s' = trace s @ concat (map (\<lambda>b. CallNext (fst b) # pass_calls (snd b)) (zip chs vs))
      \<and> criterion s' = Some c \<and> optimizer s' = optimizer s \<and> model_id s' = model_id s
      \<and> stdout s' = stdout s \<and> trainloader s' = trainloader s \<and> rng s' = rng s \<and> fs s' = fs s"
  using assms
proof (induction chs arbitrary: s m r)
  case Nil
  then show ?case by simp
next
  case (Cons ch chs)
  have eq: "concat (map (\<lambda>ch. NextBatch ch # training_pass) (ch # chs))
      = (NextBatch ch # training_pass) @ concat (map (\<lambda>ch. NextBatch ch # training_pass) chs)"
    by simp
  from Cons.prems(1) obtain s1 where 1: "run_stmts fw (NextBatch ch # training_pass) s = Inr s1"
    and 2: "run_stmts fw (concat (map (\<lambda>ch. NextBatch ch # training_pass) chs)) s1 = Inr s'"
    unfolding eq run_stmts_append_Inr by blast
  from batch_effect[OF 1 Cons.prems(2)] Cons.prems(3,4,5) obtain l where
    b: "batch_loss fw c (model_id s) m ch = Inr l"
       "model s1 = Some (sgd_update fw lr m (autograd fw l))"
       "running_loss s1 = Some (r + item l)"
       "trace s1 = trace s @ [CallNext ch, CallView, CallZeroGrad, CallForward, CallCriterion,
                               CallBackward, CallStep, CallItem (item l)]"
       "criterion s1 = Some c" "optimizer s1 = optimizer s" "model_id s1 = model_id s"
       "stdout s1 = stdout s" "trainloader s1 = trainloader s" "rng s1 = rng s" "fs s1 = fs s"
    by auto
  have o1: "optimizer s1 = Some (SGD lr (model_id s1))" using b(6,7) Cons.prems(2) by simp
  from Cons.IH[OF 2 o1 b(2) b(5) b(3)] obtain vs m' where
    i: "sgd_epoch fw lr c (model_id s1) (sgd_update fw lr m (autograd fw l)) chs = Inr (vs, m')"
       "length vs = length chs" "model s' = Some m'"
       "running_loss s' = Some (r + item l + sum_list vs)"
       "trace s' = trace s1 @ concat (map (\<lambda>b. CallNext (fst b) # pass_calls (snd b)) (zip chs vs))"
       "criterion s' = Some c" "optimizer s' = optimizer s1" "model_id s' = model_id s1"
       "stdout s' = stdout s1" "trainloader s' = trainloader s1" "rng s' = rng s1" "fs s' = fs s1"
    by blast
  have "sgd_epoch fw lr c (model_id s) m (ch # chs) = Inr (item l # vs, m')"
    using b(1) i(1) b(7) by simp
  moreover have "trace s' = trace s @ concat (map (\<lambda>b. CallNext (fst b) # pass_calls (snd b))
      (zip (ch # chs) (item l # vs)))"
    using i(5) b(4) by (simp add: pass_calls_def)
  ultimately show ?case
    using i b by (intro exI[of _ "item l # vs"] exI[of _ m']) (simp add: add.assoc)
qed

lemma epoch_run:
  fixes fw :: "('e, 'g::monoid_add, 'r, 'f) framework"
  assumes "epoch fw e s = Inr s'" and "trainloader s = Some ld"
    and "optimizer s = Some (SGD lr (model_id s))"
    and "model s = Some m" and "criterion s = Some c"
  shows "\<exists>vs m'. sgd_epoch fw lr c (model_id s) m (fst (iter_loader fw ld (rng s))) = Inr (vs, m')
      \<and> length vs = length (fst (iter_loader fw ld (rng s)))
      \<and> model s' = Some m'
      \<and> stdout s' = stdout s @ [TrainingLoss (sum_list vs / real (len_loader ld))]
      \<and> len_loader ld \<noteq> 0
      \<and> trace s' = trace s @ epoch_calls (zip (fst (iter_loader fw ld (rng s))) vs)
      \<and> rng s' = snd (iter_loader fw ld (rng s))
      \<and> criterion s' = Some c \<and> optimizer s' = optimizer s \<and> model_id s' = model_id s
      \<and> trainloader s' = trainloader s \<and> fs s' = fs s"
proof -
  obtain chs r' where it: "iter_loader fw ld (rng s) = (chs, r')" by (cases "iter_loader fw ld (rng s)")
  define s1 where "s1 = s\<lparr>running_loss := Some 0, rng := r', trace := trace s @ [CallIter]\<rparr>"
  from assms(1,2) it have run: "run_stmts fw (epoch_stmts chs) s1 = Inr s'"
    by (simp add: epoch_def s1_def)
  then obtain s2 where 1: "run_stmts fw (concat (map (\<lambda>ch. NextBatch ch # training_pass) chs)) s1 = Inr s2"
    and 2: "exec fw PrintLoss s2 = Inr s'"
    unfolding epoch_stmts_def run_stmts_append_Inr run_stmts_Cons_Inr run_stmts.simps(1) by blast
  have h: "optimizer s1 = Some (SGD lr (model_id s1))" "model s1 = Some m" "criterion s1 = Some c"
    "running_loss s1 = Some 0"
    using assms(3,4,5) by (simp_all add: s1_def)
  from batches_run[OF 1 h] obtain vs m' where
    b: "sgd_epoch fw lr c (model_id s1) m chs = Inr (vs, m')" "length vs = length chs"
       "model s2 = Some m'" "running_loss s2 = Some (0 + sum_list vs)"
       "trace s2 = trace s1 @ concat (map (\<lambda>b. CallNext (fst b) # pass_calls (snd b)) (zip chs vs))"
       "criterion s2 = Some c" "optimizer s2 = optimizer s1" "model_id s2 = model_id s1"
       "stdout s2 = stdout s1" "trainloader s2 = trainloader s1" "rng s2 = rng s1" "fs s2 = fs s1"
    by blast
  from exec_PrintLoss[OF 2] b(4) b(10) assms(2) have
    p: "len_loader ld \<noteq> 0"
       "stdout s' = stdout s2 @ [TrainingLoss (sum_list vs / real (len_loader ld))]"
       "trace s' = trace s2 @ [CallLen]"
    by (auto simp: s1_def)
  from exec_frame[OF 2] have fr: "model s' = model s2" "criterion s' = criterion s2"
    "optimizer s' = optimizer s2" "model_id s' = model_id s2" "trainloader s' = trainloader s2"
    "rng s' = rng s2" "fs s' = fs s2"
    by simp_all
  show ?thesis
    using b p fr it
    by (intro exI[of _ vs] exI[of _ m']) (simp add: s1_def epoch_calls_def)
qed

lemma epochs_run:
  fixes fw :: "('e, 'g::monoid_add, 'r, 'f) framework"
  assumes "for_epochs fw es s = Inr s'" and "trainloader s = Some ld"
    and "optimizer s = Some (SGD lr (model_id s))"
    and "model s = Some m" and "criterion s = Some c"
  shows "\<exists>qs m'. sgd_epochs fw lr c (model_id s) ld (length es) (rng s) m = Inr (qs, m', rng s')
      \<and> length qs = length es
      \<and> model s' = Some m'
      \<and> stdout s' = stdout s @ map TrainingLoss qs
      \<and> (es \<noteq> [] \<longrightarrow> len_loader ld \<noteq> 0)
      \<and> criterion s' = Some c \<and> optimizer s' = optimizer s \<and> model_id s' = model_id s
      \<and> trainloader s' = trainloader s \<and> fs s' = fs s"
  using assms
proof (induction es arbitrary: s m)
  case Nil
  then show ?case by simp
next
  case (Cons e es)
  from Cons.prems(1) obtain s1 where 1: "epoch fw e s = Inr s1" and 2: "for_epochs fw es s1 = Inr s'"
    by (auto split: sum.splits)
  from epoch_run[OF 1 Cons.prems(2,3,4,5)] obtain vs m1 where
    a: "sgd_epoch fw lr c (model_id s) m (fst (iter_loader fw ld (rng s))) = Inr (vs, m1)"
       "model s1 = Some m1"
       "stdout s1 = stdout s @ [TrainingLoss (sum_list vs / real (len_loader ld))]"
       "len_loader ld \<noteq> 0"
       "rng s1 = snd (iter_loader fw ld (rng s))"
       "criterion s1 = Some c" "optimizer s1 = optimizer s" "model_id s1 = model_id s"
       "trainloader s1 = trainloader s" "fs s1 = fs s"
    by blast
  have h: "trainloader s1 = Some ld" "optimizer s1 = Some (SGD lr (model_id s1))"
    using a(7,8,9) Cons.prems(2,3) by simp_all
  from Cons.IH[OF 2 h a(2) a(6)] obtain qs m' where
    i: "sgd_epochs fw lr c (model_id s1) ld (length es) (rng s1) m1 = Inr (qs, m', rng s')"
       "length qs = length es" "model s' = Some m'"
       "stdout s' = stdout s1 @ map TrainingLoss qs"
       "criterion s' = Some c" "optimizer s' = optimizer s1" "model_id s' = model_id s1"
       "trainloader s' = trainloader s1" "fs s' = fs s1"
    by blast
  have "sgd_epochs fw lr c (model_id s) ld (length (e # es)) (rng s) m
      = Inr (sum_list vs / real (len_loader ld) # qs, m', rng s')"
    using a(1) i(1) a(5,8) by simp
  then show ?case
    using i a
    by (intro exI[of _ "sum_list vs / real (len_loader ld) # qs"] exI[of _ m']) simp
qed

lemma sgd_fw_simps [simp]:
  "mnist sgd_fw = mnist demo_fw" "init_linear sgd_fw = init_linear demo_fw"
  "shuffle sgd_fw = shuffle demo_fw" "uninitialised sgd_fw = uninitialised demo_fw"
  "loss_fn sgd_fw = loss_fn demo_fw" "autograd sgd_fw = autograd demo_fw"
  "import_module sgd_fw = import_module demo_fw"
  "sgd_update sgd_fw lr m g = map (shift_bias (lr * g)) m"
  by (simp_all add: sgd_fw_def)

lemma exec_NewModel_zero:
  assumes "init_linear fw = init_linear demo_fw"
  shows "exec fw (NewModel [NewLinear 784 128, NewReLU, NewLinear 128 64, NewReLU, NewLinear 64 10,
                  NewLogSoftmax 1]) s
     = Inr (s\<lparr>model := Some (zero_stack @ [LogSoftmax 1]), model_id := Suc (model_id s), grad := None,
              rng := Suc (Suc (Suc (rng s))), trace := trace s @ [CallSequential]\<rparr>)"
    and "exec fw (NewModel [NewLinear 784 128, NewReLU, NewLinear 128 64, NewReLU, NewLinear 64 10]) s
     = Inr (s\<lparr>model := Some zero_stack, model_id := Suc (model_id s), grad := None,
              rng := Suc (Suc (Suc (rng s))), trace := trace s @ [CallSequential]\<rparr>)"
  by (simp_all add: assms zero_stack_def)


lemma sgd_fw_pass:
  "\<exists>s s2. run_stmts sgd_fw final_setup demo_loaded = Inr s
     \<and> optimizer s = Some (SGD 0.003 (model_id s))
     \<and> model s = Some (zero_stack @ [LogSoftmax 1])
     \<and> run_stmts sgd_fw (NextBatch [(zero_image, 3)] # training_pass) (s\<lparr>running_loss := Some 0\<rparr>)
          = Inr s2
     \<and> grad s2 = Some 1
     \<and> output' s2 = Some \<lparr>out_value = \<lparr>shape = [1, 10], data = replicate 10 (- ln 10)\<rparr>,
           out_graph = Some (1, zero_stack @ [LogSoftmax 1], zero_rows 1 784)\<rparr>
     \<and> model s2 = Some (map (shift_bias (0.003 * 1)) (zero_stack @ [LogSoftmax 1]))"
  by (simp add: final_setup_def training_pass_def demo_loaded_def demo_state_def demo_eval
      exec_NewModel_zero
      del: exec.simps(3) One_nat_def)


lemma shifted_model_differs:
  "map (shift_bias (0.003 * 1)) (zero_stack @ [LogSoftmax 1]) \<noteq> zero_stack @ [LogSoftmax 1]"
  by (simp add: zero_stack_def shift_bias_def)

lemma demo_epoch:
  "\<exists>s s'. run_stmts demo_fw final_setup demo_loaded = Inr s
     \<and> trainloader s = Some \<lparr>dataset = demo_set, batch_size = 64, shuffled = True\<rparr>
     \<and> optimizer s = Some (SGD 0.003 (model_id s))
     \<and> model s = Some (zero_stack @ [LogSoftmax 1])
     \<and> criterion s = Some NLLLoss
     \<and> iter_loader demo_fw \<lparr>dataset = demo_set, batch_size = 64, shuffled = True\<rparr> (rng s)
          = ([replicate 64 (zero_image, 3), [(zero_image, 3)]], Suc (rng s))
     \<and> epoch demo_fw 0 (s\<lparr>running_loss := Some 1000\<rparr>) = Inr s'"
  by (simp add: final_setup_def epoch_def epoch_stmts_def training_pass_def len_loader_def
      demo_loaded_def demo_state_def demo_eval
      del: exec.simps(3) One_nat_def)

lemma demo_sgd_epoch:
  "sgd_epoch demo_fw lr c k (zero_stack @ [LogSoftmax 1])
      [replicate 64 (zero_image, 3), [(zero_image, 3)]]
     = Inr ([64, 1], zero_stack @ [LogSoftmax 1])"
  by (simp add: batch_loss_def demo_eval del: One_nat_def)

lemma sgd_fw_after_pass:
  "\<exists>s s0. run_stmts sgd_fw final_setup demo_loaded = Inr s
     \<and> run_stmts sgd_fw (NextBatch [(zero_image, 3)] # training_pass) (s\<lparr>running_loss := Some 0\<rparr>)
          = Inr s0
     \<and> model s0 = Some (map (shift_bias (0.003 * 1)) (zero_stack @ [LogSoftmax 1]))
     \<and> grad s0 = Some 1
     \<and> optimizer s0 = Some (SGD 0.003 (model_id s0))"
  by (simp add: final_setup_def training_pass_def demo_loaded_def demo_state_def demo_eval
      exec_NewModel_zero
      del: exec.simps(3) One_nat_def)

lemma sgd_fw_next:
  assumes "optimizer s0 = Some (SGD lr (model_id s0))" and "grad s0 = Some g"
  shows "\<exists>s' t u. exec sgd_fw (NextBatch [(zero_image, 3)]) s0 = Inr s'
     \<and> run_stmts sgd_fw [NextBatch [(zero_image, 3)], Flatten] s0 = Inr t
     \<and> run_stmts sgd_fw [NextBatch [(zero_image, 3)], Flatten, ZeroGrad] s0 = Inr u
     \<and> grad u = Some 0"
  using assms by (simp add: demo_eval del: One_nat_def)

lemma chunks_demo_set_65: "chunks 65 (rev demo_set) = [replicate 65 (zero_image, 3)]"
proof -
  have "chunks 65 (replicate 65 (zero_image, 3::nat))
      = take 65 (replicate 65 (zero_image, 3)) # chunks 65 (drop 65 (replicate 65 (zero_image, 3)))"
    by (rule chunks_unfold) simp_all
  then show ?thesis by (simp add: demo_set_def)
qed

lemma demo_final_cell_64:
  "\<exists>t. final_cell demo_fw demo_loaded = Inr t
      \<and> stdout t = [TrainingLoss (65 / 2), TrainingLoss (65 / 2), TrainingLoss (65 / 2),
                    TrainingLoss (65 / 2), TrainingLoss (65 / 2)]"
  by (simp add: final_cell_def final_setup_def train_def epochs_def epoch_def epoch_stmts_def
      training_pass_def len_loader_def demo_loaded_def demo_state_def demo_eval upt_rec
      del: exec.simps(3) One_nat_def)

lemma demo_final_cell_65:
  "\<exists>t. final_cell demo_fw
          (demo_loaded\<lparr>trainloader := Some \<lparr>dataset = demo_set, batch_size = 65, shuffled = True\<rparr>\<rparr>)
        = Inr t
      \<and> stdout t = [TrainingLoss 65, TrainingLoss 65, TrainingLoss 65, TrainingLoss 65,
                    TrainingLoss 65]"
  by (simp add: final_cell_def final_setup_def train_def epochs_def epoch_def epoch_stmts_def
      training_pass_def len_loader_def demo_loaded_def demo_state_def demo_eval upt_rec
      chunks_demo_set_65
      del: exec.simps(3) One_nat_def)



lemma failed_download_notebook:
  "notebook (demo_fw\<lparr>mnist := \<lambda>d f. Inl ()\<rparr>) demo_state = Inl (FrameworkError ())"
  by (simp add: notebook_def cells_before_def cell_load_def demo_state_def)

lemma writing_imports_notebook:
  "\<exists>t. notebook (demo_fw\<lparr>import_module := \<lambda>name f. Some (f + 10)\<rparr>) demo_state = Inr t
      \<and> fs t = 71"
  by (simp add: softmax_demo notebook_def cells_before_def cell_load_def cell_cross_entropy_def
      cell_nll_def cells_autograd_def cell_loss_def cell_backward_def cell_optimizer_def
      cell_single_step_def cell_update_def cell_predict_def readable_def first_weight_zero
      final_cell_def final_setup_def train_def epochs_def epoch_def epoch_stmts_def
      training_pass_def len_loader_def
      demo_state_def demo_eval exec_NewModel_zero upt_rec first_slice_zero_batch view_as_zero
      resize_zero_batch
      del: exec.simps(3) One_nat_def)

lemma reading_imports_cell_load:
  "run_stmts (demo_fw\<lparr>import_module := \<lambda>name f. if f = 0 then None else Some f\<rparr>) cell_load
      demo_state = Inl ModuleNotFoundError"
  "\<exists>t. run_stmts (demo_fw\<lparr>import_module := \<lambda>name f. if f = 0 then None else Some f\<rparr>) cell_load
      (demo_state\<lparr>fs := 1\<rparr>) = Inr t"
  by (simp_all add: cell_load_def demo_state_def)

lemma demo_first_batch: "\<exists>u. exec demo_fw FirstBatch demo_loaded = Inr u"
  by (simp add: demo_loaded_def demo_state_def demo_eval del: One_nat_def)

section \<open>The claims\<close>
section \<open>The claims\<close>

subsection \<open>C1: forward pass, loss, backward pass and update, batch after batch\<close>



subsection \<open>C2: an epoch is one pass over the training set\<close>

text \<open>
  C2. The outer loop \<^verbatim>\<open>for e in range(epochs)\<close> runs \<open>epochs = 5\<close> times; each time the inner
  loop makes one training pass for every batch the loader yields, which is one full pass
  over the training set; and the counter \<^verbatim>\<open>e\<close> is used for nothing else.

  When the sampler keeps its contract (\<open>sampler_ok\<close>) and the loop runs to its end, the calls
  are those of five epochs, every epoch has \<^verbatim>\<open>len(trainloader)\<close> batches, and the samples of
  its batches are the samples of the training set, each as often as the set holds it.
  The body of the outer loop does the same whatever the value of \<^verbatim>\<open>e\<close>.
\<close>

theorem epoch_is_one_full_pass:
  assumes "train fw s = Inr s'" and "trainloader s = Some ld" and "sampler_ok fw"
  shows "epochs = 5
      \<and> (\<exists>bss. length bss = 5
            \<and> trace s' = trace s @ concat (map epoch_calls bss)
            \<and> list_all (\<lambda>bs. length bs = len_loader ld
                              \<and> mset (concat (map fst bs)) = mset (dataset ld)) bss)
      \<and> epoch fw e t = epoch fw e' t"
proof -
  from for_epochs_effect[OF assms(1)[unfolded train_def] assms(2)] obtain bss where
    bss: "length bss = epochs" "trace s' = trace s @ concat (map epoch_calls bss)"
    "list_all (\<lambda>bs. \<exists>r. map fst bs = fst (iter_loader fw ld r)) bss" "len_loader ld \<noteq> 0"
    by (auto simp: epochs_def)
  from len_loader_batch_size[OF bss(4)] have b: "0 < batch_size ld" by simp
  have "list_all (\<lambda>bs. length bs = len_loader ld \<and> mset (concat (map fst bs)) = mset (dataset ld)) bss"
    unfolding list_all_iff
  proof
    fix bs assume "bs \<in> set bss"
    with bss(3) obtain r where r: "map fst bs = fst (iter_loader fw ld r)"
      by (auto simp: list_all_iff)
    from iter_loader_cover[OF assms(3) b, of r] r
    have "mset (concat (map fst bs)) = mset (dataset ld)" "length (map fst bs) = len_loader ld"
      by simp_all
    then show "length bs = len_loader ld \<and> mset (concat (map fst bs)) = mset (dataset ld)"
      by simp
  qed
  moreover have "epoch fw e t = epoch fw e' t" by (simp add: epoch_def)
  ultimately show ?thesis using bss by (auto simp: epochs_def)
qed

text \<open>On the example framework: five epochs of two batches, 64 and 1 of the 65 samples.\<close>

theorem epoch_is_one_full_pass_witness:
  "\<exists>s s'. run_stmts demo_fw final_setup demo_loaded = Inr s \<and> train demo_fw s = Inr s'
     \<and> sampler_ok demo_fw
     \<and> (\<exists>bss. length bss = 5
            \<and> trace s' = trace s @ concat (map epoch_calls bss)
            \<and> list_all (\<lambda>bs. length bs = 2 \<and> mset (concat (map fst bs)) = mset demo_set) bss)
     \<and> epoch demo_fw 0 s = epoch demo_fw 4 s"
proof -
  from demo_train obtain s s' where 1: "run_stmts demo_fw final_setup demo_loaded = Inr s"
    and 2: "train demo_fw s = Inr s'"
    and 3: "trainloader s = Some \<lparr>dataset = demo_set, batch_size = 64, shuffled = True\<rparr>" by blast
  have l: "len_loader \<lparr>dataset = demo_set, batch_size = 64, shuffled = True\<rparr> = 2"
    by (simp add: len_loader_def)
  from epoch_is_one_full_pass[OF 2 3 sampler_ok_demo, of 0 s 4] 1 2 sampler_ok_demo
  show ?thesis unfolding l loader.simps by blast
qed

subsection \<open>C3: what the names \<^verbatim>\<open>logits\<close> and \<^verbatim>\<open>logps\<close> hold\<close>

text \<open>
  Claim C3. In each of the three cells that compute a loss, the value bound to
  \<^verbatim>\<open>logits\<close> or \<^verbatim>\<open>logps\<close> is what the model's layer stack returns for the flattened
  images, and the criterion is given that very value. In the cell with
  \<^verbatim>\<open>nn.CrossEntropyLoss\<close> (lines 128 to 148) the stack ends in the last linear layer, so
  \<^verbatim>\<open>logits\<close> is that layer's output, which nothing has normalised. In the two cells with
  \<^verbatim>\<open>nn.NLLLoss\<close> (lines 175 to 215, named \<^verbatim>\<open>logps\<close>, and lines 447 to 460, named \<^verbatim>\<open>logits\<close>)
  the stack ends in \<^verbatim>\<open>nn.LogSoftmax(dim=1)\<close>: the value is the output \<open>raw\<close> of the last
  linear layer, of ten columns, minus the logarithm of the sum of the exponentials of its row,
  and so is normalised, every row a list of log-probabilities. On the example framework
  this value differs from the raw scores, as the theorem after this one shows.
\<close>

theorem logits_are_the_models_output:
  fixes fw :: "('e, 'g::monoid_add, 'r, 'f) framework"
  shows "(run_stmts fw cell_cross_entropy s = Inr s' \<longrightarrow>
      (\<exists>W1 b1 W2 b2 W3 b3 im out.
        model s' = Some [Linear 784 128 W1 b1, ReLU, Linear 128 64 W2 b2, ReLU, Linear 64 10 W3 b3]
      \<and> images s' = Some im
      \<and> forward [Linear 784 128 W1 b1, ReLU, Linear 128 64 W2 b2, ReLU, Linear 64 10 W3 b3] im
          = (Inr out :: 'e error + real tensor)
      \<and> map_option out_value (logits s') = Some out
      \<and> map_option loss_output (loss s') = logits s'
      \<and> map_option loss_criterion (loss s') = Some CrossEntropyLoss))
   \<and> (v = Logps \<and> run_stmts fw cell_nll s = Inr s' \<or> v = Logits \<and> run_stmts fw cell_loss s = Inr s'
        \<longrightarrow>
      (\<exists>W1 b1 W2 b2 W3 b3 im raw out B.
        model s' = Some [Linear 784 128 W1 b1, ReLU, Linear 128 64 W2 b2, ReLU,
                         Linear 64 10 W3 b3, LogSoftmax 1]
      \<and> images s' = Some im
      \<and> forward [Linear 784 128 W1 b1, ReLU, Linear 128 64 W2 b2, ReLU, Linear 64 10 W3 b3] im
          = (Inr raw :: 'e error + real tensor)
      \<and> shape raw = [B, 10]
      \<and> log_softmax 1 raw = (Inr out :: 'e error + real tensor)
      \<and> data out = map (\<lambda>k. data raw ! k - ln (\<Sum>x\<leftarrow>along 1 raw k. exp x)) [0..<B * 10]
      \<and> normalised out
      \<and> map_option out_value (get_var v s') = Some out
      \<and> map_option loss_output (loss s') = get_var v s'
      \<and> map_option loss_criterion (loss s') = Some NLLLoss))"
proof (intro conjI impI)
  assume "run_stmts fw cell_cross_entropy s = Inr s'"
  then show "\<exists>W1 b1 W2 b2 W3 b3 im out.
        model s' = Some [Linear 784 128 W1 b1, ReLU, Linear 128 64 W2 b2, ReLU, Linear 64 10 W3 b3]
      \<and> images s' = Some im
      \<and> forward [Linear 784 128 W1 b1, ReLU, Linear 128 64 W2 b2, ReLU, Linear 64 10 W3 b3] im
          = (Inr out :: 'e error + real tensor)
      \<and> map_option out_value (logits s') = Some out
      \<and> map_option loss_output (loss s') = logits s'
      \<and> map_option loss_criterion (loss s') = Some CrossEntropyLoss"
    by (rule cross_entropy_cell)
next
  assume a: "v = Logps \<and> run_stmts fw cell_nll s = Inr s' \<or> v = Logits \<and> run_stmts fw cell_loss s = Inr s'"
  have "\<exists>tail e. run_stmts fw ([NewModel [NewLinear 784 128, NewReLU, NewLinear 128 64, NewReLU,
               NewLinear 64 10, NewLogSoftmax 1],
             SetCriterion NLLLoss, FirstBatch, Flatten, Forward v, Criterion v] @ tail) s = Inr s'
          \<and> (tail = [] \<or> tail = [Show e])"
    using a
  proof
    assume "v = Logps \<and> run_stmts fw cell_nll s = Inr s'"
    then have "run_stmts fw ([NewModel [NewLinear 784 128, NewReLU, NewLinear 128 64, NewReLU,
               NewLinear 64 10, NewLogSoftmax 1],
             SetCriterion NLLLoss, FirstBatch, Flatten, Forward v, Criterion v] @ [Show ShowLoss]) s = Inr s'"
      by (simp add: cell_nll_def)
    then show ?thesis by blast
  next
    assume "v = Logits \<and> run_stmts fw cell_loss s = Inr s'"
    then have "run_stmts fw ([NewModel [NewLinear 784 128, NewReLU, NewLinear 128 64, NewReLU,
               NewLinear 64 10, NewLogSoftmax 1],
             SetCriterion NLLLoss, FirstBatch, Flatten, Forward v, Criterion v] @ []) s = Inr s'"
      by (simp add: cell_loss_def)
    then show ?thesis by blast
  qed
  then obtain tail e where "run_stmts fw ([NewModel [NewLinear 784 128, NewReLU, NewLinear 128 64, NewReLU,
               NewLinear 64 10, NewLogSoftmax 1],
             SetCriterion NLLLoss, FirstBatch, Flatten, Forward v, Criterion v] @ tail) s = Inr s'"
     "tail = [] \<or> tail = [Show e]" by blast
  then show "\<exists>W1 b1 W2 b2 W3 b3 im raw out B.
        model s' = Some [Linear 784 128 W1 b1, ReLU, Linear 128 64 W2 b2, ReLU,
                         Linear 64 10 W3 b3, LogSoftmax 1]
      \<and> images s' = Some im
      \<and> forward [Linear 784 128 W1 b1, ReLU, Linear 128 64 W2 b2, ReLU, Linear 64 10 W3 b3] im
          = (Inr raw :: 'e error + real tensor)
      \<and> shape raw = [B, 10]
      \<and> log_softmax 1 raw = (Inr out :: 'e error + real tensor)
      \<and> data out = map (\<lambda>k. data raw ! k - ln (\<Sum>x\<leftarrow>along 1 raw k. exp x)) [0..<B * 10]
      \<and> normalised out
      \<and> map_option out_value (get_var v s') = Some out
      \<and> map_option loss_output (loss s') = get_var v s'
      \<and> map_option loss_criterion (loss s') = Some NLLLoss"
    by (rule nll_cell)
qed

theorem logits_are_the_models_output_witness:
  "(\<exists>s'. run_stmts demo_fw cell_cross_entropy demo_loaded = Inr s'
        \<and> map_option out_value (logits s') = Some (zero_rows 64 10)
        \<and> forward zero_stack (zero_rows 64 784) = (Inr (zero_rows 64 10) :: unit error + real tensor)
        \<and> map_option loss_output (loss s') = logits s')
   \<and> (\<exists>s' raw out. run_stmts demo_fw cell_loss demo_loaded = Inr s'
        \<and> forward zero_stack (zero_rows 64 784) = (Inr raw :: unit error + real tensor)
        \<and> log_softmax 1 raw = (Inr out :: unit error + real tensor)
        \<and> normalised out
        \<and> map_option out_value (logits s') = Some out
        \<and> map_option loss_output (loss s') = logits s'
        \<and> out \<noteq> raw)"
proof -
  from demo_cell_cross_entropy obtain t where
    t: "run_stmts demo_fw cell_cross_entropy demo_loaded = Inr t"
       "map_option out_value (logits t) = Some (zero_rows 64 10)" by blast
  from logits_are_the_models_output[where fw = demo_fw and s = demo_loaded and s' = t] t(1)
  have "map_option loss_output (loss t) = logits t" by blast
  with t have a: "\<exists>s'. run_stmts demo_fw cell_cross_entropy demo_loaded = Inr s'
        \<and> map_option out_value (logits s') = Some (zero_rows 64 10)
        \<and> forward zero_stack (zero_rows 64 784) = (Inr (zero_rows 64 10) :: unit error + real tensor)
        \<and> map_option loss_output (loss s') = logits s'"
    using forward_zero_stack[of 64] by blast
  from demo_cell_loss obtain u where
    u: "run_stmts demo_fw cell_loss demo_loaded = Inr u"
       "model u = Some (zero_stack @ [LogSoftmax 1])"
       "images u = Some (zero_rows 64 784)"
       "map_option out_value (logits u) = Some \<lparr>shape = [64, 10], data = replicate 640 (- ln 10)\<rparr>"
    by blast
  from logits_are_the_models_output[where fw = demo_fw and s = demo_loaded and s' = u and v = Logits]
    u(1)
  obtain W1 b1 W2 b2 W3 b3 im raw out where
    r: "model u = Some [Linear 784 128 W1 b1, ReLU, Linear 128 64 W2 b2, ReLU,
                         Linear 64 10 W3 b3, LogSoftmax 1]"
      "images u = Some im"
      "forward [Linear 784 128 W1 b1, ReLU, Linear 128 64 W2 b2, ReLU, Linear 64 10 W3 b3] im
          = (Inr raw :: unit error + real tensor)"
      "log_softmax 1 raw = (Inr out :: unit error + real tensor)"
      "normalised out"
      "map_option out_value (get_var Logits u) = Some out"
      "map_option loss_output (loss u) = get_var Logits u"
    by blast
  have "[Linear 784 128 W1 b1, ReLU, Linear 128 64 W2 b2, ReLU, Linear 64 10 W3 b3] @ [LogSoftmax 1]
      = zero_stack @ [LogSoftmax 1]"
    using u(2)[unfolded r(1)] by simp
  then have z: "[Linear 784 128 W1 b1, ReLU, Linear 128 64 W2 b2, ReLU, Linear 64 10 W3 b3]
      = zero_stack" by (simp only: append_same_eq)
  from r(2) u(3) have im: "im = zero_rows 64 784" by simp
  from r(3) have f: "forward zero_stack (zero_rows 64 784) = (Inr raw :: unit error + real tensor)"
    unfolding z im .
  then have raw: "raw = zero_rows 64 10" using forward_zero_stack[of 64, where ?'a = unit] by simp
  from r(6) u(4) have out: "out = \<lparr>shape = [64, 10], data = replicate 640 (- ln 10)\<rparr>"
    by (simp add: get_var_def)
  have ne: "out \<noteq> raw" unfolding out raw by (simp add: zero_rows_def)
  from r(6,7) have "map_option out_value (logits u) = Some out"
    "map_option loss_output (loss u) = logits u" by (simp_all add: get_var_def)
  with u(1) f r(4,5) ne a show ?thesis by blast
qed

subsection \<open>C4: the configuration of the final training loop\<close>

text \<open>
  Claim C4, as amended. From every state, the statements before the loop of the final cell
  (lines 679 to 687) succeed and fix: a model of the layers \<^verbatim>\<open>Linear(784, 128)\<close>, \<^verbatim>\<open>ReLU\<close>,
  \<^verbatim>\<open>Linear(128, 64)\<close>, \<^verbatim>\<open>ReLU\<close>, \<^verbatim>\<open>Linear(64, 10)\<close>, \<^verbatim>\<open>LogSoftmax(dim=1)\<close>, whose weights
  the framework chose and which has no gradient yet; the criterion \<^verbatim>\<open>NLLLoss\<close>; and an SGD
  optimizer of learning rate 0.003 over that model. The cell then is the loop body run for the
  five epochs 0 to 4, and these statements set nothing else. What a completed loop prints and
  the model it ends with are those of five epochs of stochastic gradient descent
  (\<open>sgd_epochs\<close>) with that criterion and that learning rate, from that model, over the batches
  of the loader: so they are determined by the choices of the final cell together with the
  loader, the framework and its random state. The loader is the one the loading cell made,
  with batch size 64 and shuffling (line 97), a choice of the notebook that the final cell does
  not list.
\<close>

theorem final_cell_configuration:
  fixes fw :: "('e, 'g::monoid_add, 'r, 'f) framework"
  shows "\<exists>W1 b1 W2 b2 W3 b3 s1.
        run_stmts fw final_setup s = Inr s1
      \<and> final_cell fw s = for_epochs fw [0, 1, 2, 3, 4] s1
      \<and> model s1 = Some [Linear 784 128 W1 b1, ReLU, Linear 128 64 W2 b2, ReLU,
                          Linear 64 10 W3 b3, LogSoftmax 1]
      \<and> criterion s1 = Some NLLLoss
      \<and> optimizer s1 = Some (SGD 0.003 (model_id s1))
      \<and> model_id s1 = Suc (model_id s)
      \<and> grad s1 = None
      \<and> trainloader s1 = trainloader s
      \<and> trainset s1 = trainset s \<and> fs s1 = fs s \<and> stdout s1 = stdout s
      \<and> trace s1 = trace s @ [CallSequential, CallNewCriterion, CallSGD]
      \<and> (\<forall>t ld. final_cell fw s = Inr t \<and> trainloader s = Some ld \<longrightarrow>
            (\<exists>qs m'. sgd_epochs fw 0.003 NLLLoss (model_id s1) ld 5 (rng s1)
                   [Linear 784 128 W1 b1, ReLU, Linear 128 64 W2 b2, ReLU, Linear 64 10 W3 b3,
                    LogSoftmax 1] = Inr (qs, m', rng t)
               \<and> length qs = 5 \<and> len_loader ld \<noteq> 0
               \<and> model t = Some m'
               \<and> stdout t = stdout s @ map TrainingLoss qs))
      \<and> (\<forall>s0 t0. run_stmts fw cell_load s0 = Inr t0 \<longrightarrow>
            (\<exists>ds. trainloader t0 = Some \<lparr>dataset = ds, batch_size = 64, shuffled = True\<rparr>))"
proof -
  from build_final[of fw "rng s"] obtain W1 b1 W2 b2 W3 b3 r' where
    b: "build fw [NewLinear 784 128, NewReLU, NewLinear 128 64, NewReLU, NewLinear 64 10,
               NewLogSoftmax 1] (rng s)
       = ([Linear 784 128 W1 b1, ReLU, Linear 128 64 W2 b2, ReLU, Linear 64 10 W3 b3,
           LogSoftmax 1], r')"
    by blast
  let ?m = "[Linear 784 128 W1 b1, ReLU, Linear 128 64 W2 b2, ReLU, Linear 64 10 W3 b3,
           LogSoftmax 1]"
  let ?s1 = "s\<lparr>model := Some ?m, model_id := Suc (model_id s), grad := None, rng := r',
      criterion := Some NLLLoss, optimizer := Some (SGD 0.003 (Suc (model_id s))),
      trace := trace s @ [CallSequential, CallNewCriterion, CallSGD]\<rparr>"
  have 1: "exec fw (NewModel [NewLinear 784 128, NewReLU, NewLinear 128 64, NewReLU,
      NewLinear 64 10, NewLogSoftmax 1]) s
      = Inr (s\<lparr>model := Some ?m, model_id := Suc (model_id s), grad := None, rng := r',
                trace := trace s @ [CallSequential]\<rparr>)"
    by (simp only: exec.simps b prod.case Let_def)
  have r: "run_stmts fw final_setup s = Inr ?s1"
    unfolding final_setup_def run_stmts.simps 1 by simp
  have e: "[0..<epochs] = [0, 1, 2, 3, 4]" by (simp add: epochs_def upt_rec)
  have f: "final_cell fw s = for_epochs fw [0, 1, 2, 3, 4] ?s1"
    unfolding final_cell_def r train_def e by simp
  have l: "\<exists>qs m'. sgd_epochs fw 0.003 NLLLoss (model_id ?s1) ld 5 (rng ?s1) ?m = Inr (qs, m', rng t)
               \<and> length qs = 5 \<and> len_loader ld \<noteq> 0
               \<and> model t = Some m'
               \<and> stdout t = stdout s @ map TrainingLoss qs"
    if "final_cell fw s = Inr t \<and> trainloader s = Some ld" for t ld
  proof -
    from that f have 1: "for_epochs fw [0, 1, 2, 3, 4] ?s1 = Inr t" by simp
    have h: "trainloader ?s1 = Some ld" "optimizer ?s1 = Some (SGD 0.003 (model_id ?s1))"
      "model ?s1 = Some ?m" "criterion ?s1 = Some NLLLoss"
      using that by simp_all
    have len: "length [0::nat, 1, 2, 3, 4] = 5" by simp
    have ne: "[0::nat, 1, 2, 3, 4] \<noteq> []" by simp
    from epochs_run[OF 1 h, unfolded len] ne obtain qs m' where
      "sgd_epochs fw 0.003 NLLLoss (model_id ?s1) ld 5 (rng ?s1) ?m = Inr (qs, m', rng t)"
      "length qs = 5" "model t = Some m'" "stdout t = stdout ?s1 @ map TrainingLoss qs"
      "len_loader ld \<noteq> 0"
      by blast
    then show ?thesis by (intro exI[of _ qs] exI[of _ m']) simp

  qed
  have c: "\<exists>ds. trainloader t0 = Some \<lparr>dataset = ds, batch_size = 64, shuffled = True\<rparr>"
    if "run_stmts fw cell_load s0 = Inr t0" for s0 t0
    using that by (auto simp: cell_load_def split: sum.splits option.splits prod.splits)
  show ?thesis
    apply (rule exI[of _ W1], rule exI[of _ b1], rule exI[of _ W2], rule exI[of _ b2],
           rule exI[of _ W3], rule exI[of _ b3], rule exI[of _ ?s1])
    using l c unfolding f r by simp
qed

theorem final_cell_configuration_witness:
  "\<exists>s1 t m0 qs m' t0 ds.
        run_stmts demo_fw final_setup demo_loaded = Inr s1
      \<and> model s1 = Some m0
      \<and> criterion s1 = Some NLLLoss
      \<and> optimizer s1 = Some (SGD 0.003 (model_id s1))
      \<and> final_cell demo_fw demo_loaded = Inr t
      \<and> sgd_epochs demo_fw 0.003 NLLLoss (model_id s1)
            \<lparr>dataset = demo_set, batch_size = 64, shuffled = True\<rparr> 5 (rng s1) m0
          = Inr (qs, m', rng t)
      \<and> model t = Some m'
      \<and> stdout t = stdout demo_loaded @ map TrainingLoss qs
      \<and> stdout t = [TrainingLoss (65 / 2), TrainingLoss (65 / 2), TrainingLoss (65 / 2),
                    TrainingLoss (65 / 2), TrainingLoss (65 / 2)]
      \<and> run_stmts demo_fw cell_load demo_state = Inr t0
      \<and> trainloader t0 = Some \<lparr>dataset = ds, batch_size = 64, shuffled = True\<rparr>"
proof -
  let ?ld = "\<lparr>dataset = demo_set, batch_size = 64, shuffled = True\<rparr>"
  from demo_final_cell_64 obtain t where
    t: "final_cell demo_fw demo_loaded = Inr t"
       "stdout t = [TrainingLoss (65 / 2), TrainingLoss (65 / 2), TrainingLoss (65 / 2),
                    TrainingLoss (65 / 2), TrainingLoss (65 / 2)]"
    by blast
  have ld: "trainloader demo_loaded = Some ?ld" by (simp add: demo_loaded_def)
  obtain t0 where t0: "run_stmts demo_fw cell_load demo_state = Inr t0"
    by (simp add: cell_load_def)
  from final_cell_configuration[of demo_fw demo_loaded] obtain W1 b1 W2 b2 W3 b3 s1 where
    c: "run_stmts demo_fw final_setup demo_loaded = Inr s1"
       "model s1 = Some [Linear 784 128 W1 b1, ReLU, Linear 128 64 W2 b2, ReLU,
                          Linear 64 10 W3 b3, LogSoftmax 1]"
       "criterion s1 = Some NLLLoss"
       "optimizer s1 = Some (SGD 0.003 (model_id s1))"
       "\<forall>t ld. final_cell demo_fw demo_loaded = Inr t \<and> trainloader demo_loaded = Some ld \<longrightarrow>
            (\<exists>qs m'. sgd_epochs demo_fw 0.003 NLLLoss (model_id s1) ld 5 (rng s1)
                   [Linear 784 128 W1 b1, ReLU, Linear 128 64 W2 b2, ReLU, Linear 64 10 W3 b3,
                    LogSoftmax 1] = Inr (qs, m', rng t)
               \<and> length qs = 5 \<and> len_loader ld \<noteq> 0
               \<and> model t = Some m'
               \<and> stdout t = stdout demo_loaded @ map TrainingLoss qs)"
       "\<forall>s0 t0. run_stmts demo_fw cell_load s0 = Inr t0 \<longrightarrow>
            (\<exists>ds. trainloader t0 = Some \<lparr>dataset = ds, batch_size = 64, shuffled = True\<rparr>)"
    by blast
  from c(5) t(1) ld obtain qs m' where
    q: "sgd_epochs demo_fw 0.003 NLLLoss (model_id s1) ?ld 5 (rng s1)
                   [Linear 784 128 W1 b1, ReLU, Linear 128 64 W2 b2, ReLU, Linear 64 10 W3 b3,
                    LogSoftmax 1] = Inr (qs, m', rng t)"
       "model t = Some m'" "stdout t = stdout demo_loaded @ map TrainingLoss qs"
    by blast
  from c(6) t0 obtain ds where
    "trainloader t0 = Some \<lparr>dataset = ds, batch_size = 64, shuffled = True\<rparr>" by blast
  with c(1,2,3,4) t q t0 show ?thesis by blast
qed

text \<open>
  The choices of the final cell alone do not determine the run: on the example framework, with
  the training set of 65 samples, the final cell prints 32.5 five times when the loader's
  batch size is 64 (two batches an epoch) and 65 five times when it is 65 (one batch).
\<close>

theorem final_cell_depends_on_batch_size:
  "\<exists>t1 t2. final_cell demo_fw demo_loaded = Inr t1
     \<and> final_cell demo_fw
          (demo_loaded\<lparr>trainloader := Some \<lparr>dataset = demo_set, batch_size = 65, shuffled = True\<rparr>\<rparr>)
        = Inr t2
     \<and> trainloader demo_loaded = Some \<lparr>dataset = demo_set, batch_size = 64, shuffled = True\<rparr>
     \<and> stdout t1 = [TrainingLoss (65 / 2), TrainingLoss (65 / 2), TrainingLoss (65 / 2),
                     TrainingLoss (65 / 2), TrainingLoss (65 / 2)]
     \<and> stdout t2 = [TrainingLoss 65, TrainingLoss 65, TrainingLoss 65, TrainingLoss 65,
                     TrainingLoss 65]
     \<and> stdout t1 \<noteq> stdout t2"
proof -
  from demo_final_cell_64 obtain t1 where
    1: "final_cell demo_fw demo_loaded = Inr t1"
       "stdout t1 = [TrainingLoss (65 / 2), TrainingLoss (65 / 2), TrainingLoss (65 / 2),
                    TrainingLoss (65 / 2), TrainingLoss (65 / 2)]"
    by blast
  from demo_final_cell_65 obtain t2 where
    2: "final_cell demo_fw
          (demo_loaded\<lparr>trainloader := Some \<lparr>dataset = demo_set, batch_size = 65, shuffled = True\<rparr>\<rparr>)
        = Inr t2"
       "stdout t2 = [TrainingLoss 65, TrainingLoss 65, TrainingLoss 65, TrainingLoss 65,
                    TrainingLoss 65]"
    by blast
  have ld: "trainloader demo_loaded = Some \<lparr>dataset = demo_set, batch_size = 64, shuffled = True\<rparr>"
    by (simp add: demo_loaded_def)
  have "stdout t1 \<noteq> stdout t2" unfolding 1(2) 2(2) by simp
  with 1 2 ld show ?thesis by blast
qed

subsection \<open>C5: parameters and gradients change in three library calls only\<close>

text \<open>
  C5. Outside the calls \<^verbatim>\<open>loss.backward()\<close>, \<^verbatim>\<open>optimizer.step()\<close> and
  \<^verbatim>\<open>optimizer.zero_grad()\<close>, no statement of the training loop changes a parameter of the
  model or a parameter's \<^verbatim>\<open>.grad\<close>; between an \<^verbatim>\<open>optimizer.step()\<close> and the next backward
  pass the parameters stay as they are.

  Every statement of the notebook other than these three calls and the construction of a
  new model leaves the model and the gradients as they were. A run of statements without
  \<^verbatim>\<open>optimizer.step()\<close> and without a new model (such as the statements from one step to
  the next backward pass) leaves the model as it was, and a run without any of the three
  calls leaves the gradients as well.
\<close>

theorem parameters_change_only_in_library_calls:
  "(exec fw c s = Inr s' \<and> c \<notin> {ZeroGrad, Backward, Step} \<and> (\<forall>a. c \<noteq> NewModel a)
      \<longrightarrow> model s' = model s \<and> grad s' = grad s)
   \<and> (run_stmts fw cs s = Inr t \<and> Step \<notin> set cs \<and> (\<forall>a. NewModel a \<notin> set cs)
      \<longrightarrow> model t = model s)
   \<and> (run_stmts fw cs s = Inr t \<and> set cs \<inter> {ZeroGrad, Backward, Step} = {}
          \<and> (\<forall>a. NewModel a \<notin> set cs)
      \<longrightarrow> model t = model s \<and> grad t = grad s)"
proof (intro conjI impI)
  assume a: "exec fw c s = Inr s' \<and> c \<notin> {ZeroGrad, Backward, Step} \<and> (\<forall>a. c \<noteq> NewModel a)"
  then have w: "Fmodel \<notin> writes c \<and> Fgrad \<notin> writes c"
    by (intro writes_model_grad) blast+
  from a have e: "exec fw c s = Inr s'" by blast
  from exec_frame[OF e] w show "model s' = model s" "grad s' = grad s" by blast+
next
  assume a: "run_stmts fw cs s = Inr t \<and> Step \<notin> set cs \<and> (\<forall>a. NewModel a \<notin> set cs)"
  have "\<forall>c\<in>set cs. Fmodel \<notin> writes c"
  proof
    fix c assume "c \<in> set cs"
    with a have "c \<noteq> Step" "\<forall>a. c \<noteq> NewModel a" by blast+
    then show "Fmodel \<notin> writes c" by (rule writes_model)
  qed
  moreover from a have "run_stmts fw cs s = Inr t" by blast
  ultimately show "model t = model s" by (rule run_stmts_model[rotated])
next
  assume a: "run_stmts fw cs s = Inr t \<and> set cs \<inter> {ZeroGrad, Backward, Step} = {}
      \<and> (\<forall>a. NewModel a \<notin> set cs)"
  have w: "\<forall>c\<in>set cs. Fmodel \<notin> writes c \<and> Fgrad \<notin> writes c"
  proof
    fix c assume "c \<in> set cs"
    with a have "c \<notin> {ZeroGrad, Backward, Step}" "\<forall>a. c \<noteq> NewModel a" by blast+
    then show "Fmodel \<notin> writes c \<and> Fgrad \<notin> writes c" by (rule writes_model_grad)
  qed
  from a have r: "run_stmts fw cs s = Inr t" by blast
  from w have "\<forall>c\<in>set cs. Fmodel \<notin> writes c" "\<forall>c\<in>set cs. Fgrad \<notin> writes c" by blast+
  with run_stmts_model[OF r] run_stmts_grad[OF r]
  show "model t = model s" "grad t = grad s" by blast+
qed

text \<open>
  On the framework whose step changes the model, in the state after one training pass: the
  model is the updated one and the gradient is not zero; fetching and flattening the next
  batch leave both as they are, and \<^verbatim>\<open>zero_grad\<close> then clears the gradient and leaves the
  model.
\<close>

theorem parameters_change_only_in_library_calls_witness:
  "\<exists>s s0 s' t u m g.
       run_stmts sgd_fw final_setup demo_loaded = Inr s
     \<and> run_stmts sgd_fw (NextBatch [(zero_image, 3)] # training_pass) (s\<lparr>running_loss := Some 0\<rparr>)
          = Inr s0
     \<and> model s0 = Some m \<and> grad s0 = Some g \<and> model s \<noteq> Some m \<and> g \<noteq> 0
     \<and> exec sgd_fw (NextBatch [(zero_image, 3)]) s0 = Inr s'
     \<and> model s' = Some m \<and> grad s' = Some g
     \<and> run_stmts sgd_fw [NextBatch [(zero_image, 3)], Flatten] s0 = Inr t
     \<and> model t = Some m \<and> grad t = Some g
     \<and> run_stmts sgd_fw [NextBatch [(zero_image, 3)], Flatten, ZeroGrad] s0 = Inr u
     \<and> model u = Some m \<and> grad u = Some 0"
proof -
  from sgd_fw_pass obtain s s0 where
    p: "run_stmts sgd_fw final_setup demo_loaded = Inr s"
       "model s = Some (zero_stack @ [LogSoftmax 1])"
       "run_stmts sgd_fw (NextBatch [(zero_image, 3)] # training_pass) (s\<lparr>running_loss := Some 0\<rparr>)
          = Inr s0"
       "grad s0 = Some 1"
       "model s0 = Some (map (shift_bias (0.003 * 1)) (zero_stack @ [LogSoftmax 1]))"
    by blast
  from sgd_fw_after_pass p(1,3) have o: "optimizer s0 = Some (SGD 0.003 (model_id s0))" by auto
  from sgd_fw_next[OF o p(4)] obtain s' t u where
    n: "exec sgd_fw (NextBatch [(zero_image, 3)]) s0 = Inr s'"
       "run_stmts sgd_fw [NextBatch [(zero_image, 3)], Flatten] s0 = Inr t"
       "run_stmts sgd_fw [NextBatch [(zero_image, 3)], Flatten, ZeroGrad] s0 = Inr u"
       "grad u = Some 0"
    by blast
  from parameters_change_only_in_library_calls
         [of sgd_fw "NextBatch [(zero_image, 3)]" s0 s' "[NextBatch [(zero_image, 3)], Flatten]" t]
       n(1,2)
  have a: "model s' = model s0" "grad s' = grad s0" "model t = model s0" "grad t = grad s0"
    by simp_all
  from parameters_change_only_in_library_calls
         [of sgd_fw "NextBatch [(zero_image, 3)]" s0 s'
             "[NextBatch [(zero_image, 3)], Flatten, ZeroGrad]" u] n(3)
  have b: "model u = model s0" by simp
  have ne: "model s \<noteq> model s0" unfolding p(2,5) by (metis option.inject shifted_model_differs)
  from p n a b ne show ?thesis
    by (intro exI[of _ s] exI[of _ s0] exI[of _ s'] exI[of _ t] exI[of _ u]
        exI[of _ "map (shift_bias (0.003 * 1)) (zero_stack @ [LogSoftmax 1])"] exI[of _ 1]) simp
qed

subsection \<open>C6: exceptions are not handled; which are the framework's\<close>




subsection \<open>C7: the file system is reached by the imports and the MNIST download only\<close>

text \<open>
  Claim C7, as amended. Of the statements of the cells, those that reach the file system are,
  in order, the four imports of the loading cell, the call
  \<^verbatim>\<open>datasets.MNIST('~/.pytorch/MNIST_data/', download=True, ...)\<close>, the import of the optimizer
  cell and the two imports of the last cell; the training loop has none. Every other
  statement, and the whole training loop, neither reads nor writes the file system: run from
  a state whose file system was replaced by any other, it fails with the same exception or
  ends in the same state, the replaced file system untouched in it. The call to \<^verbatim>\<open>MNIST\<close>
  leaves the file system as the framework's function returned it, and an import as the
  interpreter's import left it. So after a run of the whole notebook the file system is what
  these eight, in this order, made of the one at the start.
\<close>

theorem file_system_through_imports_and_mnist:
  fixes fw :: "('e, 'g::monoid_add, 'r, 'f) framework"
  shows "filter (\<lambda>c. (\<exists>d. c = LoadMNIST d) \<or> (\<exists>name. c = Import name))
            (cells_before @ final_setup @ cell_predict)
          = [Import ''torch'', Import ''torch.nn'', Import ''torch.nn.functional'',
             Import ''torchvision'', LoadMNIST ''~/.pytorch/MNIST_data/'', Import ''torch.optim'',
             Import ''matplotlib'', Import ''helper'']
     \<and> (\<forall>c\<in>set (epoch_stmts chs). (\<forall>d. c \<noteq> LoadMNIST d) \<and> (\<forall>name. c \<noteq> Import name))
     \<and> ((\<forall>d. c \<noteq> LoadMNIST d) \<and> (\<forall>name. c \<noteq> Import name) \<longrightarrow>
            exec fw c (s\<lparr>fs := f\<rparr>) = map_sum id (\<lambda>t. t\<lparr>fs := f\<rparr>) (exec fw c s))
     \<and> train fw (s\<lparr>fs := f\<rparr>) = map_sum id (\<lambda>t. t\<lparr>fs := f\<rparr>) (train fw s)
     \<and> (exec fw (LoadMNIST d) s = Inr t \<longrightarrow> (\<exists>ds. mnist fw d (fs s) = Inr (ds, fs t)))
     \<and> (exec fw (Import name) s = Inr t \<longrightarrow> import_module fw name (fs s) = Some (fs t))
     \<and> (notebook fw s = Inr t \<longrightarrow>
          (\<exists>f1 f2 f3 f4 ds f5 f6 f7.
              import_module fw ''torch'' (fs s) = Some f1
            \<and> import_module fw ''torch.nn'' f1 = Some f2
            \<and> import_module fw ''torch.nn.functional'' f2 = Some f3
            \<and> import_module fw ''torchvision'' f3 = Some f4
            \<and> mnist fw ''~/.pytorch/MNIST_data/'' f4 = Inr (ds, f5)
            \<and> import_module fw ''torch.optim'' f5 = Some f6
            \<and> import_module fw ''matplotlib'' f6 = Some f7
            \<and> import_module fw ''helper'' f7 = Some (fs t)))"
proof (intro conjI impI)
  have w: "(\<lambda>c. (\<exists>d. c = LoadMNIST d) \<or> (\<exists>name. c = Import name)) = (\<lambda>c. Ffs \<in> writes c)"
    by (rule ext) (simp add: writes_fs)
  show "filter (\<lambda>c. (\<exists>d. c = LoadMNIST d) \<or> (\<exists>name. c = Import name))
            (cells_before @ final_setup @ cell_predict)
          = [Import ''torch'', Import ''torch.nn'', Import ''torch.nn.functional'',
             Import ''torchvision'', LoadMNIST ''~/.pytorch/MNIST_data/'', Import ''torch.optim'',
             Import ''matplotlib'', Import ''helper'']"
    unfolding w by (rule fs_statements)
  show "\<forall>c\<in>set (epoch_stmts chs). (\<forall>d. c \<noteq> LoadMNIST d) \<and> (\<forall>name. c \<noteq> Import name)"
    using epoch_stmts_no_load[of chs] by (auto simp: writes_fs)
  show "exec fw c (s\<lparr>fs := f\<rparr>) = map_sum id (\<lambda>t. t\<lparr>fs := f\<rparr>) (exec fw c s)"
    if "(\<forall>d. c \<noteq> LoadMNIST d) \<and> (\<forall>name. c \<noteq> Import name)"
  proof -
    from that have "Ffs \<notin> writes c" by (simp add: writes_fs)
    then show ?thesis by (rule exec_ignores_fs)
  qed
  show "train fw (s\<lparr>fs := f\<rparr>) = map_sum id (\<lambda>t. t\<lparr>fs := f\<rparr>) (train fw s)"
    unfolding train_def by (rule for_epochs_ignores_fs)
  show "\<exists>ds. mnist fw d (fs s) = Inr (ds, fs t)" if "exec fw (LoadMNIST d) s = Inr t"
    using that by (auto split: sum.splits)
  show "import_module fw name (fs s) = Some (fs t)" if "exec fw (Import name) s = Inr t"
    using that by (rule exec_Import_E)
  show "\<exists>f1 f2 f3 f4 ds f5 f6 f7.
              import_module fw ''torch'' (fs s) = Some f1
            \<and> import_module fw ''torch.nn'' f1 = Some f2
            \<and> import_module fw ''torch.nn.functional'' f2 = Some f3
            \<and> import_module fw ''torchvision'' f3 = Some f4
            \<and> mnist fw ''~/.pytorch/MNIST_data/'' f4 = Inr (ds, f5)
            \<and> import_module fw ''torch.optim'' f5 = Some f6
            \<and> import_module fw ''matplotlib'' f6 = Some f7
            \<and> import_module fw ''helper'' f7 = Some (fs t)"
    if "notebook fw s = Inr t"
    using that by (rule notebook_fs)
qed

text \<open>
  On the example framework with imports that write to the file system, and for a statement
  and the loop run on two file systems.
\<close>

theorem file_system_through_imports_and_mnist_witness:
  "(\<exists>t. notebook (demo_fw\<lparr>import_module := \<lambda>name f. Some (f + 10)\<rparr>) demo_state = Inr t
        \<and> fs t = 71
        \<and> mnist (demo_fw\<lparr>import_module := \<lambda>name f. Some (f + 10)\<rparr>) ''~/.pytorch/MNIST_data/'' 40
            = Inr (demo_set, 41))
   \<and> (\<exists>u. exec demo_fw FirstBatch demo_loaded = Inr u
        \<and> exec demo_fw FirstBatch (demo_loaded\<lparr>fs := 5\<rparr>) = Inr (u\<lparr>fs := 5\<rparr>))
   \<and> (\<exists>s s'. run_stmts demo_fw final_setup demo_loaded = Inr s \<and> train demo_fw s = Inr s'
        \<and> train demo_fw (s\<lparr>fs := 5\<rparr>) = Inr (s'\<lparr>fs := 5\<rparr>))"
proof -
  let ?W = "demo_fw\<lparr>import_module := \<lambda>name f. Some (f + 10)\<rparr>"
  from writing_imports_notebook obtain t where t: "notebook ?W demo_state = Inr t" "fs t = 71"
    by blast
  from file_system_through_imports_and_mnist[where fw = ?W and s = demo_state and t = t] t(1)
  obtain f1 f2 f3 f4 ds f5 where
    c: "import_module ?W ''torch'' (fs demo_state) = Some f1"
       "import_module ?W ''torch.nn'' f1 = Some f2"
       "import_module ?W ''torch.nn.functional'' f2 = Some f3"
       "import_module ?W ''torchvision'' f3 = Some f4"
       "mnist ?W ''~/.pytorch/MNIST_data/'' f4 = Inr (ds, f5)"
    by blast
  from c(1,2,3,4) have "f4 = 40" by (auto simp: demo_state_def)
  with c(5) have m: "mnist ?W ''~/.pytorch/MNIST_data/'' 40 = Inr (demo_set, 41)" by simp
  from demo_first_batch obtain u where u: "exec demo_fw FirstBatch demo_loaded = Inr u" by blast
  from file_system_through_imports_and_mnist[where fw = demo_fw and c = FirstBatch
      and s = demo_loaded and f = 5] u
  have e: "exec demo_fw FirstBatch (demo_loaded\<lparr>fs := 5\<rparr>) = Inr (u\<lparr>fs := 5\<rparr>)" by simp
  from demo_train obtain s s' where
    d: "run_stmts demo_fw final_setup demo_loaded = Inr s" "train demo_fw s = Inr s'" by blast
  from file_system_through_imports_and_mnist[where fw = demo_fw and s = s and f = 5] d(2)
  have tr: "train demo_fw (s\<lparr>fs := 5\<rparr>) = Inr (s'\<lparr>fs := 5\<rparr>)" by simp
  from t m u e d tr show ?thesis by blast
qed

text \<open>
  The MNIST download is not the only statement that reaches the file system. Where an import
  finds its module on one file system and not on another, the loading cell ends or fails
  accordingly, though the download succeeds on both; and where imports write to the file
  system, the file system after the notebook is not the one the download alone leaves.
\<close>

theorem imports_reach_the_file_system:
  "run_stmts (demo_fw\<lparr>import_module := \<lambda>name f. if f = 0 then None else Some f\<rparr>) cell_load
      demo_state = Inl ModuleNotFoundError
   \<and> (\<exists>t. run_stmts (demo_fw\<lparr>import_module := \<lambda>name f. if f = 0 then None else Some f\<rparr>)
             cell_load (demo_state\<lparr>fs := 1\<rparr>) = Inr t)
   \<and> mnist (demo_fw\<lparr>import_module := \<lambda>name f. if f = 0 then None else Some f\<rparr>)
        ''~/.pytorch/MNIST_data/'' 0 = Inr (demo_set, 1)
   \<and> mnist (demo_fw\<lparr>import_module := \<lambda>name f. if f = 0 then None else Some f\<rparr>)
        ''~/.pytorch/MNIST_data/'' 1 = Inr (demo_set, 2)
   \<and> (\<exists>t. notebook (demo_fw\<lparr>import_module := \<lambda>name f. Some (f + 10)\<rparr>) demo_state = Inr t
         \<and> fs t = 71
         \<and> mnist (demo_fw\<lparr>import_module := \<lambda>name f. Some (f + 10)\<rparr>) ''~/.pytorch/MNIST_data/''
              (fs demo_state) = Inr (demo_set, 1))"
proof -
  have "mnist (demo_fw\<lparr>import_module := \<lambda>name f. Some (f + 10)\<rparr>) ''~/.pytorch/MNIST_data/''
              (fs demo_state) = Inr (demo_set, 1)"
    by (simp add: demo_state_def)
  with reading_imports_cell_load writing_imports_notebook show ?thesis by simp
qed

subsection \<open>C8: the gradient used by an update is that of the current batch\<close>

text \<open>
  Claim C8. Take any \<^verbatim>\<open>optimizer.step()\<close> of an epoch of the final training loop, and any
  run of the statements before it, from any state in which the optimizer was built over the
  current model. The statements just before the step are those of one batch of the epoch:
  fetching it, \<^verbatim>\<open>view\<close>, \<^verbatim>\<open>optimizer.zero_grad()\<close>, the forward pass, the criterion and
  \<^verbatim>\<open>loss.backward()\<close>. When the step is reached, the gradient store holds exactly what
  autograd computes for the loss of that batch under the current model: nothing of an earlier
  batch is left in it, because \<^verbatim>\<open>zero_grad\<close> cleared the store after the batch was fetched and
  before its forward pass. (Lemma \<open>backward_accumulates\<close> shows what \<^verbatim>\<open>backward\<close> does to a
  store that was not cleared: it adds to it.)
\<close>

theorem gradients_are_of_current_batch:
  fixes fw :: "('e, 'g::monoid_add, 'r, 'f) framework"
  assumes "epoch_stmts chs = pre @ Step # post"
    and "run_stmts fw pre s = Inr s1"
    and "optimizer s = Some (SGD lr (model_id s))"
  shows "\<exists>pre0 ch im lb im' m out c v.
        pre = pre0 @ [NextBatch ch, Flatten, ZeroGrad, Forward Output, Criterion Output, Backward]
      \<and> ch \<in> set chs
      \<and> collate ch = (Inr (im, lb) :: 'e error + real tensor \<times> nat list)
      \<and> flatten im = (Inr im' :: 'e error + real tensor)
      \<and> model s1 = Some m \<and> forward m im' = (Inr out :: 'e error + real tensor)
      \<and> criterion s1 = Some c
      \<and> loss_fn fw c out lb = Inr v
      \<and> loss s1 = Some \<lparr>item = v, loss_criterion = c,
            loss_output = \<lparr>out_value = out, out_graph = Some (model_id s1, m, im')\<rparr>,
            loss_target = lb, graph_freed = True\<rparr>
      \<and> grad s1 = Some (autograd fw \<lparr>item = v, loss_criterion = c,
            loss_output = \<lparr>out_value = out, out_graph = Some (model_id s1, m, im')\<rparr>,
            loss_target = lb, graph_freed = False\<rparr>)
      \<and> optimizer s1 = Some (SGD lr (model_id s1))"
proof -
  from step_position[OF assms(1)] obtain pre0 ch where p: "ch \<in> set chs"
    "pre = pre0 @ [NextBatch ch, Flatten, ZeroGrad, Forward Output, Criterion Output, Backward]"
    "set pre0 \<subseteq> set (epoch_stmts chs)" by blast
  from assms(2) obtain s0 where 0: "run_stmts fw pre0 s = Inr s0"
    and 1: "run_stmts fw [NextBatch ch, Flatten, ZeroGrad, Forward Output, Criterion Output, Backward] s0 = Inr s1"
    unfolding p(2) run_stmts_append_Inr by blast
  have fr: "\<forall>c\<in>set pre0. Foptimizer \<notin> writes c" "\<forall>c\<in>set pre0. Fmodel_id \<notin> writes c"
    using p(3) epoch_stmts_frame[of chs] by blast+
  have "optimizer s0 = Some (SGD lr (model_id s0))"
    using run_stmts_optimizer[OF 0 fr(1)] run_stmts_model_id[OF 0 fr(2)] assms(3) by simp
  from fresh_gradient[OF 1 this] p(1,2) show ?thesis by blast
qed

theorem gradients_are_of_current_batch_witness:
  "\<exists>s s1 im lb im' m out c v.
       run_stmts demo_fw final_setup demo_loaded = Inr s
     \<and> run_stmts demo_fw
          ([NextBatch (replicate 64 (zero_image, 3)), Flatten, ZeroGrad, Forward Output,
            Criterion Output, Backward, Step, Accumulate]
           @ [NextBatch [(zero_image, 3)], Flatten, ZeroGrad, Forward Output, Criterion Output,
              Backward]) (s\<lparr>running_loss := Some 0\<rparr>) = Inr s1
     \<and> collate [(zero_image, 3)] = (Inr (im, lb) :: unit error + real tensor \<times> nat list)
     \<and> flatten im = (Inr im' :: unit error + real tensor)
     \<and> model s1 = Some m \<and> forward m im' = (Inr out :: unit error + real tensor)
     \<and> criterion s1 = Some c
     \<and> loss_fn demo_fw c out lb = Inr v
     \<and> grad s1 = Some (autograd demo_fw \<lparr>item = v, loss_criterion = c,
            loss_output = \<lparr>out_value = out, out_graph = Some (model_id s1, m, im')\<rparr>,
            loss_target = lb, graph_freed = False\<rparr>)"
proof -
  let ?b1 = "[NextBatch (replicate 64 (zero_image, 3)), Flatten, ZeroGrad, Forward Output,
            Criterion Output, Backward, Step, Accumulate]"
  let ?pre = "?b1 @ [NextBatch [(zero_image, 3)], Flatten, ZeroGrad, Forward Output, Criterion Output,
              Backward]"
  from demo_second_batch obtain s s1 where 1: "run_stmts demo_fw final_setup demo_loaded = Inr s"
    and 2: "optimizer s = Some (SGD (3 / 1000) (model_id s))"
    and 3: "run_stmts demo_fw ?pre (s\<lparr>running_loss := Some 0\<rparr>) = Inr s1"
    by blast
  have e: "epoch_stmts [replicate 64 (zero_image, 3), [(zero_image, 3)]]
      = ?pre @ Step # [Accumulate, PrintLoss]"
    by (simp add: epoch_stmts_def training_pass_def)
  have o: "optimizer (s\<lparr>running_loss := Some 0\<rparr>) = Some (SGD (3 / 1000) (model_id (s\<lparr>running_loss := Some 0\<rparr>)))"
    using 2 by simp
  from gradients_are_of_current_batch[OF e 3 o] obtain pre0 ch im lb im' m out c v where
    r: "?pre = pre0 @ [NextBatch ch, Flatten, ZeroGrad, Forward Output, Criterion Output, Backward]"
      "collate ch = (Inr (im, lb) :: unit error + real tensor \<times> nat list)"
      "flatten im = (Inr im' :: unit error + real tensor)"
      "model s1 = Some m" "forward m im' = (Inr out :: unit error + real tensor)"
      "criterion s1 = Some c" "loss_fn demo_fw c out lb = Inr v"
      "grad s1 = Some (autograd demo_fw \<lparr>item = v, loss_criterion = c,
            loss_output = \<lparr>out_value = out, out_graph = Some (model_id s1, m, im')\<rparr>,
            loss_target = lb, graph_freed = False\<rparr>)"
    by blast
  from r(1) have "ch = [(zero_image, 3)]" by simp
  with r 1 3 show ?thesis by blast
qed

subsection \<open>C9: the printed training loss\<close>

text \<open>
  Claim C9. Take one epoch of the final loop that runs to its end, from any state in which
  the loader, the criterion, the model and an optimizer over that model are set up, whatever
  \<^verbatim>\<open>running_loss\<close> held before. The number it prints is the sum, over the batches the loader
  yields in this epoch and over no others, of the loss of each batch (the criterion's value
  \<^verbatim>\<open>loss.item()\<close> for the model as it is when that batch is reached, as \<open>sgd_epoch\<close> computes
  it), divided by \<^verbatim>\<open>len(trainloader)\<close>, which is not zero and is the number of batches, not
  of samples, when the sampler returns a permutation of the training set. Entries are real
  numbers, so the sum does not depend on the order of the additions.
\<close>

theorem printed_loss_is_epoch_mean:
  fixes fw :: "('e, 'g::monoid_add, 'r, 'f) framework"
  assumes "epoch fw e s = Inr s'" and "trainloader s = Some ld"
    and "optimizer s = Some (SGD lr (model_id s))"
    and "model s = Some m" and "criterion s = Some c"
  shows "\<exists>vs m'.
        sgd_epoch fw lr c (model_id s) m (fst (iter_loader fw ld (rng s))) = Inr (vs, m')
      \<and> length vs = length (fst (iter_loader fw ld (rng s)))
      \<and> (sampler_ok fw \<longrightarrow> length vs = len_loader ld)
      \<and> len_loader ld \<noteq> 0
      \<and> stdout s' = stdout s @ [TrainingLoss (sum_list vs / real (len_loader ld))]
      \<and> trace s' = trace s @ epoch_calls (zip (fst (iter_loader fw ld (rng s))) vs)"
proof -
  from epoch_run[OF assms] obtain vs m' where
    r: "sgd_epoch fw lr c (model_id s) m (fst (iter_loader fw ld (rng s))) = Inr (vs, m')"
       "length vs = length (fst (iter_loader fw ld (rng s)))"
       "stdout s' = stdout s @ [TrainingLoss (sum_list vs / real (len_loader ld))]"
       "len_loader ld \<noteq> 0"
       "trace s' = trace s @ epoch_calls (zip (fst (iter_loader fw ld (rng s))) vs)"
    by blast
  from len_loader_batch_size[OF r(4)] have b: "0 < batch_size ld" by simp
  have "length vs = len_loader ld" if "sampler_ok fw"
    using iter_loader_cover[OF that b, of "rng s"] r(2) by simp
  with r show ?thesis by blast
qed

theorem printed_loss_is_epoch_mean_witness:
  "\<exists>s s' vs m'. run_stmts demo_fw final_setup demo_loaded = Inr s
     \<and> epoch demo_fw 0 (s\<lparr>running_loss := Some 1000\<rparr>) = Inr s'
     \<and> sgd_epoch demo_fw 0.003 NLLLoss (model_id s) (zero_stack @ [LogSoftmax 1])
          [replicate 64 (zero_image, 3), [(zero_image, 3)]] = Inr (vs, m')
     \<and> vs = [64, 1]
     \<and> length vs = len_loader \<lparr>dataset = demo_set, batch_size = 64, shuffled = True\<rparr>
     \<and> stdout s' = stdout s @ [TrainingLoss (65 / 2)]"
proof -
  let ?ld = "\<lparr>dataset = demo_set, batch_size = 64, shuffled = True\<rparr>"
  from demo_epoch obtain s s' where
    d: "run_stmts demo_fw final_setup demo_loaded = Inr s"
       "trainloader s = Some ?ld"
       "optimizer s = Some (SGD 0.003 (model_id s))"
       "model s = Some (zero_stack @ [LogSoftmax 1])"
       "criterion s = Some NLLLoss"
       "iter_loader demo_fw ?ld (rng s) = ([replicate 64 (zero_image, 3), [(zero_image, 3)]], Suc (rng s))"
       "epoch demo_fw 0 (s\<lparr>running_loss := Some 1000\<rparr>) = Inr s'"
    by blast
  let ?s = "s\<lparr>running_loss := Some 1000\<rparr>"
  have h: "trainloader ?s = Some ?ld" "optimizer ?s = Some (SGD 0.003 (model_id ?s))"
    "model ?s = Some (zero_stack @ [LogSoftmax 1])" "criterion ?s = Some NLLLoss"
    using d(2,3,4,5) by simp_all
  from printed_loss_is_epoch_mean[OF d(7) h] sampler_ok_demo obtain vs m' where
    t: "sgd_epoch demo_fw 0.003 NLLLoss (model_id ?s) (zero_stack @ [LogSoftmax 1])
          (fst (iter_loader demo_fw ?ld (rng ?s))) = Inr (vs, m')"
       "length vs = len_loader ?ld"
       "stdout s' = stdout ?s @ [TrainingLoss (sum_list vs / real (len_loader ?ld))]"
    by blast
  from t(1) d(6) have e: "sgd_epoch demo_fw 0.003 NLLLoss (model_id s) (zero_stack @ [LogSoftmax 1])
          [replicate 64 (zero_image, 3), [(zero_image, 3)]] = Inr (vs, m')" by simp
  with demo_sgd_epoch[of "0.003" NLLLoss "model_id s"] have vs: "vs = [64, 1]" by simp
  have l: "len_loader ?ld = 2" by (simp add: len_loader_def)
  from t(3) have "stdout s' = stdout s @ [TrainingLoss (65 / 2)]" unfolding vs l by simp
  with d(1,7) e vs t(2) show ?thesis by blast
qed

subsection \<open>C10: \<^verbatim>\<open>view\<close> fits every batch, \<^verbatim>\<open>resize_\<close> only a batch of 64\<close>

text \<open>
  Claim C10. Let the loader's sampler return a permutation of the training set and let every
  image of the set have the same shape, of 784 entries. Then for every batch the loader
  yields in an epoch, whatever the batch size, \<^verbatim>\<open>images.view(images.shape[0], -1)\<close> succeeds
  and gives a tensor of as many rows as the batch has images, 784 columns and the same
  entries; whereas \<^verbatim>\<open>images.resize_(64, 784)\<close> leaves the entries of the batch as they are if
  and only if the batch has 64 images (a shorter batch is filled up with uninitialised
  memory, a longer one is cut). When the loader's batch size is 64 and the set has at least 64
  samples, \<^verbatim>\<open>next(iter(trainloader))\<close> succeeds and yields a batch of 64 images, so the
  \<^verbatim>\<open>resize_\<close> of the single training step (line 585) keeps its entries. A loader never yields
  an empty batch; on a tensor with no rows \<^verbatim>\<open>view(0, -1)\<close> raises (lemma
  \<open>flatten_empty_batch\<close>).
\<close>

theorem flatten_any_batch_resize_only_64:
  fixes fw :: "('e, 'g::monoid_add, 'r, 'f) framework"
  assumes "sampler_ok fw" and "trainloader s = Some ld"
    and "\<forall>x\<in>set (dataset ld). wf_tensor (fst x) \<and> shape (fst x) = sh"
    and "prod_list sh = 784"
  shows "(\<forall>ch\<in>set (fst (iter_loader fw ld (rng s))). \<exists>im.
            collate ch = (Inr (im, map snd ch) :: 'e error + real tensor \<times> nat list)
          \<and> 0 < length ch \<and> shape im = length ch # sh
          \<and> flatten im = (Inr \<lparr>shape = [length ch, 784], data = data im\<rparr> :: 'e error + real tensor)
          \<and> (data (resize_inplace (uninitialised fw) im [64, 784]) = data im \<longleftrightarrow> length ch = 64))
       \<and> (batch_size ld = 64 \<and> 64 \<le> length (dataset ld) \<longrightarrow>
            (\<exists>s1 s2 im. exec fw FirstBatch s = Inr s1 \<and> images s1 = Some im
               \<and> shape im = 64 # sh
               \<and> exec fw (Resize [64, 784]) s1 = Inr s2
               \<and> images s2 = Some \<lparr>shape = [64, 784], data = data im\<rparr>))"
proof (intro conjI ballI impI)
  fix ch assume ch: "ch \<in> set (fst (iter_loader fw ld (rng s)))"
  from iter_loader_order[OF assms(1), of ld "rng s"] obtain order where
    o: "fst (iter_loader fw ld (rng s)) = chunks (batch_size ld) order"
       "set order = set (dataset ld)" by blast
  from ch o(1) chunks_nonempty[of ch "batch_size ld" order] have ne: "ch \<noteq> []" by simp
  from ch o chunks_subset[of ch "batch_size ld" order] have "set ch \<subseteq> set (dataset ld)" by simp
  then have sh: "\<forall>x\<in>set ch. wf_tensor (fst x) \<and> shape (fst x) = sh" using assms(3) by blast
  from collate_same_shape[OF ne sh] obtain im where
    im: "collate ch = (Inr (im, map snd ch) :: 'e error + real tensor \<times> nat list)"
      "shape im = length ch # sh" "wf_tensor im"
    by blast
  have p: "0 < length ch" using ne by simp
  have f: "flatten im = (Inr \<lparr>shape = [length ch, 784], data = data im\<rparr> :: 'e error + real tensor)"
    using flatten_batch[OF p im(2)] assms(4) by simp
  from im p f resize_keeps_iff[OF im(3) im(2) assms(4)]
  show "\<exists>im. collate ch = (Inr (im, map snd ch) :: 'e error + real tensor \<times> nat list)
          \<and> 0 < length ch \<and> shape im = length ch # sh
          \<and> flatten im = (Inr \<lparr>shape = [length ch, 784], data = data im\<rparr> :: 'e error + real tensor)
          \<and> (data (resize_inplace (uninitialised fw) im [64, 784]) = data im \<longleftrightarrow> length ch = 64)"
    by blast
next
  assume b: "batch_size ld = 64 \<and> 64 \<le> length (dataset ld)"
  then have "0 < batch_size ld" "batch_size ld \<le> length (dataset ld)" by simp_all
  from first_batch_full[OF assms(1,2) this assms(3)] b obtain s1 im where
    1: "exec fw FirstBatch s = Inr s1" "images s1 = Some im" "shape im = 64 # sh" "wf_tensor im"
    by auto
  have k: "data (resize_inplace (uninitialised fw) im [64, 784]) = data im"
    using resize_keeps_iff[OF 1(4) 1(3) assms(4)] by simp
  have "resize_inplace (uninitialised fw) im [64, 784] = \<lparr>shape = [64, 784], data = data im\<rparr>"
    using k by (simp add: resize_inplace_def)
  then have "exec fw (Resize [64, 784]) s1 = Inr (s1\<lparr>images := Some \<lparr>shape = [64, 784], data = data im\<rparr>,
       trace := trace s1 @ [CallResize]\<rparr>)"
    using 1(2) by simp
  with 1 show "\<exists>s1 s2 im. exec fw FirstBatch s = Inr s1 \<and> images s1 = Some im
               \<and> shape im = 64 # sh
               \<and> exec fw (Resize [64, 784]) s1 = Inr s2
               \<and> images s2 = Some \<lparr>shape = [64, 784], data = data im\<rparr>"
    by simp
qed

theorem flatten_any_batch_resize_only_64_witness:
  "(\<exists>im. collate [(zero_image, 3)] = (Inr (im, [3]) :: unit error + real tensor \<times> nat list)
       \<and> flatten im = (Inr \<lparr>shape = [1, 784], data = data im\<rparr> :: unit error + real tensor)
       \<and> data (resize_inplace (uninitialised demo_fw) im [64, 784]) \<noteq> data im)
   \<and> (\<exists>s1 s2 im. exec demo_fw FirstBatch demo_loaded = Inr s1 \<and> images s1 = Some im
         \<and> shape im = [64, 1, 28, 28]
         \<and> exec demo_fw (Resize [64, 784]) s1 = Inr s2
         \<and> images s2 = Some \<lparr>shape = [64, 784], data = data im\<rparr>)"
proof -
  let ?ld = "\<lparr>dataset = demo_set, batch_size = 64, shuffled = True\<rparr>"
  have l: "trainloader demo_loaded = Some ?ld" by (simp add: demo_loaded_def)
  have p: "prod_list [1, 28, 28] = (784::nat)" by simp
  note t = flatten_any_batch_resize_only_64[OF sampler_ok_demo l demo_set_images p]
  from t demo_last_batch have
    "\<exists>im. collate [(zero_image, 3)] = (Inr (im, map snd [(zero_image, 3::nat)]) :: unit error + real tensor \<times> nat list)
       \<and> flatten im = (Inr \<lparr>shape = [length [(zero_image, 3::nat)], 784], data = data im\<rparr> :: unit error + real tensor)
       \<and> (data (resize_inplace (uninitialised demo_fw) im [64, 784]) = data im
            \<longleftrightarrow> length [(zero_image, 3::nat)] = 64)"
    by blast
  then have a: "\<exists>im. collate [(zero_image, 3)] = (Inr (im, [3]) :: unit error + real tensor \<times> nat list)
       \<and> flatten im = (Inr \<lparr>shape = [1, 784], data = data im\<rparr> :: unit error + real tensor)
       \<and> data (resize_inplace (uninitialised demo_fw) im [64, 784]) \<noteq> data im"
    by simp
  have "batch_size ?ld = 64 \<and> 64 \<le> length (dataset ?ld)" by simp
  with t have "\<exists>s1 s2 im. exec demo_fw FirstBatch demo_loaded = Inr s1 \<and> images s1 = Some im
         \<and> shape im = [64, 1, 28, 28]
         \<and> exec demo_fw (Resize [64, 784]) s1 = Inr s2
         \<and> images s2 = Some \<lparr>shape = [64, 784], data = data im\<rparr>"
    by blast
  with a show ?thesis by blast
qed
end
